(* ===== verification/CC_Prelude.thy ===== *)
theory CC_Prelude
  imports Complex_Main
begin

text \<open>
  Shared vocabulary of the ClarityCut development.

  \<^item> The theorem collections \<open>cc_defs\<close> (definitions a component proof may unfold),
    \<open>cc_frame\<close> (which fields an operation leaves alone) and \<open>cc_inv\<close> (an operation keeps
    an invariant).
  \<^item> JavaScript numbers. Every number of the program is an IEEE double. The model takes
    the finite ones as \<^typ>\<open>real\<close> (rounding is not modelled) and keeps the three
    non-finite results a division can produce as the constructors of \<open>jsnum\<close>, so that
    \<open>x / 0\<close> is never silently \<open>0\<close> as it is in HOL.
  \<^item> Numbers as text: \<open>toString\<close> of an integer, \<open>padStart\<close>, \<open>toFixed\<close>, and \<open>parse_nat\<close> to
    read the digits back.
  \<^item> Random draws: \<open>Math.random()\<close> as a sequence \<open>rng\<close> that the model reads at a running
    index.
  \<^item> The idioms the sources repeat inline: \<open>Math.max(lo, Math.min(hi, x))\<close> as \<open>clamp\<close>,
    \<open>Array.prototype.find\<close> as \<^const>\<open>List.find\<close>, \<open>Array.prototype.reduce\<close> with \<open>+\<close> as
    \<^const>\<open>foldl\<close>, with the lemmas on them that the components share.
\<close>

section \<open>Theorem collections\<close>

named_theorems cc_defs "definitions of the model that component proofs unfold"
named_theorems cc_frame "fields that an operation leaves unchanged"
named_theorems cc_inv "operations preserve invariants"

section \<open>JavaScript numbers\<close>

type_synonym seconds = real

datatype jsnum = Finite real | PosInfinity | NegInfinity | NaN

definition js_div :: "real \<Rightarrow> real \<Rightarrow> jsnum" where
  "js_div a b =
     (if b \<noteq> 0 then Finite (a / b)
      else if a = 0 then NaN
      else if 0 < a then PosInfinity else NegInfinity)"

definition js_mul :: "jsnum \<Rightarrow> real \<Rightarrow> jsnum" where
  "js_mul x b =
     (case x of
        Finite a \<Rightarrow> Finite (a * b)
      | NaN \<Rightarrow> NaN
      | PosInfinity \<Rightarrow> (if b = 0 then NaN else if 0 < b then PosInfinity else NegInfinity)
      | NegInfinity \<Rightarrow> (if b = 0 then NaN else if 0 < b then NegInfinity else PosInfinity))"

definition jsnum_div :: "jsnum \<Rightarrow> real \<Rightarrow> jsnum" where
  "jsnum_div x b =
     (case x of
        Finite a \<Rightarrow> js_div a b
      | NaN \<Rightarrow> NaN
      | PosInfinity \<Rightarrow> (if 0 \<le> b then PosInfinity else NegInfinity)
      | NegInfinity \<Rightarrow> (if 0 \<le> b then NegInfinity else PosInfinity))"

fun is_finite :: "jsnum \<Rightarrow> bool" where
  "is_finite (Finite _) = True"
| "is_finite _ = False"

definition js_max :: "real \<Rightarrow> jsnum \<Rightarrow> jsnum" where
  "js_max a x =
     (case x of
        Finite b \<Rightarrow> Finite (max a b)
      | PosInfinity \<Rightarrow> PosInfinity
      | NegInfinity \<Rightarrow> Finite a
      | NaN \<Rightarrow> NaN)"

definition js_trunc :: "real \<Rightarrow> int" where
  "js_trunc x = (if 0 \<le> x then \<lfloor>x\<rfloor> else \<lceil>x\<rceil>)"

definition js_rem :: "real \<Rightarrow> real \<Rightarrow> real" where
  "js_rem a b = a - b * of_int (js_trunc (a / b))"

definition clamp :: "real \<Rightarrow> real \<Rightarrow> real \<Rightarrow> real" where
  "clamp lo hi x = max lo (min hi x)"

lemma js_div_finite [simp]: "b \<noteq> 0 \<Longrightarrow> js_div a b = Finite (a / b)"
  by (simp add: js_div_def)

lemma js_div_zero_zero [simp]: "js_div 0 0 = NaN"
  by (simp add: js_div_def)

lemma is_finite_js_div [simp]: "is_finite (js_div a b) \<longleftrightarrow> b \<noteq> 0"
  by (simp add: js_div_def)

lemma is_finite_js_mul [simp]: "is_finite (js_mul x b) \<longleftrightarrow> is_finite x"
  by (cases x) (simp_all add: js_mul_def)

lemma js_mul_Finite [simp]: "js_mul (Finite a) b = Finite (a * b)"
  by (simp add: js_mul_def)

lemma jsnum_div_Finite [simp]: "jsnum_div (Finite a) b = js_div a b"
  by (simp add: jsnum_div_def)

lemma js_max_Finite [simp]: "js_max a (Finite b) = Finite (max a b)"
  by (simp add: js_max_def)

lemma js_rem_nonneg:
  assumes "0 \<le> a" and "0 < b"
  shows "0 \<le> js_rem a b" and "js_rem a b < b"
proof -
  from assms have q: "0 \<le> a / b" by simp
  from floor_divide_lower [OF assms(2), of a] q show "0 \<le> js_rem a b"
    by (simp add: js_rem_def js_trunc_def mult.commute)
  from floor_divide_upper [OF assms(2), of a] q show "js_rem a b < b"
    by (simp add: js_rem_def js_trunc_def algebra_simps)
qed

section \<open>JavaScript strings of integers\<close>

text \<open>
  \<open>Number.prototype.toString\<close> on an integer value (decimal digits, a minus sign for a
  negative one; the exponent form of values from \<open>10\<^sup>2\<^sup>1\<close> on is not modelled) and
  \<open>String.prototype.padStart\<close> with a one-character filler.
\<close>

definition digit_char :: "nat \<Rightarrow> char" where
  "digit_char n = ''0123456789'' ! (n mod 10)"

fun nat_toString :: "nat \<Rightarrow> string" where
  "nat_toString n = (if n < 10 then [digit_char n] else nat_toString (n div 10) @ [digit_char n])"

declare nat_toString.simps [simp del]

definition int_toString :: "int \<Rightarrow> string" where
  "int_toString i = (if i < 0 then CHR ''-'' # nat_toString (nat (- i)) else nat_toString (nat i))"

definition padStart :: "nat \<Rightarrow> char \<Rightarrow> string \<Rightarrow> string" where
  "padStart n c s = replicate (n - length s) c @ s"

lemma nat_toString_small [simp]: "n < 10 \<Longrightarrow> nat_toString n = [digit_char n]"
  by (subst nat_toString.simps) simp

lemma nat_toString_large: "\<not> n < 10 \<Longrightarrow> nat_toString n = nat_toString (n div 10) @ [digit_char n]"
  by (subst nat_toString.simps) simp

lemma nat_toString_nonempty [simp]: "nat_toString n \<noteq> []"
  by (subst nat_toString.simps) simp

lemma length_nat_toString_two: "10 \<le> n \<Longrightarrow> n < 100 \<Longrightarrow> length (nat_toString n) = 2"
  by (subst nat_toString.simps) (simp add: less_mult_imp_div_less)

lemma length_padStart [simp]: "length (padStart n c s) = max n (length s)"
  by (simp add: padStart_def)

lemma padStart_id [simp]: "n \<le> length s \<Longrightarrow> padStart n c s = s"
  by (simp add: padStart_def)

section \<open>Rounding to decimals\<close>

text \<open>
  \<open>Number.prototype.toFixed(n)\<close>: the decimal with \<open>n\<close> fraction digits nearest to the
  number, the larger one on a tie, computed on the absolute value with the sign put back.
  \<open>toFixed_num\<close> is the number that \<open>parseFloat\<close> reads back from that string, \<open>toFixed\<close>
  the string itself; \<open>jsnum_toFixed\<close> adds the three non-finite values.
\<close>

definition toFixed_int :: "nat \<Rightarrow> real \<Rightarrow> int" where
  "toFixed_int n x = \<lfloor>\<bar>x\<bar> * 10 ^ n + 1 / 2\<rfloor>"

definition toFixed_num :: "nat \<Rightarrow> real \<Rightarrow> real" where
  "toFixed_num n x = (if x < 0 then - 1 else 1) * of_int (toFixed_int n x) / 10 ^ n"

definition toFixed :: "nat \<Rightarrow> real \<Rightarrow> string" where
  "toFixed n x =
     (let m = nat (toFixed_int n x);
          whole = nat_toString (m div 10 ^ n);
          frac = padStart n (CHR ''0'') (nat_toString (m mod 10 ^ n))
      in (if x < 0 then ''-'' else []) @ whole @ (if n = 0 then [] else ''.'' @ frac))"

definition jsnum_toFixed :: "nat \<Rightarrow> jsnum \<Rightarrow> string" where
  "jsnum_toFixed n x =
     (case x of
        Finite r \<Rightarrow> toFixed n r
      | PosInfinity \<Rightarrow> ''Infinity''
      | NegInfinity \<Rightarrow> ''-Infinity''
      | NaN \<Rightarrow> ''NaN'')"

lemma toFixed_int_nonneg [simp]: "0 \<le> toFixed_int n x"
  by (simp add: toFixed_int_def)

lemma toFixed_num_nonneg: "0 \<le> x \<Longrightarrow> 0 \<le> toFixed_num n x"
  by (simp add: toFixed_num_def)

lemma toFixed_num_upper:
  assumes "0 \<le> x"
  shows "toFixed_num n x \<le> x + 1 / (2 * 10 ^ n)"
proof -
  have "of_int (toFixed_int n x) \<le> x * 10 ^ n + 1 / 2"
    using assms by (simp add: toFixed_int_def)
  then have "of_int (toFixed_int n x) / 10 ^ n \<le> (x * 10 ^ n + 1 / 2) / 10 ^ n"
    by (simp add: divide_right_mono)
  with assms show ?thesis by (simp add: toFixed_num_def field_simps)
qed

lemma toFixed_num_lower:
  assumes "0 \<le> x"
  shows "x - 1 / (2 * 10 ^ n) < toFixed_num n x"
proof -
  have "x * 10 ^ n + 1 / 2 < of_int (toFixed_int n x) + 1"
    using assms by (simp add: toFixed_int_def)
  then have "(x * 10 ^ n - 1 / 2) / 10 ^ n < of_int (toFixed_int n x) / 10 ^ n"
    by (simp add: divide_strict_right_mono)
  with assms show ?thesis by (simp add: toFixed_num_def field_simps)
qed

lemma toFixed_num_strict_mono:
  assumes "0 \<le> x" and "1 / 10 ^ n \<le> l"
  shows "toFixed_num n x < toFixed_num n (x + l)"
proof -
  define y where "y = x * 10 ^ n + 1 / 2"
  define z where "z = (x + l) * 10 ^ n + 1 / 2"
  from assms(2) have "1 \<le> l * 10 ^ n" by (simp add: field_simps)
  then have "y + 1 \<le> z" by (simp add: y_def z_def algebra_simps)
  then have "\<lfloor>y + 1\<rfloor> \<le> \<lfloor>z\<rfloor>" by (rule floor_mono)
  then have "\<lfloor>y\<rfloor> < \<lfloor>z\<rfloor>" by simp
  moreover have l: "0 \<le> l" using assms(2) by (rule order_trans [rotated]) simp
  ultimately have "toFixed_int n x < toFixed_int n (x + l)"
    using assms(1) by (simp add: toFixed_int_def y_def z_def)
  then have "of_int (toFixed_int n x) / 10 ^ n < (of_int (toFixed_int n (x + l)) :: real) / 10 ^ n"
    by (simp add: divide_strict_right_mono)
  with assms(1) l show ?thesis by (simp add: toFixed_num_def)
qed

lemma toFixed_num_mono_nonneg:
  assumes "0 \<le> x" and "x \<le> y"
  shows "toFixed_num n x \<le> toFixed_num n y"
proof -
  from assms have "x * 10 ^ n + 1 / 2 \<le> y * 10 ^ n + 1 / 2" by simp
  then have "toFixed_int n x \<le> toFixed_int n y"
    using assms by (simp add: toFixed_int_def floor_mono)
  then have "of_int (toFixed_int n x) / 10 ^ n \<le> (of_int (toFixed_int n y) :: real) / 10 ^ n"
    by (simp add: divide_right_mono)
  with assms show ?thesis by (simp add: toFixed_num_def)
qed

section \<open>Reading a decimal string back\<close>

text \<open>
  \<open>parse_nat\<close> reads the digits that \<open>nat_toString\<close> writes; the round trip makes
  \<open>nat_toString\<close> injective, which is what keeps generated identifiers apart.
\<close>

definition digit_val :: "char \<Rightarrow> nat" where
  "digit_val c = of_char c - 48"

definition parse_nat :: "string \<Rightarrow> nat" where
  "parse_nat s = foldl (\<lambda>acc c. 10 * acc + digit_val c) 0 s"

lemma digit_val_digit_char [simp]: "digit_val (digit_char n) = n mod 10"
proof -
  have "n mod 10 \<in> {0,1,2,3,4,5,6,7,8,9}" by (simp add: insert_iff) presburger
  then show ?thesis by (auto simp: digit_val_def digit_char_def)
qed

lemma parse_nat_snoc [simp]: "parse_nat (s @ [c]) = 10 * parse_nat s + digit_val c"
  by (simp add: parse_nat_def)

lemma parse_nat_toString [simp]: "parse_nat (nat_toString n) = n"
proof (induction n rule: nat_toString.induct)
  case (1 n)
  show ?case
  proof (cases "n < 10")
    case True
    then show ?thesis by (simp add: parse_nat_def)
  next
    case False
    with "1.IH" show ?thesis by (simp add: nat_toString_large)
  qed
qed

lemma nat_toString_inject [simp]: "nat_toString m = nat_toString n \<longleftrightarrow> m = n"
  by (metis parse_nat_toString)

lemma is_digit_nat_toString: "c \<in> set (nat_toString n) \<Longrightarrow> c \<in> set ''0123456789''"
proof (induction n rule: nat_toString.induct)
  case (1 n)
  have d: "digit_char k \<in> set ''0123456789''" for k
  proof -
    have "k mod 10 < length ''0123456789''" by simp
    then show ?thesis unfolding digit_char_def by (rule nth_mem)
  qed
  show ?case
  proof (cases "n < 10")
    case True
    with "1.prems" d [of n] show ?thesis by simp
  next
    case False
    with "1.prems" "1.IH" d [of n] show ?thesis by (auto simp: nat_toString_large)
  qed
qed

lemma digit_val_zero [simp]: "digit_val CHR ''0'' = 0"
  by (simp add: digit_val_def)

lemma parse_nat_Nil [simp]: "parse_nat [] = 0"
  by (simp add: parse_nat_def)

lemma parse_nat_zero_Cons [simp]: "parse_nat (CHR ''0'' # s) = parse_nat s"
  by (simp add: parse_nat_def)

lemma parse_nat_zeros [simp]: "parse_nat (replicate k CHR ''0'' @ s) = parse_nat s"
  by (induction k) simp_all

lemma parse_nat_padStart [simp]: "parse_nat (padStart n CHR ''0'' s) = parse_nat s"
  by (simp add: padStart_def)

lemma length_nat_toString_le:
  "n < 10 ^ k \<Longrightarrow> 0 < k \<Longrightarrow> length (nat_toString n) \<le> k"
proof (induction n arbitrary: k rule: nat_toString.induct)
  case (1 n)
  show ?case
  proof (cases "n < 10")
    case True
    with "1.prems" show ?thesis by simp
  next
    case False
    from "1.prems" obtain j where j: "k = Suc j" by (cases k) simp_all
    have "0 < j"
    proof (rule ccontr)
      assume "\<not> 0 < j"
      with j "1.prems" False show False by simp
    qed
    with j have k: "k = Suc j" "0 < j" by simp_all
    with "1.prems" have "n div 10 < 10 ^ j" by (simp add: less_mult_imp_div_less mult.commute)
    with "1.IH" [OF False this k(2)] False k show ?thesis by (simp add: nat_toString_large)
  qed
qed

lemma length_padStart_nat:
  "n < 10 ^ k \<Longrightarrow> 0 < k \<Longrightarrow> length (padStart k c (nat_toString n)) = k"
  using length_nat_toString_le [of n k] by (simp add: max_def)

lemma floor_js_rem_60:
  assumes "0 \<le> t"
  shows "\<lfloor>js_rem t 60\<rfloor> = \<lfloor>t\<rfloor> mod 60"
proof -
  have "\<lfloor>t / 60\<rfloor> = \<lfloor>t\<rfloor> div 60"
    using floor_divide_real_eq_div [of 60 t] by simp
  moreover have "\<lfloor>t - 60 * of_int (\<lfloor>t\<rfloor> div 60)\<rfloor> = \<lfloor>t\<rfloor> - 60 * (\<lfloor>t\<rfloor> div 60)"
    using floor_diff_of_int [of t "60 * (\<lfloor>t\<rfloor> div 60)"] by simp
  ultimately show ?thesis using assms
    by (simp add: js_rem_def js_trunc_def minus_mult_div_eq_mod)
qed

section \<open>Array indexing\<close>

text \<open>An index outside the array reads \<open>undefined\<close>, here \<open>None\<close>.\<close>

definition js_index :: "'a list \<Rightarrow> int \<Rightarrow> 'a option" where
  "js_index xs i = (if 0 \<le> i \<and> nat i < length xs then Some (xs ! nat i) else None)"

lemma js_index_Some: "0 \<le> i \<Longrightarrow> nat i < length xs \<Longrightarrow> js_index xs i = Some (xs ! nat i)"
  by (simp add: js_index_def)

lemma js_index_scaled:
  fixes r :: real
  assumes "0 \<le> r" and "r < 1" and "xs \<noteq> []"
  shows "\<exists>x\<in>set xs. js_index xs \<lfloor>r * real (length xs)\<rfloor> = Some x"
proof -
  from assms have "r * real (length xs) < real (length xs)" by simp
  then have "\<lfloor>r * real (length xs)\<rfloor> < int (length xs)" by (simp add: floor_less_iff)
  moreover from assms have "0 \<le> \<lfloor>r * real (length xs)\<rfloor>" by simp
  ultimately have "nat \<lfloor>r * real (length xs)\<rfloor> < length xs"
    and "0 \<le> \<lfloor>r * real (length xs)\<rfloor>" by linarith+
  then show ?thesis by (simp add: js_index_def)
qed

section \<open>Strings: \<open>trim\<close> and \<open>startsWith\<close>\<close>

text \<open>
  \<open>String.prototype.trim\<close> removes white space at both ends. Of the code points that
  JavaScript counts as white space, those below 256 are listed (a \<^typ>\<open>char\<close> has eight
  bits). \<open>trimmed\<close> characterises the non-empty results of \<open>trim\<close>.
\<close>

definition is_whitespace :: "char \<Rightarrow> bool" where
  "is_whitespace c \<longleftrightarrow> c \<in> set [CHR 0x09, CHR 0x0A, CHR 0x0B, CHR 0x0C, CHR 0x0D, CHR 0x20, CHR 0xA0]"

definition trimEnd :: "string \<Rightarrow> string" where
  "trimEnd s = rev (dropWhile is_whitespace (rev s))"

definition trim :: "string \<Rightarrow> string" where
  "trim s = trimEnd (dropWhile is_whitespace s)"

definition startsWith :: "string \<Rightarrow> string \<Rightarrow> bool" where
  "startsWith s p \<longleftrightarrow> take (length p) s = p"

definition trimmed :: "string \<Rightarrow> bool" where
  "trimmed s \<longleftrightarrow> s \<noteq> [] \<and> \<not> is_whitespace (hd s) \<and> \<not> is_whitespace (last s)"

lemma trimEnd_decomp: "\<exists>w. s = trimEnd s @ w \<and> (\<forall>c\<in>set w. is_whitespace c)"
proof -
  have "rev s = takeWhile is_whitespace (rev s) @ dropWhile is_whitespace (rev s)" by simp
  then have "s = trimEnd s @ rev (takeWhile is_whitespace (rev s))"
    unfolding trimEnd_def by (metis rev_append rev_rev_ident)
  moreover have "\<forall>c\<in>set (rev (takeWhile is_whitespace (rev s))). is_whitespace c"
    by (auto dest: set_takeWhileD)
  ultimately show ?thesis by blast
qed

lemma trimEnd_last: "trimEnd s \<noteq> [] \<Longrightarrow> \<not> is_whitespace (last (trimEnd s))"
  unfolding trimEnd_def using hd_dropWhile [of is_whitespace "rev s"]
  by (simp add: last_rev)

lemma trimEnd_hd: "trimEnd s \<noteq> [] \<Longrightarrow> hd (trimEnd s) = hd s"
  using trimEnd_decomp [of s] by (metis hd_append2)

lemma trimEnd_Nil [simp]: "trimEnd [] = []"
  by (simp add: trimEnd_def)

lemma trimEnd_id: "s \<noteq> [] \<Longrightarrow> \<not> is_whitespace (last s) \<Longrightarrow> trimEnd s = s"
proof -
  assume "s \<noteq> []" and "\<not> is_whitespace (last s)"
  then have "dropWhile is_whitespace (rev s) = rev s"
    by (simp add: dropWhile_eq_self_iff hd_rev)
  then show ?thesis by (simp add: trimEnd_def)
qed

lemma trim_trimmed: "trim s \<noteq> [] \<Longrightarrow> trimmed (trim s)"
proof -
  define t where "t = dropWhile is_whitespace s"
  assume ne: "trim s \<noteq> []"
  then have ne': "trimEnd t \<noteq> []" by (simp add: trim_def t_def)
  then have "t \<noteq> []" by auto
  then have "\<not> is_whitespace (hd t)" unfolding t_def by (rule hd_dropWhile)
  with ne' trimEnd_hd [of t] trimEnd_last [of t] show ?thesis
    by (simp add: trimmed_def trim_def t_def)
qed

lemma trim_id: "trimmed s \<Longrightarrow> trim s = s"
proof -
  assume t: "trimmed s"
  then have "dropWhile is_whitespace s = s" by (simp add: trimmed_def dropWhile_eq_self_iff)
  with t show ?thesis by (simp add: trim_def trimmed_def trimEnd_id)
qed

lemma trim_Nil [simp]: "trim [] = []"
  by (simp add: trim_def)

lemma trim_idem [simp]: "trim (trim s) = trim s"
  by (cases "trim s = []") (simp_all add: trim_trimmed trim_id)

lemma trim_empty_iff: "trim s = [] \<longleftrightarrow> (\<forall>c\<in>set s. is_whitespace c)"
proof
  define t where "t = dropWhile is_whitespace s"
  assume "trim s = []"
  then have all: "\<forall>c\<in>set t. is_whitespace c" by (simp add: trim_def trimEnd_def t_def)
  have "t = []"
  proof (rule ccontr)
    assume ne: "t \<noteq> []"
    then have "\<not> is_whitespace (hd t)" unfolding t_def by (rule hd_dropWhile)
    with all ne show False by simp
  qed
  then show "\<forall>c\<in>set s. is_whitespace c" by (simp add: t_def)
next
  assume "\<forall>c\<in>set s. is_whitespace c"
  then have "dropWhile is_whitespace s = []" by simp
  then show "trim s = []" by (simp only: trim_def trimEnd_Nil)
qed

lemma startsWith_append [simp]: "startsWith (p @ s) p"
  by (simp add: startsWith_def)

lemma startsWith_iff: "startsWith s p \<longleftrightarrow> (\<exists>r. s = p @ r)"
  by (metis append_eq_conv_conj startsWith_def)

definition toUpperCase_char :: "char \<Rightarrow> char" where
  "toUpperCase_char c =
     (if 97 \<le> (of_char c :: nat) \<and> (of_char c :: nat) \<le> 122 then char_of (of_char c - 32 :: nat) else c)"

definition toUpperCase :: "string \<Rightarrow> string" where
  "toUpperCase s = map toUpperCase_char s"

lemma length_toUpperCase [simp]: "length (toUpperCase s) = length s"
  by (simp add: toUpperCase_def)

section \<open>Clamping\<close>

lemma clamp_lower [simp]: "lo \<le> hi \<Longrightarrow> lo \<le> clamp lo hi x"
  by (simp add: clamp_def)

lemma clamp_upper [simp]: "lo \<le> hi \<Longrightarrow> clamp lo hi x \<le> hi"
  by (simp add: clamp_def)

lemma clamp_id [simp]: "lo \<le> x \<Longrightarrow> x \<le> hi \<Longrightarrow> clamp lo hi x = x"
  by (simp add: clamp_def)

lemma clamp_idem [simp]: "lo \<le> hi \<Longrightarrow> clamp lo hi (clamp lo hi x) = clamp lo hi x"
  by (simp add: clamp_def)

lemma clamp_mono: "x \<le> y \<Longrightarrow> clamp lo hi x \<le> clamp lo hi y"
  by (auto simp: clamp_def max_def min_def)

lemma clamp_degenerate [simp]: "clamp 0 0 x = 0"
  by (simp add: clamp_def max_def min_def)

lemma fraction_scale_bounds:
  fixes q d :: real
  assumes "0 \<le> q" and "q \<le> 1" and "0 \<le> d"
  shows "0 \<le> q * d" and "q * d \<le> d"
  using assms by (simp_all add: mult_left_le_one_le)

section \<open>Lists: \<open>find\<close>, \<open>map\<close>, \<open>reduce\<close>\<close>

lemma find_SomeD: "find P xs = Some x \<Longrightarrow> P x \<and> x \<in> set xs"
  by (induction xs) (auto split: if_splits)

lemma find_Some_split:
  "find P xs = Some x \<longleftrightarrow> (\<exists>ys zs. xs = ys @ x # zs \<and> P x \<and> (\<forall>y\<in>set ys. \<not> P y))"
proof (induction xs)
  case Nil
  show ?case by simp
next
  case (Cons a xs)
  show ?case
  proof (cases "P a")
    case True
    have "(\<exists>ys zs. a # xs = ys @ x # zs \<and> P x \<and> (\<forall>y\<in>set ys. \<not> P y)) \<longleftrightarrow> a = x"
    proof
      assume "\<exists>ys zs. a # xs = ys @ x # zs \<and> P x \<and> (\<forall>y\<in>set ys. \<not> P y)"
      then obtain ys zs where eq: "a # xs = ys @ x # zs" and no: "\<forall>y\<in>set ys. \<not> P y"
        by blast
      with True show "a = x" by (cases ys) auto
    next
      assume "a = x"
      with True have "a # xs = [] @ x # xs \<and> P x \<and> (\<forall>y\<in>set []. \<not> P y)" by simp
      then show "\<exists>ys zs. a # xs = ys @ x # zs \<and> P x \<and> (\<forall>y\<in>set ys. \<not> P y)" by blast
    qed
    with True show ?thesis by auto
  next
    case False
    have "(\<exists>ys zs. a # xs = ys @ x # zs \<and> P x \<and> (\<forall>y\<in>set ys. \<not> P y))
      \<longleftrightarrow> (\<exists>ys zs. xs = ys @ x # zs \<and> P x \<and> (\<forall>y\<in>set ys. \<not> P y))"
    proof
      assume "\<exists>ys zs. a # xs = ys @ x # zs \<and> P x \<and> (\<forall>y\<in>set ys. \<not> P y)"
      then obtain ys zs where eq: "a # xs = ys @ x # zs" and px: "P x"
        and no: "\<forall>y\<in>set ys. \<not> P y" by blast
      from eq px False obtain ys' where "ys = a # ys'" by (cases ys) auto
      with eq no px show "\<exists>ys zs. xs = ys @ x # zs \<and> P x \<and> (\<forall>y\<in>set ys. \<not> P y)"
        by auto
    next
      assume "\<exists>ys zs. xs = ys @ x # zs \<and> P x \<and> (\<forall>y\<in>set ys. \<not> P y)"
      then obtain ys zs where "xs = ys @ x # zs" "P x" "\<forall>y\<in>set ys. \<not> P y" by blast
      with False have "a # xs = (a # ys) @ x # zs \<and> P x \<and> (\<forall>y\<in>set (a # ys). \<not> P y)"
        by simp
      then show "\<exists>ys zs. a # xs = ys @ x # zs \<and> P x \<and> (\<forall>y\<in>set ys. \<not> P y)" by blast
    qed
    with False Cons.IH show ?thesis by simp
  qed
qed

lemma find_is_Some: "(\<exists>x. find P xs = Some x) \<longleftrightarrow> (\<exists>x\<in>set xs. P x)"
  using find_None_iff [of P xs] by auto

lemma find_filter_hd: "find P xs = (case filter P xs of [] \<Rightarrow> None | x # _ \<Rightarrow> Some x)"
  by (induction xs) auto

lemma find_fresh_snoc:
  "\<forall>x\<in>set xs. \<not> P x \<Longrightarrow> P y \<Longrightarrow> find P (xs @ [y]) = Some y"
  by (induction xs) simp_all

lemma find_snoc_present: "find P xs = Some x \<Longrightarrow> find P (xs @ ys) = Some x"
  by (induction xs) (auto split: if_splits)

lemma foldl_add_sum_list:
  fixes z :: "'a::comm_monoid_add"
  shows "foldl (\<lambda>acc x. acc + f x) z xs = z + sum_list (map f xs)"
  by (induction xs arbitrary: z) (simp_all add: add.assoc)

lemma sum_list_map_nonneg:
  fixes f :: "'a \<Rightarrow> real"
  shows "(\<And>x. x \<in> set xs \<Longrightarrow> 0 \<le> f x) \<Longrightarrow> 0 \<le> sum_list (map f xs)"
  by (induction xs) auto

lemma sum_list_filter_le:
  fixes f :: "'a \<Rightarrow> real"
  shows "(\<And>x. x \<in> set xs \<Longrightarrow> 0 \<le> f x)
    \<Longrightarrow> sum_list (map f (filter P xs)) \<le> sum_list (map f xs)"
  by (induction xs) (auto intro: add_increasing)

lemma remove_index_enumerate:
  "map snd (filter (\<lambda>(j, _). j \<noteq> i) (enumerate n xs)) =
     (if i < n then xs else take (i - n) xs @ drop (Suc (i - n)) xs)"
proof (induction xs arbitrary: n)
  case Nil
  show ?case by simp
next
  case (Cons x xs)
  show ?case
  proof (cases "i \<le> n")
    case True
    with Cons [of "Suc n"] show ?thesis by (cases "i = n") simp_all
  next
    case False
    then obtain m where m: "i - n = Suc m" by (cases "i - n") simp_all
    then have "i - Suc n = m" by simp
    with Cons [of "Suc n"] False m show ?thesis by simp
  qed
qed

lemma remove_index_conv:
  "map snd (filter (\<lambda>(j, _). j \<noteq> i) (enumerate 0 xs)) = take i xs @ drop (Suc i) xs"
  by (simp add: remove_index_enumerate)

section \<open>Random draws\<close>

text \<open>
  \<open>Math.random()\<close> is an argument of the model: a sequence of draws, read at a running
  index. \<open>unit_rng\<close> says that every draw is in \<open>[0, 1)\<close>, as the language guarantees;
  \<open>half_rng\<close> is the sequence that always draws one half, used for the examples.
\<close>

type_synonym rng = "nat \<Rightarrow> real"

definition unit_rng :: "rng \<Rightarrow> bool" where
  "unit_rng rnd \<longleftrightarrow> (\<forall>k. 0 \<le> rnd k \<and> rnd k < 1)"

definition half_rng :: rng where
  "half_rng = (\<lambda>k. 1 / 2)"

lemma unit_rngD: "unit_rng rnd \<Longrightarrow> 0 \<le> rnd k \<and> rnd k < 1"
  by (simp add: unit_rng_def)

lemma unit_half_rng [simp]: "unit_rng half_rng"
  by (simp add: unit_rng_def half_rng_def)

section \<open>Iterating a jump that a measure bounds\<close>

text \<open>
  The players force the position forward until no rule applies. \<open>settle_step jump\<close> is one
  such step; when every jump decreases a measure, at most that many steps reach a point
  where no jump applies.
\<close>

definition settle_step :: "('a \<Rightarrow> 'a option) \<Rightarrow> 'a \<Rightarrow> 'a" where
  "settle_step jump x = (case jump x of None \<Rightarrow> x | Some y \<Rightarrow> y)"

lemma settle_step_simps [simp]:
  "jump x = None \<Longrightarrow> settle_step jump x = x"
  "jump x = Some y \<Longrightarrow> settle_step jump x = y"
  by (simp_all add: settle_step_def)

lemma iterate_settles:
  fixes m :: "'a \<Rightarrow> nat"
  assumes "\<And>x y. jump x = Some y \<Longrightarrow> m y < m x"
  shows "\<exists>n\<le>m x. jump ((settle_step jump ^^ n) x) = None"
proof (induction "m x" arbitrary: x rule: less_induct)
  case less
  show ?case
  proof (cases "jump x")
    case None
    then have "jump ((settle_step jump ^^ 0) x) = None" by simp
    then show ?thesis by blast
  next
    case (Some y)
    from assms [OF Some] less [of y] obtain n
      where n: "n \<le> m y" "jump ((settle_step jump ^^ n) y) = None" by blast
    from Some n(2) have "jump ((settle_step jump ^^ Suc n) x) = None"
      by (simp add: funpow_swap1)
    moreover from n(1) assms [OF Some] have "Suc n \<le> m x" by simp
    ultimately show ?thesis by blast
  qed
qed

end
