(* ===== verification/CC_Types.thy ===== *)
theory CC_Types
  imports CC_Prelude
begin

text \<open>
  The data model of \<^verbatim>\<open>src/types.ts\<close>: one \<^theory_text>\<open>datatype\<close> per string-literal union, one
  \<^theory_text>\<open>record\<close> per interface. Field names that clash with Isabelle keywords or HOL
  constants carry a prefix (\<open>id\<close> is \<open>cut_id\<close>, \<open>type\<close> is \<open>cut_type\<close>, \<open>end\<close> is \<open>cut_end\<close>);
  the optional field \<open>word?\<close> is an \<open>option\<close>. The interfaces put no constraint on the
  numbers they hold; \<open>wf_cut\<close> states the constraints the comments and the specification
  give (\<open>0 \<le> start < end\<close>, confidence in \<open>[0, 1]\<close>), and the lemmas say which results need
  them.
\<close>

section \<open>Enumerations\<close>

datatype Phase = upload | analyzing | review | processing | completed

datatype CutType = cliche | filler | silence | repetition | stutter

datatype OutputFormat = mp4 | mov | avi | mkv

datatype OutputQuality = original | q4k | q1080p | q720p | q480p

datatype CutStatus = accepted | rejected

text \<open>The string values of the two output unions, as the markup prints them.\<close>

fun OutputFormat_string :: "OutputFormat \<Rightarrow> string" where
  "OutputFormat_string mp4 = ''mp4''"
| "OutputFormat_string mov = ''mov''"
| "OutputFormat_string avi = ''avi''"
| "OutputFormat_string mkv = ''mkv''"

fun OutputQuality_string :: "OutputQuality \<Rightarrow> string" where
  "OutputQuality_string original = ''original''"
| "OutputQuality_string q4k = ''4k''"
| "OutputQuality_string q1080p = ''1080p''"
| "OutputQuality_string q720p = ''720p''"
| "OutputQuality_string q480p = ''480p''"

section \<open>Records\<close>

record CutEvent =
  cut_id :: string
  cut_type :: CutType
  word :: "string option"
  start :: seconds
  cut_end :: seconds
  confidence :: real
  status :: CutStatus

record VideoConfig =
  removeCliches :: bool
  removeFillers :: bool
  removeSilence :: bool
  removeRepetition :: bool
  removeStuttering :: bool
  silenceThreshold :: real
  customPhrases :: "string list"
  outputFormat :: OutputFormat
  outputQuality :: OutputQuality

record PhraseList =
  list_id :: string
  list_name :: string
  phrases :: "string list"

record ProcessingMetrics =
  originalDuration :: seconds
  finalDuration :: seconds
  cutsCount :: nat
  timeSaved :: seconds

section \<open>Derived notions\<close>

definition cut_length :: "CutEvent \<Rightarrow> seconds" where
  "cut_length c = cut_end c - start c"

definition is_accepted :: "CutEvent \<Rightarrow> bool" where
  "is_accepted c \<longleftrightarrow> status c = accepted"

definition wf_cut :: "CutEvent \<Rightarrow> bool" where
  "wf_cut c \<longleftrightarrow> 0 \<le> start c \<and> start c < cut_end c \<and> 0 \<le> confidence c \<and> confidence c \<le> 1"

definition wf_cuts :: "CutEvent list \<Rightarrow> bool" where
  "wf_cuts cs \<longleftrightarrow> list_all wf_cut cs \<and> distinct (map cut_id cs)"

lemmas cut_defs [cc_defs] = cut_length_def is_accepted_def wf_cut_def

lemma is_accepted_fun: "is_accepted = (\<lambda>c. status c = accepted)"
  by (rule ext) (simp add: is_accepted_def)

lemma cut_length_fun: "cut_length = (\<lambda>c. cut_end c - start c)"
  by (rule ext) (simp add: cut_length_def)

lemma wf_cut_length_pos: "wf_cut c \<Longrightarrow> 0 < cut_length c"
  by (simp add: wf_cut_def cut_length_def)

lemma wf_cuts_Nil [simp]: "wf_cuts []"
  by (simp add: wf_cuts_def)

lemma wf_cuts_Cons [simp]:
  "wf_cuts (c # cs) \<longleftrightarrow> wf_cut c \<and> cut_id c \<notin> cut_id ` set cs \<and> wf_cuts cs"
  by (auto simp: wf_cuts_def)

lemma wf_cutsD: "wf_cuts cs \<Longrightarrow> c \<in> set cs \<Longrightarrow> wf_cut c"
  by (simp add: wf_cuts_def list_all_iff)

lemma wf_cuts_unique_id:
  "wf_cuts cs \<Longrightarrow> c \<in> set cs \<Longrightarrow> c' \<in> set cs \<Longrightarrow> cut_id c = cut_id c' \<Longrightarrow> c = c'"
  by (auto simp: wf_cuts_def dest: inj_on_eq_iff [OF distinct_map [THEN iffD1, THEN conjunct2]])

lemma is_accepted_status_update [simp]:
  "is_accepted (c\<lparr>status := st\<rparr>) \<longleftrightarrow> st = accepted"
  by (simp add: is_accepted_def)

lemma cut_length_status_update [simp]: "cut_length (c\<lparr>status := st\<rparr>) = cut_length c"
  by (simp add: cut_length_def)

lemma wf_cut_status_update [simp]: "wf_cut (c\<lparr>status := st\<rparr>) \<longleftrightarrow> wf_cut c"
  by (simp add: wf_cut_def)

end
