(* ===== verification/Skip_Policy.thy ===== *)
theory Skip_Policy
  imports CC_Types
begin

text \<open>
  The skip policy of the review player (\<^verbatim>\<open>src/components/ReviewPhase.tsx\<close>, the body of
  \<open>checkTime\<close> and of \<open>handleScrubMove\<close>): the four \<open>cuts.find(...)\<close> queries, each as
  \<^const>\<open>List.find\<close> with the source's predicate, and the position one tick forces
  (\<open>skip_jump\<close>). \<open>skip_settle\<close> iterates the jump as successive ticks do while the media
  clock stands still; its termination proof is the convergence argument: every jump
  leaves the interval it was in for good. \<open>evaluate\<close> is the latest-end selection the
  specification recommends instead of the source's first match; \<open>settled_at\<close> is the
  property both reach.
\<close>

section \<open>The queries of the frame tick\<close>

definition contains :: "seconds \<Rightarrow> CutEvent \<Rightarrow> bool" where
  "contains t c \<longleftrightarrow> start c \<le> t \<and> t < cut_end c"

definition currentCut :: "CutEvent list \<Rightarrow> seconds \<Rightarrow> CutEvent option" where
  "currentCut cs t = find (\<lambda>c. status c = accepted \<and> t \<ge> start c \<and> t < cut_end c) cs"

definition upcomingCut :: "CutEvent list \<Rightarrow> seconds \<Rightarrow> CutEvent option" where
  "upcomingCut cs t = find (\<lambda>c. \<bar>start c - t\<bar> < 2) cs"

definition currentPreviewCut :: "CutEvent list \<Rightarrow> seconds \<Rightarrow> CutEvent option" where
  "currentPreviewCut cs t = find (\<lambda>c. t \<ge> start c - 1.5 \<and> t \<le> cut_end c + 1.5) cs"

definition cutAtTime :: "CutEvent list \<Rightarrow> seconds \<Rightarrow> CutEvent option" where
  "cutAtTime cs t = find (\<lambda>c. t \<ge> start c \<and> t < cut_end c) cs"

definition skip_jump :: "CutEvent list \<Rightarrow> seconds \<Rightarrow> seconds" where
  "skip_jump cs t = (case currentCut cs t of None \<Rightarrow> t | Some c \<Rightarrow> cut_end c)"

definition covered :: "CutEvent list \<Rightarrow> seconds \<Rightarrow> bool" where
  "covered cs t \<longleftrightarrow> list_ex (\<lambda>c. is_accepted c \<and> contains t c) cs"

lemmas skip_defs [cc_defs] =
  contains_def currentCut_def upcomingCut_def currentPreviewCut_def cutAtTime_def

section \<open>What \<open>currentCut\<close> returns\<close>

lemma currentCut_SomeD:
  "currentCut cs t = Some c \<Longrightarrow> c \<in> set cs \<and> is_accepted c \<and> contains t c"
  by (auto simp: currentCut_def is_accepted_def contains_def dest: find_SomeD)

lemma currentCut_None_iff: "currentCut cs t = None \<longleftrightarrow> \<not> covered cs t"
  by (auto simp: currentCut_def covered_def is_accepted_def contains_def find_None_iff
      list_ex_iff)

lemma currentCut_Some_iff:
  "currentCut cs t = Some c \<longleftrightarrow>
     (\<exists>ys zs. cs = ys @ c # zs \<and> is_accepted c \<and> contains t c
        \<and> (\<forall>y\<in>set ys. \<not> (is_accepted y \<and> contains t y)))"
  by (simp add: currentCut_def find_Some_split is_accepted_def contains_def conj_ac)

lemma currentCut_Cons:
  "currentCut (c # cs) t =
     (if is_accepted c \<and> contains t c then Some c else currentCut cs t)"
  by (simp add: currentCut_def is_accepted_def contains_def conj_ac)

lemma covered_Nil [simp]: "\<not> covered [] t"
  by (simp add: covered_def)

lemma covered_Cons [simp]:
  "covered (c # cs) t \<longleftrightarrow> is_accepted c \<and> contains t c \<or> covered cs t"
  by (simp add: covered_def)

lemma covered_iff: "covered cs t \<longleftrightarrow> (\<exists>c\<in>set cs. is_accepted c \<and> contains t c)"
  by (simp add: covered_def list_ex_iff)

lemma cutAtTime_SomeD: "cutAtTime cs t = Some c \<Longrightarrow> c \<in> set cs \<and> contains t c"
  by (auto simp: cutAtTime_def contains_def dest: find_SomeD)

lemma upcomingCut_SomeD: "upcomingCut cs t = Some c \<Longrightarrow> c \<in> set cs \<and> \<bar>start c - t\<bar> < 2"
  by (auto simp: upcomingCut_def dest: find_SomeD)

lemma currentPreviewCut_SomeD:
  "currentPreviewCut cs t = Some c \<Longrightarrow> c \<in> set cs \<and> start c - 1.5 \<le> t \<and> t \<le> cut_end c + 1.5"
  by (auto simp: currentPreviewCut_def dest: find_SomeD)

section \<open>One jump\<close>

lemma skip_jump_None [simp]: "currentCut cs t = None \<Longrightarrow> skip_jump cs t = t"
  by (simp add: skip_jump_def)

lemma skip_jump_Some [simp]: "currentCut cs t = Some c \<Longrightarrow> skip_jump cs t = cut_end c"
  by (simp add: skip_jump_def)

lemma skip_jump_ge: "t \<le> skip_jump cs t"
  by (cases "currentCut cs t") (auto dest: currentCut_SomeD simp: contains_def)

lemma skip_jump_gt: "covered cs t \<Longrightarrow> t < skip_jump cs t"
  by (cases "currentCut cs t") (auto dest: currentCut_SomeD simp: contains_def currentCut_None_iff)

lemma skip_jump_fixed_iff: "skip_jump cs t = t \<longleftrightarrow> \<not> covered cs t"
proof
  assume "skip_jump cs t = t"
  with skip_jump_gt [of cs t] show "\<not> covered cs t" by auto
next
  assume "\<not> covered cs t"
  then show "skip_jump cs t = t" by (simp add: currentCut_None_iff)
qed

lemma skip_jump_covers:
  assumes "t \<le> u" and "u < skip_jump cs t"
  shows "covered cs u"
proof (cases "currentCut cs t")
  case None
  with assms show ?thesis by simp
next
  case (Some c)
  from currentCut_SomeD [OF Some] assms Some
  have "c \<in> set cs" "is_accepted c" "contains u c"
    by (auto simp: contains_def)
  then show ?thesis by (auto simp: covered_iff)
qed

section \<open>Iterated jumps: convergence\<close>

text \<open>
  \<open>pending cs t\<close> counts the accepted intervals that end after \<open>t\<close>. A jump out of an
  interval drops at least that interval from the count, whatever the order and overlap of
  the list: this is the measure of \<open>skip_settle\<close> and the bound on the number of jumps.
\<close>

definition pending :: "CutEvent list \<Rightarrow> seconds \<Rightarrow> nat" where
  "pending cs t = length (filter (\<lambda>c. is_accepted c \<and> t < cut_end c) cs)"

lemma pending_le_accepted: "pending cs t \<le> length (filter is_accepted cs)"
proof -
  have "filter (\<lambda>c. is_accepted c \<and> t < cut_end c) cs
      = filter (\<lambda>c. t < cut_end c) (filter is_accepted cs)"
    by (simp add: conj_commute)
  then show ?thesis by (simp add: pending_def del: filter_filter)
qed

lemma pending_antimono: "t \<le> u \<Longrightarrow> pending cs u \<le> pending cs t"
proof -
  assume "t \<le> u"
  then have "filter (\<lambda>c. is_accepted c \<and> u < cut_end c) cs
      = filter (\<lambda>c. u < cut_end c) (filter (\<lambda>c. is_accepted c \<and> t < cut_end c) cs)"
    by (auto intro: filter_cong)
  then show ?thesis by (simp add: pending_def del: filter_filter)
qed

lemma pending_less:
  assumes "c \<in> set cs" and "is_accepted c" and "t < cut_end c" and "cut_end c \<le> u"
  shows "pending cs u < pending cs t"
proof -
  let ?P = "\<lambda>c. is_accepted c \<and> t < cut_end c"
  from assms have eq: "filter (\<lambda>c. is_accepted c \<and> u < cut_end c) cs
      = filter (\<lambda>c. u < cut_end c) (filter ?P cs)"
    by (auto intro: filter_cong)
  from assms have "c \<in> set (filter ?P cs)" and "\<not> u < cut_end c" by auto
  then have "length (filter (\<lambda>c. u < cut_end c) (filter ?P cs)) < length (filter ?P cs)"
    by (rule length_filter_less)
  with eq show ?thesis by (simp add: pending_def del: filter_filter)
qed

lemma pending_decreases:
  "currentCut cs t = Some c \<Longrightarrow> pending cs (cut_end c) < pending cs t"
  by (auto dest!: currentCut_SomeD intro: pending_less simp: contains_def)

function skip_settle :: "CutEvent list \<Rightarrow> seconds \<Rightarrow> seconds" where
  "skip_settle cs t =
     (case currentCut cs t of None \<Rightarrow> t | Some c \<Rightarrow> skip_settle cs (cut_end c))"
  by pat_completeness auto
termination
  by (relation "measure (\<lambda>(cs, t). pending cs t)") (auto simp: pending_decreases)

function skip_count :: "CutEvent list \<Rightarrow> seconds \<Rightarrow> nat" where
  "skip_count cs t =
     (case currentCut cs t of None \<Rightarrow> 0 | Some c \<Rightarrow> Suc (skip_count cs (cut_end c)))"
  by pat_completeness auto
termination
  by (relation "measure (\<lambda>(cs, t). pending cs t)") (auto simp: pending_decreases)

declare skip_settle.simps [simp del] skip_count.simps [simp del]

lemma skip_settle_None [simp]: "currentCut cs t = None \<Longrightarrow> skip_settle cs t = t"
  by (subst skip_settle.simps) simp

lemma skip_settle_Some [simp]:
  "currentCut cs t = Some c \<Longrightarrow> skip_settle cs t = skip_settle cs (cut_end c)"
  by (subst skip_settle.simps) simp

lemma skip_count_None [simp]: "currentCut cs t = None \<Longrightarrow> skip_count cs t = 0"
  by (subst skip_count.simps) simp

lemma skip_count_Some [simp]:
  "currentCut cs t = Some c \<Longrightarrow> skip_count cs t = Suc (skip_count cs (cut_end c))"
  by (subst skip_count.simps) simp

lemma skip_settle_unfold: "skip_settle cs t = skip_settle cs (skip_jump cs t)"
  by (cases "currentCut cs t") simp_all

lemma skip_count_le_pending: "skip_count cs t \<le> pending cs t"
proof (induction cs t rule: skip_count.induct)
  case (1 cs t)
  show ?case
  proof (cases "currentCut cs t")
    case None
    then show ?thesis by simp
  next
    case (Some c)
    with "1.IH" have "skip_count cs (cut_end c) \<le> pending cs (cut_end c)" by simp
    with pending_decreases [OF Some] Some show ?thesis by simp
  qed
qed

lemma skip_settle_funpow: "skip_settle cs t = (skip_jump cs ^^ skip_count cs t) t"
proof (induction cs t rule: skip_settle.induct)
  case (1 cs t)
  show ?case
  proof (cases "currentCut cs t")
    case None
    then show ?thesis by simp
  next
    case (Some c)
    with "1.IH" show ?thesis by (simp add: funpow_swap1)
  qed
qed

section \<open>The settled position\<close>

text \<open>
  \<open>settled_at cs t p\<close>: \<open>p\<close> is the first position from \<open>t\<close> on that no accepted interval
  contains. It does not mention any selection rule, and at most one \<open>p\<close> satisfies it.
\<close>

definition settled_at :: "CutEvent list \<Rightarrow> seconds \<Rightarrow> seconds \<Rightarrow> bool" where
  "settled_at cs t p \<longleftrightarrow>
     t \<le> p \<and> \<not> covered cs p \<and> (\<forall>u. t \<le> u \<and> u < p \<longrightarrow> covered cs u)"

lemma settled_at_refl: "\<not> covered cs t \<Longrightarrow> settled_at cs t t"
  by (auto simp: settled_at_def)

lemma settled_at_extend:
  assumes "t \<le> t'" and "\<And>u. t \<le> u \<Longrightarrow> u < t' \<Longrightarrow> covered cs u" and "settled_at cs t' p"
  shows "settled_at cs t p"
  unfolding settled_at_def
proof (intro conjI allI impI)
  from assms(1,3) show "t \<le> p" by (simp add: settled_at_def)
  from assms(3) show "\<not> covered cs p" by (simp add: settled_at_def)
  fix u assume u: "t \<le> u \<and> u < p"
  show "covered cs u"
  proof (cases "u < t'")
    case True
    with u assms(2) show ?thesis by simp
  next
    case False
    with u assms(3) show ?thesis by (simp add: settled_at_def)
  qed
qed

lemma settled_at_unique:
  assumes "settled_at cs t p" and "settled_at cs t q"
  shows "p = q"
proof (rule ccontr)
  assume "p \<noteq> q"
  then consider "p < q" | "q < p" by linarith
  then show False
  proof cases
    case 1
    with assms show False unfolding settled_at_def by blast
  next
    case 2
    with assms show False unfolding settled_at_def by blast
  qed
qed

lemma skip_settle_settled: "settled_at cs t (skip_settle cs t)"
proof (induction cs t rule: skip_settle.induct)
  case (1 cs t)
  show ?case
  proof (cases "currentCut cs t")
    case None
    then show ?thesis by (simp add: settled_at_refl currentCut_None_iff [symmetric])
  next
    case (Some c)
    with "1.IH" have "settled_at cs (skip_jump cs t) (skip_settle cs (cut_end c))" by simp
    with skip_jump_ge [of t cs] skip_jump_covers [of t _ cs] Some show ?thesis
      by (auto intro: settled_at_extend)
  qed
qed

section \<open>The latest-end selection of the specification\<close>

text \<open>
  The specification asks the evaluator to select, among the accepted intervals that
  contain the position, the one that ends last. \<open>evaluate\<close> is that rule, \<open>spec_settle\<close>
  its iteration.
\<close>

definition evaluate :: "CutEvent list \<Rightarrow> seconds \<Rightarrow> seconds option" where
  "evaluate cs t =
     (case filter (\<lambda>c. is_accepted c \<and> contains t c) cs of
        [] \<Rightarrow> None
      | c # cs' \<Rightarrow> Some (fold max (map cut_end cs') (cut_end c)))"

definition spec_jump :: "CutEvent list \<Rightarrow> seconds \<Rightarrow> seconds" where
  "spec_jump cs t = (case evaluate cs t of None \<Rightarrow> t | Some e \<Rightarrow> e)"

lemma evaluate_None_iff: "evaluate cs t = None \<longleftrightarrow> \<not> covered cs t"
proof -
  have "evaluate cs t = None \<longleftrightarrow> filter (\<lambda>c. is_accepted c \<and> contains t c) cs = []"
    by (simp add: evaluate_def split: list.splits)
  then show ?thesis by (simp add: covered_iff filter_empty_conv)
qed

lemma evaluate_SomeD:
  assumes "evaluate cs t = Some e"
  shows "\<exists>c\<in>set cs. is_accepted c \<and> contains t c \<and> cut_end c = e"
    and "\<And>c. c \<in> set cs \<Longrightarrow> is_accepted c \<Longrightarrow> contains t c \<Longrightarrow> cut_end c \<le> e"
proof -
  let ?F = "filter (\<lambda>c. is_accepted c \<and> contains t c) cs"
  from assms obtain c cs' where F: "?F = c # cs'"
    and e: "e = fold max (map cut_end cs') (cut_end c)"
    by (auto simp: evaluate_def split: list.splits)
  have "e = Max (set (map cut_end ?F))"
    unfolding e F using Max.set_eq_fold [of "cut_end c" "map cut_end cs'"] by simp
  moreover from F have "set (map cut_end ?F) \<noteq> {}" by simp
  ultimately have mem: "e \<in> set (map cut_end ?F)"
    and ub: "\<And>x. x \<in> set (map cut_end ?F) \<Longrightarrow> x \<le> e"
    using Max_in [of "set (map cut_end ?F)"] by simp_all
  from mem show "\<exists>c\<in>set cs. is_accepted c \<and> contains t c \<and> cut_end c = e" by auto
  fix c' assume "c' \<in> set cs" "is_accepted c'" "contains t c'"
  then have "cut_end c' \<in> set (map cut_end ?F)" by auto
  then show "cut_end c' \<le> e" by (rule ub)
qed

lemma evaluate_pending: "evaluate cs t = Some e \<Longrightarrow> pending cs e < pending cs t"
  by (auto dest!: evaluate_SomeD(1) intro: pending_less simp: contains_def)

function spec_settle :: "CutEvent list \<Rightarrow> seconds \<Rightarrow> seconds" where
  "spec_settle cs t = (case evaluate cs t of None \<Rightarrow> t | Some e \<Rightarrow> spec_settle cs e)"
  by pat_completeness auto
termination
  by (relation "measure (\<lambda>(cs, t). pending cs t)") (auto simp: evaluate_pending)

declare spec_settle.simps [simp del]

lemma spec_settle_None [simp]: "evaluate cs t = None \<Longrightarrow> spec_settle cs t = t"
  by (subst spec_settle.simps) simp

lemma spec_settle_Some [simp]: "evaluate cs t = Some e \<Longrightarrow> spec_settle cs t = spec_settle cs e"
  by (subst spec_settle.simps) simp

lemma spec_settle_settled: "settled_at cs t (spec_settle cs t)"
proof (induction cs t rule: spec_settle.induct)
  case (1 cs t)
  show ?case
  proof (cases "evaluate cs t")
    case None
    then show ?thesis by (simp add: settled_at_refl evaluate_None_iff [symmetric])
  next
    case (Some e)
    from evaluate_SomeD(1) [OF Some] obtain c
      where c: "c \<in> set cs" "is_accepted c" "contains t c" "cut_end c = e" by blast
    then have cov: "covered cs u" if "t \<le> u" "u < e" for u
      using that by (auto simp: covered_iff contains_def)
    from c have "t \<le> e" by (simp add: contains_def)
    moreover from "1.IH" Some have "settled_at cs e (spec_settle cs e)" by simp
    ultimately have "settled_at cs t (spec_settle cs e)"
      using cov by (auto intro: settled_at_extend)
    with Some show ?thesis by simp
  qed
qed

lemma currentCut_filter_accepted: "currentCut (filter is_accepted cs) t = currentCut cs t"
  by (induction cs) (auto simp: currentCut_Cons)

lemma skip_jump_filter_accepted: "skip_jump (filter is_accepted cs) t = skip_jump cs t"
  by (simp add: skip_jump_def currentCut_filter_accepted)

section \<open>Properties\<close>

definition cut_5_8 :: CutEvent where
  "cut_5_8 = \<lparr>cut_id = ''cut-0'', cut_type = filler, word = Some ''Um'', start = 5, cut_end = 8,
     confidence = 0.9, status = accepted\<rparr>"

definition cut_6_12 :: CutEvent where
  "cut_6_12 = \<lparr>cut_id = ''cut-1'', cut_type = silence, word = Some ''(Silence)'', start = 6,
     cut_end = 12, confidence = 0.9, status = accepted\<rparr>"

lemmas example_cuts = cut_5_8_def cut_6_12_def

text \<open>C5: Iterating the skip of \<open>checkTime\<close> from any position reaches, after at most as
  many jumps as there are accepted cuts, a position that no accepted cut contains; the cuts
  may overlap, touch and come in any order.\<close>

theorem skip_converges:
  "\<exists>n\<le>length (filter is_accepted cs). \<not> covered cs ((skip_jump cs ^^ n) t)"
proof -
  have "skip_count cs t \<le> length (filter is_accepted cs)"
    using skip_count_le_pending [of cs t] pending_le_accepted [of cs t] by simp
  moreover have "\<not> covered cs ((skip_jump cs ^^ skip_count cs t) t)"
    using skip_settle_settled [of cs t] by (simp add: settled_at_def skip_settle_funpow)
  ultimately show ?thesis by blast
qed

text \<open>On the overlap example of the specification (accepted cuts \<open>[5, 8)\<close> and
  \<open>[6, 12)\<close>, position 7) one tick of the source jumps to 8, not to 12 as the
  specification's tie-break expects; the position 12 is reached by the second jump.\<close>

lemma overlap_example_first_match:
  "skip_jump [cut_5_8, cut_6_12] 7 = 8
   \<and> spec_jump [cut_5_8, cut_6_12] 7 = 12
   \<and> (skip_jump [cut_5_8, cut_6_12] ^^ 2) 7 = 12
   \<and> skip_settle [cut_5_8, cut_6_12] 7 = 12"
proof -
  let ?cs = "[cut_5_8, cut_6_12]"
  have 1: "currentCut ?cs 7 = Some cut_5_8" and 2: "currentCut ?cs 8 = Some cut_6_12"
    and 3: "currentCut ?cs 12 = None"
    by (simp_all add: currentCut_Cons example_cuts is_accepted_def contains_def currentCut_def)
  have e: "cut_end cut_5_8 = 8" "cut_end cut_6_12 = 12" by (simp_all add: example_cuts)
  have "spec_jump ?cs 7 = 12"
    by (simp add: spec_jump_def evaluate_def example_cuts is_accepted_def contains_def)
  moreover from 1 2 3 e have "skip_settle ?cs 7 = 12" by simp
  moreover from 1 2 e have "skip_jump ?cs 7 = 8" "(skip_jump ?cs ^^ 2) 7 = 12"
    by (simp_all add: numeral_2_eq_2)
  ultimately show ?thesis by simp
qed

lemma skip_settle_spec_settle: "skip_settle cs t = spec_settle cs t"
  using skip_settle_settled spec_settle_settled by (rule settled_at_unique)

text \<open>C4: The first-match selection of the source and the latest-end selection that the
  specification recommends settle at the same position from every start: the first
  position from there on that lies in no accepted cut. A single jump can differ: on the
  overlap example of the specification the source jumps from 7 to 8 where the
  specification expects 12, and reaches 12 with its second jump.\<close>

theorem first_match_agrees_with_latest_end:
  "skip_settle cs t = spec_settle cs t
   \<and> skip_jump [cut_5_8, cut_6_12] 7 = 8 \<and> spec_jump [cut_5_8, cut_6_12] 7 = 12
   \<and> (skip_jump [cut_5_8, cut_6_12] ^^ 2) 7 = 12"
  using skip_settle_spec_settle [of cs t] overlap_example_first_match by simp

text \<open>C20: \<open>currentCut\<close> returns the first cut of the list, in list order, that is accepted
  and contains the position in the half-open sense \<open>start \<le> t < end\<close>; it returns nothing
  exactly when no accepted cut contains the position.\<close>

theorem currentCut_first_match:
  "(currentCut cs t = Some c \<longleftrightarrow>
      (\<exists>ys zs. cs = ys @ c # zs \<and> status c = accepted \<and> start c \<le> t \<and> t < cut_end c
         \<and> (\<forall>y\<in>set ys. \<not> (status y = accepted \<and> start y \<le> t \<and> t < cut_end y))))
   \<and> (currentCut cs t = None \<longleftrightarrow>
      \<not> (\<exists>c\<in>set cs. status c = accepted \<and> start c \<le> t \<and> t < cut_end c))"
proof
  show "currentCut cs t = Some c \<longleftrightarrow>
      (\<exists>ys zs. cs = ys @ c # zs \<and> status c = accepted \<and> start c \<le> t \<and> t < cut_end c
         \<and> (\<forall>y\<in>set ys. \<not> (status y = accepted \<and> start y \<le> t \<and> t < cut_end y)))"
    unfolding currentCut_Some_iff by (simp add: is_accepted_def contains_def)
  have "currentCut cs t = None \<longleftrightarrow> \<not> (\<exists>c\<in>set cs. is_accepted c \<and> contains t c)"
    by (simp add: currentCut_None_iff covered_iff)
  then show "currentCut cs t = None \<longleftrightarrow>
      \<not> (\<exists>c\<in>set cs. status c = accepted \<and> start c \<le> t \<and> t < cut_end c)"
    by (simp add: is_accepted_def contains_def)
qed

theorem currentCut_first_match_witness:
  "currentCut [cut_5_8, cut_6_12] 8 = Some cut_6_12 \<and> currentCut [cut_5_8, cut_6_12] 12 = None"
proof
  show "currentCut [cut_5_8, cut_6_12] 8 = Some cut_6_12"
    by (rule currentCut_first_match [THEN conjunct1, THEN iffD2],
        rule exI [of _ "[cut_5_8]"], rule exI [of _ "[]"], simp add: example_cuts)
  show "currentCut [cut_5_8, cut_6_12] 12 = None"
    by (rule currentCut_first_match [THEN conjunct2, THEN iffD2]) (simp add: example_cuts)
qed

text \<open>A jump is strictly forward and leaves the interval it was in for good: the number
  of accepted cuts that end after the position strictly decreases.\<close>

lemma skip_jump_progress:
  "covered cs t \<Longrightarrow> t < skip_jump cs t \<and> pending cs (skip_jump cs t) < pending cs t"
proof -
  assume "covered cs t"
  then obtain c where c: "currentCut cs t = Some c"
    using currentCut_None_iff [of cs t] by (cases "currentCut cs t") auto
  with pending_decreases [OF c] currentCut_SomeD [OF c] show ?thesis
    by (simp add: contains_def)
qed

lemma skip_jump_progress_example:
  "covered [cut_5_8, cut_6_12] 7 \<and> (7::real) < skip_jump [cut_5_8, cut_6_12] 7
   \<and> pending [cut_5_8, cut_6_12] (skip_jump [cut_5_8, cut_6_12] 7) < pending [cut_5_8, cut_6_12] 7"
proof -
  have h: "covered [cut_5_8, cut_6_12] 7"
    by (simp add: example_cuts is_accepted_def contains_def)
  from h skip_jump_progress [OF h] show ?thesis by simp
qed

text \<open>Rejected cuts never move the position: the jump computed from a list equals the
  jump computed from its accepted cuts alone, and a list without accepted cuts gives no
  jump at all.\<close>

lemma rejected_cuts_never_skip:
  "skip_jump cs t = skip_jump (filter is_accepted cs) t
   \<and> (filter is_accepted cs = [] \<longrightarrow> skip_jump cs t = t)"
proof -
  have "skip_jump [] t = t" by (simp add: skip_jump_def currentCut_def)
  then show ?thesis using skip_jump_filter_accepted [of cs t] by auto
qed

lemma rejected_cuts_never_skip_example:
  "skip_jump [cut_5_8\<lparr>status := rejected\<rparr>] 7 = 7"
  using rejected_cuts_never_skip [of "[cut_5_8\<lparr>status := rejected\<rparr>]" 7]
  by (simp add: is_accepted_def)

end
