(* ===== verification/Mapper.thy ===== *)
theory Mapper
  imports CC_Types
begin

text \<open>
  The time/position mapper of the review timeline (\<^verbatim>\<open>src/components/ReviewPhase.tsx\<close>):
  the pointer-to-time computation of \<open>handleScrubMove\<close> and of the hover handler, the
  time-to-percent computation of the play-head, the progress fill and the cut markers, and
  the two time formatters. The source divides by the width of the timeline and by the
  duration without a guard; the results are \<open>jsnum\<close>, so that the degenerate cases are
  \<open>NaN\<close> and the infinities that JavaScript computes.
\<close>

section \<open>Pointer to time\<close>

record rect =
  rect_left :: real
  rect_width :: real

definition pointer_x :: "rect \<Rightarrow> real \<Rightarrow> real" where
  "pointer_x r clientX = max 0 (min (clientX - rect_left r) (rect_width r))"

definition scrub_time :: "rect \<Rightarrow> real \<Rightarrow> seconds \<Rightarrow> jsnum" where
  "scrub_time r clientX d = js_mul (js_div (pointer_x r clientX) (rect_width r)) d"

definition hover_time :: "rect \<Rightarrow> real \<Rightarrow> seconds \<Rightarrow> jsnum" where
  "hover_time r clientX d = js_mul (js_div (clientX - rect_left r) (rect_width r)) d"

section \<open>Time to percent\<close>

definition percent_of :: "seconds \<Rightarrow> seconds \<Rightarrow> jsnum" where
  "percent_of t d = js_mul (js_div t d) 100"

definition marker_left :: "CutEvent \<Rightarrow> seconds \<Rightarrow> jsnum" where
  "marker_left c d = percent_of (start c) d"

definition marker_width :: "CutEvent \<Rightarrow> seconds \<Rightarrow> jsnum" where
  "marker_width c d = js_max 0.5 (percent_of (cut_end c - start c) d)"

section \<open>Formatting\<close>

definition formatTime :: "seconds \<Rightarrow> string" where
  "formatTime seconds =
     (let mins = \<lfloor>seconds / 60\<rfloor>;
          secs = \<lfloor>js_rem seconds 60\<rfloor>
      in int_toString mins @ '':'' @ padStart 2 CHR ''0'' (int_toString secs))"

definition formatTimeExact :: "seconds \<Rightarrow> string" where
  "formatTimeExact seconds =
     (let mins = \<lfloor>seconds / 60\<rfloor>;
          secs = \<lfloor>js_rem seconds 60\<rfloor>;
          ms = \<lfloor>js_rem seconds 1 * 1000\<rfloor>
      in int_toString mins @ '':'' @ padStart 2 CHR ''0'' (int_toString secs)
           @ '':'' @ padStart 3 CHR ''0'' (int_toString ms))"

lemmas mapper_defs [cc_defs] =
  pointer_x_def scrub_time_def hover_time_def percent_of_def marker_left_def marker_width_def

section \<open>Lemmas\<close>

lemma pointer_x_bounds: "0 \<le> rect_width r \<Longrightarrow> 0 \<le> pointer_x r x \<and> pointer_x r x \<le> rect_width r"
  by (simp add: pointer_x_def)

lemma pointer_x_inside [simp]:
  "0 \<le> x - rect_left r \<Longrightarrow> x - rect_left r \<le> rect_width r \<Longrightarrow> pointer_x r x = x - rect_left r"
  by (simp add: pointer_x_def)

lemma scrub_time_Finite:
  "rect_width r \<noteq> 0 \<Longrightarrow> scrub_time r x d = Finite (pointer_x r x / rect_width r * d)"
  by (simp add: scrub_time_def)

lemma scrub_time_zero_width: "rect_width r = 0 \<Longrightarrow> scrub_time r x d = NaN"
  by (simp add: scrub_time_def pointer_x_def js_mul_def)

lemma scrub_time_is_finite [simp]: "is_finite (scrub_time r x d) \<longleftrightarrow> rect_width r \<noteq> 0"
  by (simp add: scrub_time_def)

lemma scrub_time_range:
  assumes "scrub_time r x d = Finite t" and "0 \<le> d"
  shows "0 \<le> t \<and> t \<le> d"
proof -
  from assms(1) have w: "rect_width r \<noteq> 0"
    using scrub_time_is_finite [of r x d] by simp
  define q where "q = pointer_x r x / rect_width r"
  from w assms(1) have t: "t = q * d" by (simp add: scrub_time_Finite q_def)
  have "0 \<le> q \<and> q \<le> 1"
  proof (cases "0 < rect_width r")
    case True
    with pointer_x_bounds [of r x] show ?thesis by (simp add: q_def)
  next
    case False
    with w have "pointer_x r x = 0" by (simp add: pointer_x_def)
    then show ?thesis by (simp add: q_def)
  qed
  with assms(2) show ?thesis unfolding t by (simp add: fraction_scale_bounds)
qed

lemma percent_of_Finite [simp]: "d \<noteq> 0 \<Longrightarrow> percent_of t d = Finite (t / d * 100)"
  by (simp add: percent_of_def)

lemma percent_of_zero_duration: "\<not> is_finite (percent_of t 0)"
  by (simp add: percent_of_def)

lemma percent_of_range:
  assumes "0 < d" and "0 \<le> t" and "t \<le> d"
  shows "percent_of t d = Finite (t / d * 100)" and "0 \<le> t / d * 100" and "t / d * 100 \<le> 100"
  using assms by (simp_all add: pos_divide_le_eq)

section \<open>Properties\<close>

definition timeline_800 :: rect where
  "timeline_800 = \<lparr>rect_left = 40, rect_width = 800\<rparr>"

text \<open>C25: With a timeline of non-zero width and a non-negative duration, the time that
  \<open>handleScrubMove\<close> computes from any pointer position, inside or outside the timeline, is
  a finite number within \<open>[0, duration]\<close>.\<close>

theorem scrub_time_within_duration:
  "rect_width r \<noteq> 0 \<Longrightarrow> 0 \<le> d \<Longrightarrow> \<exists>t. scrub_time r x d = Finite t \<and> 0 \<le> t \<and> t \<le> d"
  using scrub_time_range [of r x d] by (simp add: scrub_time_Finite)

theorem scrub_time_within_duration_witness:
  "\<exists>t. scrub_time timeline_800 5000 60 = Finite t \<and> 0 \<le> t \<and> t \<le> 60"
  using scrub_time_within_duration [of timeline_800 60 5000] by (simp add: timeline_800_def)

text \<open>C26: Round trip between the two directions of the mapper: for a time within
  \<open>[0, duration]\<close> the play-head is drawn at a percentage within \<open>[0, 100]\<close>, and a
  pointer placed on that point of the timeline scrubs to the same time.\<close>

theorem playhead_scrub_roundtrip:
  assumes "0 < rect_width r" and "0 < d" and "0 \<le> t" and "t \<le> d"
  shows "\<exists>p. percent_of t d = Finite p \<and> 0 \<le> p \<and> p \<le> 100
           \<and> scrub_time r (rect_left r + p / 100 * rect_width r) d = Finite t"
proof -
  define p where "p = t / d * 100"
  have p: "percent_of t d = Finite p" "0 \<le> p" "p \<le> 100"
    unfolding p_def by (rule percent_of_range [OF assms(2-4)])+
  define q where "q = t / d"
  from assms have q: "0 \<le> q" "q \<le> 1" and qd: "q * d = t" and pq: "p / 100 = q"
    by (simp_all add: q_def p_def)
  from q assms(1) have "0 \<le> q * rect_width r" "q * rect_width r \<le> rect_width r"
    by (simp_all add: fraction_scale_bounds)
  then have "pointer_x r (rect_left r + q * rect_width r) = q * rect_width r"
    by simp
  with assms(1) qd have "scrub_time r (rect_left r + q * rect_width r) d = Finite t"
    by (simp add: scrub_time_Finite)
  then have "scrub_time r (rect_left r + p / 100 * rect_width r) d = Finite t"
    by (simp only: pq)
  with p show ?thesis by blast
qed

theorem playhead_scrub_roundtrip_witness:
  "\<exists>p. percent_of 15 60 = Finite p \<and> 0 \<le> p \<and> p \<le> 100
     \<and> scrub_time timeline_800 (rect_left timeline_800 + p / 100 * rect_width timeline_800) 60
         = Finite 15"
  using playhead_scrub_roundtrip [of timeline_800 60 15] by (simp add: timeline_800_def)

text \<open>The degenerate divisions are not guarded: on a timeline of width zero the scrub
  time is \<open>NaN\<close> for every pointer position, and with duration zero the play-head
  percentage is not a finite number (\<open>NaN\<close> at time zero), where the specification asks
  for the fraction 0.\<close>

lemma degenerate_divisions_not_finite:
  "scrub_time (r\<lparr>rect_width := 0\<rparr>) x d = NaN
   \<and> percent_of 0 0 = NaN \<and> \<not> is_finite (percent_of t 0)"
  by (simp add: scrub_time_zero_width percent_of_zero_duration)
    (simp add: percent_of_def js_mul_def)

text \<open>C27: The clock label reads back. For a non-negative time \<open>formatTime\<close> prints the
  minutes, a colon and exactly two digits of seconds below 60, and minutes times 60 plus
  seconds is the time rounded down; \<open>formatTimeExact\<close> appends a colon and exactly three
  digits, the milliseconds of the fraction rounded down.\<close>

theorem formatTime_reads_back:
  assumes "0 \<le> t"
  shows "\<exists>m ss ms. formatTime t = m @ '':'' @ ss \<and> length ss = 2
           \<and> parse_nat ss < 60 \<and> int (60 * parse_nat m + parse_nat ss) = \<lfloor>t\<rfloor>
           \<and> formatTimeExact t = formatTime t @ '':'' @ ms \<and> length ms = 3
           \<and> int (parse_nat ms) = \<lfloor>(t - of_int \<lfloor>t\<rfloor>) * 1000\<rfloor>"
proof -
  define mins where "mins = nat (\<lfloor>t\<rfloor> div 60)"
  define secs where "secs = nat (\<lfloor>t\<rfloor> mod 60)"
  define msec where "msec = nat \<lfloor>(t - of_int \<lfloor>t\<rfloor>) * 1000\<rfloor>"
  from assms have fl: "0 \<le> \<lfloor>t\<rfloor>" by simp
  have m: "\<lfloor>t / 60\<rfloor> = int mins"
    using floor_divide_real_eq_div [of 60 t] fl by (simp add: mins_def pos_imp_zdiv_nonneg_iff)
  have s: "\<lfloor>js_rem t 60\<rfloor> = int secs" and s60: "secs < 60"
    using floor_js_rem_60 [OF assms] by (simp_all add: secs_def nat_less_iff)
  have fr: "0 \<le> t - of_int \<lfloor>t\<rfloor>" "t - of_int \<lfloor>t\<rfloor> < 1" by linarith+
  then have "0 \<le> (t - of_int \<lfloor>t\<rfloor>) * 1000" "(t - of_int \<lfloor>t\<rfloor>) * 1000 < 1000" by simp_all
  then have ms: "\<lfloor>js_rem t 1 * 1000\<rfloor> = int msec" and ms1000: "msec < 10 ^ 3"
    using assms by (simp_all add: msec_def js_rem_def js_trunc_def floor_less_iff nat_less_iff)
  let ?ss = "padStart 2 CHR ''0'' (nat_toString secs)"
  let ?ms = "padStart 3 CHR ''0'' (nat_toString msec)"
  have f: "formatTime t = nat_toString mins @ '':'' @ ?ss"
    by (simp add: formatTime_def Let_def m s int_toString_def)
  have fe: "formatTimeExact t = formatTime t @ '':'' @ ?ms"
    by (simp add: formatTimeExact_def formatTime_def Let_def m s ms int_toString_def)
  from s60 have l2: "length ?ss = 2" by (intro length_padStart_nat) simp_all
  from ms1000 have l3: "length ?ms = 3" by (intro length_padStart_nat) simp_all
  have rd: "int (60 * parse_nat (nat_toString mins) + parse_nat ?ss) = \<lfloor>t\<rfloor>"
  proof -
    from fl have "0 \<le> \<lfloor>t\<rfloor> div 60" and "0 \<le> \<lfloor>t\<rfloor> mod 60"
      by (simp_all add: pos_imp_zdiv_nonneg_iff)
    then show ?thesis by (simp add: mins_def secs_def)
  qed
  have "int (parse_nat ?ms) = \<lfloor>(t - of_int \<lfloor>t\<rfloor>) * 1000\<rfloor>"
    using fr by (simp add: msec_def)
  with f fe l2 l3 rd s60 show ?thesis
    by (intro exI [of _ "nat_toString mins"] exI [of _ ?ss] exI [of _ ?ms]) simp
qed

theorem formatTime_reads_back_witness:
  "formatTime 125 = ''2:05'' \<and> formatTimeExact 83.456 = ''1:23:456''
   \<and> (\<exists>m ss. formatTime 125 = m @ '':'' @ ss \<and> length ss = 2 \<and> parse_nat ss < 60
        \<and> int (60 * parse_nat m + parse_nat ss) = 125)"
proof -
  have "formatTime 125 = ''2:05''" "formatTimeExact 83.456 = ''1:23:456''"
    by (simp_all add: formatTime_def formatTimeExact_def js_rem_def js_trunc_def
        int_toString_def padStart_def digit_char_def nat_toString_large)
  moreover from formatTime_reads_back [of 125]
  have "\<exists>m ss. formatTime 125 = m @ '':'' @ ss \<and> length ss = 2 \<and> parse_nat ss < 60
      \<and> int (60 * parse_nat m + parse_nat ss) = 125" by auto
  ultimately show ?thesis by blast
qed

end
