(* ===== verification/Media.thy ===== *)
theory Media
  imports CC_Prelude
begin

text \<open>
  The media element that the review component and the result player drive through
  \<open>videoRef.current\<close>. It is the browser's \<open>HTMLVideoElement\<close>, not code of the
  repository: the model follows the media source interface of the specification
  (position, duration, \<open>seek\<close>, \<open>play\<close>, \<open>pause\<close>, \<open>isPaused\<close>) with the behaviour the
  HTML standard gives it. Only what the components read or write is kept: the \<open>paused\<close>
  flag, the current position and the duration, which is unknown (\<open>NaN\<close> in the browser)
  until the metadata is loaded.

  \<^item> \<open>v_seek\<close> is an assignment to \<open>currentTime\<close>: clamped to \<open>[0, duration]\<close> once the
    duration is known, stored as it is before.
  \<^item> \<open>v_play allowed\<close> is a call of \<open>play()\<close>; \<open>allowed\<close> is the environment's answer (the
    promise resolves or is rejected). Playing from the end restarts at 0.
  \<^item> \<open>v_advance dt\<close> is the passing of \<open>dt\<close> seconds of playback; reaching the end pauses.
  \<^item> \<open>v_loadedmetadata d\<close> is the arrival of the metadata.
\<close>

record video =
  paused :: bool
  v_currentTime :: seconds
  v_duration :: "seconds option"

definition new_video :: video where
  "new_video = \<lparr>paused = True, v_currentTime = 0, v_duration = None\<rparr>"

definition v_pause :: "video \<Rightarrow> video" where
  "v_pause v = v\<lparr>paused := True\<rparr>"

definition v_seek :: "seconds \<Rightarrow> video \<Rightarrow> video" where
  "v_seek t v =
     (case v_duration v of
        None \<Rightarrow> v\<lparr>v_currentTime := t\<rparr>
      | Some d \<Rightarrow> v\<lparr>v_currentTime := clamp 0 d t\<rparr>)"

definition v_ended :: "video \<Rightarrow> bool" where
  "v_ended v \<longleftrightarrow> (case v_duration v of None \<Rightarrow> False | Some d \<Rightarrow> d \<le> v_currentTime v)"

definition v_play :: "bool \<Rightarrow> video \<Rightarrow> video" where
  "v_play allowed v =
     (if \<not> allowed then v
      else if v_ended v then (v_seek 0 v)\<lparr>paused := False\<rparr>
      else v\<lparr>paused := False\<rparr>)"

definition v_advance :: "seconds \<Rightarrow> video \<Rightarrow> video" where
  "v_advance dt v =
     (case v_duration v of
        None \<Rightarrow> v
      | Some d \<Rightarrow>
          if paused v then v
          else if d \<le> v_currentTime v + dt then v\<lparr>v_currentTime := d, paused := True\<rparr>
          else v\<lparr>v_currentTime := v_currentTime v + dt\<rparr>)"

definition v_loadedmetadata :: "seconds \<Rightarrow> video \<Rightarrow> video" where
  "v_loadedmetadata d v = v\<lparr>v_duration := Some d, v_currentTime := clamp 0 d (v_currentTime v)\<rparr>"

definition video_ok :: "video \<Rightarrow> bool" where
  "video_ok v \<longleftrightarrow>
     0 \<le> v_currentTime v \<and>
     (case v_duration v of None \<Rightarrow> True | Some d \<Rightarrow> 0 \<le> d \<and> v_currentTime v \<le> d)"

lemmas media_defs [cc_defs] =
  v_pause_def v_seek_def v_ended_def v_play_def v_advance_def v_loadedmetadata_def

section \<open>Frame lemmas\<close>

lemma v_pause_simps [simp, cc_frame]:
  "paused (v_pause v)" "v_currentTime (v_pause v) = v_currentTime v"
  "v_duration (v_pause v) = v_duration v"
  by (simp_all add: v_pause_def)

lemma v_seek_simps [simp, cc_frame]:
  "paused (v_seek t v) = paused v" "v_duration (v_seek t v) = v_duration v"
  by (simp_all add: v_seek_def split: option.splits)

lemma v_seek_time:
  "v_currentTime (v_seek t v) = (case v_duration v of None \<Rightarrow> t | Some d \<Rightarrow> clamp 0 d t)"
  by (simp add: v_seek_def split: option.splits)

lemma v_seek_time_known [simp]:
  "v_duration v = Some d \<Longrightarrow> v_currentTime (v_seek t v) = clamp 0 d t"
  by (simp add: v_seek_time)

lemma v_seek_time_unknown [simp]:
  "v_duration v = None \<Longrightarrow> v_currentTime (v_seek t v) = t"
  by (simp add: v_seek_time)

lemma v_play_simps [simp, cc_frame]:
  "v_duration (v_play a v) = v_duration v" "paused (v_play a v) = (if a then False else paused v)"
  by (simp_all add: v_play_def)

lemma v_play_time:
  "v_currentTime (v_play a v) = (if a \<and> v_ended v then 0 else v_currentTime v)"
  by (auto simp: v_play_def v_seek_def v_ended_def clamp_def split: option.splits)

lemma v_play_refused [simp]: "v_play False v = v"
  by (simp add: v_play_def)

lemma v_advance_duration [simp, cc_frame]: "v_duration (v_advance dt v) = v_duration v"
  by (simp add: v_advance_def split: option.splits)

lemma v_advance_paused [simp]: "paused v \<Longrightarrow> v_advance dt v = v"
  by (simp add: v_advance_def split: option.splits)

lemma v_advance_mono: "0 \<le> dt \<Longrightarrow> video_ok v \<Longrightarrow> v_currentTime v \<le> v_currentTime (v_advance dt v)"
  by (auto simp: v_advance_def video_ok_def split: option.splits)

section \<open>The position stays within the media\<close>

lemma video_ok_new [simp]: "video_ok new_video"
  by (simp add: video_ok_def new_video_def)

lemma video_ok_pause [simp, cc_inv]: "video_ok (v_pause v) \<longleftrightarrow> video_ok v"
  by (simp add: video_ok_def split: option.splits)

lemma video_ok_seek [cc_inv]: "video_ok v \<Longrightarrow> 0 \<le> t \<Longrightarrow> video_ok (v_seek t v)"
  by (auto simp: video_ok_def v_seek_def split: option.splits)

lemma video_ok_play [cc_inv]: "video_ok v \<Longrightarrow> video_ok (v_play a v)"
  by (auto simp: video_ok_def v_play_def v_seek_def split: option.splits)

lemma video_ok_advance [cc_inv]: "video_ok v \<Longrightarrow> 0 \<le> dt \<Longrightarrow> video_ok (v_advance dt v)"
  by (auto simp: video_ok_def v_advance_def split: option.splits)

lemma video_ok_loadedmetadata [cc_inv]:
  "video_ok v \<Longrightarrow> 0 \<le> d \<Longrightarrow> video_ok (v_loadedmetadata d v)"
  by (simp add: video_ok_def v_loadedmetadata_def)

lemma video_okD:
  "video_ok v \<Longrightarrow> 0 \<le> v_currentTime v"
  "video_ok v \<Longrightarrow> v_duration v = Some d \<Longrightarrow> 0 \<le> d \<and> v_currentTime v \<le> d"
  by (simp_all add: video_ok_def split: option.splits)

end
