(* ===== verification/Review_Phase.thy ===== *)
theory Review_Phase
  imports Skip_Policy Mapper Media
begin

text \<open>
  The review component (\<^verbatim>\<open>src/components/ReviewPhase.tsx\<close>): the owner of the play-head.

  \<^item> \<open>review_state\<close> holds what the component keeps between renders: its \<open>useState\<close>
    cells, its \<open>useRef\<close> cells (the two DOM references included: the media element and the
    bounding rectangle of the timeline) and the \<open>cuts\<close> it receives from its parent.
  \<^item> Each handler of the source is one definition with the source's name, its guards in
    the source's order. A handler that can raise returns \<open>js_error + review_state\<close>.
  \<^item> \<open>event\<close> lists what can happen to the component; \<open>step\<close> dispatches an event to its
    handler; \<open>enabled\<close> states what the environment guarantees of an event;
    \<open>reachable\<close> is the set of states of all runs from the initial state.
  \<^item> A handler runs to completion on the state of the latest render. The continuation of
    the \<open>play()\<close> promise in \<open>previewCut\<close> is a separate event (\<open>PlayResolved\<close>), as are
    the \<open>play\<close> and \<open>pause\<close> events of the media element (\<open>OnPlay\<close>, \<open>OnPause\<close>), which
    may arrive at any later time.
\<close>

section \<open>State\<close>

datatype js_error = TypeError

record review_state =
  videoRef :: "video option"
  timelineRef :: "rect option"
  cuts :: "CutEvent list"
  isPlaying :: bool
  currentTime :: seconds
  duration :: seconds
  activeCutId :: "string option"
  isScrubbing :: bool
  hoverTime :: "jsnum option"
  wasPlayingRef :: bool
  previewEndTimeRef :: "seconds option"

definition init_review :: "rect \<Rightarrow> CutEvent list \<Rightarrow> review_state" where
  "init_review r cs =
     \<lparr>videoRef = Some new_video, timelineRef = Some r, cuts = cs, isPlaying = False,
      currentTime = 0, duration = 0, activeCutId = None, isScrubbing = False,
      hoverTime = None, wasPlayingRef = False, previewEndTimeRef = None\<rparr>"

section \<open>Handlers\<close>

definition toggleCutStatus :: "string \<Rightarrow> CutStatus \<Rightarrow> CutEvent list \<Rightarrow> CutEvent list" where
  "toggleCutStatus i st cs = map (\<lambda>c. if cut_id c = i then c\<lparr>status := st\<rparr> else c) cs"

definition checkTime :: "review_state \<Rightarrow> review_state" where
  "checkTime s =
     (if isScrubbing s then s
      else case videoRef s of
        None \<Rightarrow> s
      | Some v \<Rightarrow>
          if \<not> paused v then
            (let time = v_currentTime v;
                 s1 = s\<lparr>currentTime := time\<rparr>
             in case previewEndTimeRef s of
                  Some pe \<Rightarrow>
                    if time \<ge> pe
                    then s1\<lparr>videoRef := Some (v_pause v), isPlaying := False,
                            previewEndTimeRef := None\<rparr>
                    else (case currentPreviewCut (cuts s) time of
                            Some c \<Rightarrow> s1\<lparr>activeCutId := Some (cut_id c)\<rparr>
                          | None \<Rightarrow> s1)
                | None \<Rightarrow>
                    (case currentCut (cuts s) time of
                       Some c \<Rightarrow> s1\<lparr>activeCutId := Some (cut_id c),
                                    videoRef := Some (v_seek (cut_end c) v)\<rparr>
                     | None \<Rightarrow> s1\<lparr>activeCutId := map_option cut_id (upcomingCut (cuts s) time)\<rparr>))
          else if paused v \<noteq> (\<not> isPlaying s) then s\<lparr>isPlaying := \<not> paused v\<rparr>
          else s)"

definition previewCut :: "CutEvent \<Rightarrow> bool \<Rightarrow> review_state \<Rightarrow> review_state" where
  "previewCut c allowed s =
     (let s1 = s\<lparr>activeCutId := Some (cut_id c)\<rparr>
      in case videoRef s of
           None \<Rightarrow> s1
         | Some v \<Rightarrow>
             (let start' = max 0 (start c - 1);
                  end' = min (duration s) (cut_end c + 1)
              in s1\<lparr>previewEndTimeRef := Some end',
                    videoRef := Some (v_play allowed (v_seek start' v))\<rparr>))"

definition previewCut_then :: "review_state \<Rightarrow> review_state" where
  "previewCut_then s = s\<lparr>isPlaying := True\<rparr>"

definition skip :: "seconds \<Rightarrow> review_state \<Rightarrow> review_state" where
  "skip secs s =
     (case videoRef s of
        None \<Rightarrow> s
      | Some v \<Rightarrow>
          (let newTime = max 0 (min (duration s) (v_currentTime v + secs))
           in s\<lparr>videoRef := Some (v_seek newTime v), currentTime := newTime,
                 previewEndTimeRef := None\<rparr>))"

definition handleScrubMove :: "real \<Rightarrow> review_state \<Rightarrow> js_error + review_state" where
  "handleScrubMove clientX s =
     (case (timelineRef s, videoRef s) of
        (Some r, Some v) \<Rightarrow>
          if duration s > 0 then
            (case scrub_time r clientX (duration s) of
               Finite newTime \<Rightarrow>
                 Inr (s\<lparr>currentTime := newTime, videoRef := Some (v_seek newTime v),
                        activeCutId := map_option cut_id (cutAtTime (cuts s) newTime)\<rparr>)
             | _ \<Rightarrow> Inl TypeError)
          else Inr s
      | _ \<Rightarrow> Inr s)"

definition handleScrubStart :: "real \<Rightarrow> review_state \<Rightarrow> js_error + review_state" where
  "handleScrubStart clientX s =
     (case (timelineRef s, videoRef s) of
        (Some r, Some v) \<Rightarrow>
          handleScrubMove clientX
            (s\<lparr>isScrubbing := True, previewEndTimeRef := None,
               wasPlayingRef := \<not> paused v,
               videoRef := Some (if \<not> paused v then v_pause v else v)\<rparr>)
      | _ \<Rightarrow> Inr s)"

definition handleScrubEnd :: "bool \<Rightarrow> review_state \<Rightarrow> review_state" where
  "handleScrubEnd allowed s =
     (if \<not> isScrubbing s then s
      else (case videoRef s of
              Some v \<Rightarrow>
                if wasPlayingRef s
                then s\<lparr>isScrubbing := False, videoRef := Some (v_play allowed v),
                       wasPlayingRef := False\<rparr>
                else s\<lparr>isScrubbing := False, wasPlayingRef := False\<rparr>
            | None \<Rightarrow> s\<lparr>isScrubbing := False, wasPlayingRef := False\<rparr>))"

definition onLoadedMetadata :: "seconds \<Rightarrow> review_state \<Rightarrow> review_state" where
  "onLoadedMetadata d s = s\<lparr>duration := d\<rparr>"

definition onPlay :: "review_state \<Rightarrow> review_state" where
  "onPlay s = s\<lparr>isPlaying := True\<rparr>"

definition onPause :: "review_state \<Rightarrow> review_state" where
  "onPause s = s\<lparr>isPlaying := False\<rparr>"

definition onClickPlayPause :: "bool \<Rightarrow> review_state \<Rightarrow> review_state" where
  "onClickPlayPause allowed s =
     (case videoRef s of
        None \<Rightarrow> s
      | Some v \<Rightarrow>
          if isPlaying s then s\<lparr>videoRef := Some (v_pause v)\<rparr>
          else s\<lparr>videoRef := Some (v_play allowed v)\<rparr>)"

definition onMouseMove :: "real \<Rightarrow> review_state \<Rightarrow> review_state" where
  "onMouseMove clientX s =
     (case timelineRef s of
        Some r \<Rightarrow>
          if \<not> isScrubbing s \<and> duration s > 0
          then s\<lparr>hoverTime := Some (hover_time r clientX (duration s))\<rparr>
          else s
      | None \<Rightarrow> s)"

definition onMouseLeave :: "review_state \<Rightarrow> review_state" where
  "onMouseLeave s = s\<lparr>hoverTime := None\<rparr>"

lemmas handler_defs [cc_defs] =
  previewCut_def previewCut_then_def skip_def handleScrubMove_def handleScrubStart_def
  handleScrubEnd_def onLoadedMetadata_def onPlay_def onPause_def onClickPlayPause_def
  onMouseMove_def onMouseLeave_def

section \<open>Events and steps\<close>

datatype event =
    Tick
  | Advance seconds
  | LoadedMetadata seconds
  | OnPlay
  | OnPause
  | PlayResolved
  | ClickPlayPause bool
  | PreviewCut CutEvent bool
  | SkipBy seconds
  | ScrubStart real
  | ScrubMove real
  | ScrubEnd bool
  | HoverMove real
  | HoverLeave
  | ToggleCutStatus string CutStatus

fun step :: "event \<Rightarrow> review_state \<Rightarrow> js_error + review_state" where
  "step Tick s = Inr (checkTime s)"
| "step (Advance dt) s = Inr (s\<lparr>videoRef := map_option (v_advance dt) (videoRef s)\<rparr>)"
| "step (LoadedMetadata d) s =
     Inr (onLoadedMetadata d (s\<lparr>videoRef := map_option (v_loadedmetadata d) (videoRef s)\<rparr>))"
| "step OnPlay s = Inr (onPlay s)"
| "step OnPause s = Inr (onPause s)"
| "step PlayResolved s = Inr (previewCut_then s)"
| "step (ClickPlayPause allowed) s = Inr (onClickPlayPause allowed s)"
| "step (PreviewCut c allowed) s = Inr (previewCut c allowed s)"
| "step (SkipBy secs) s = Inr (skip secs s)"
| "step (ScrubStart x) s = handleScrubStart x s"
| "step (ScrubMove x) s = (if isScrubbing s then handleScrubMove x s else Inr s)"
| "step (ScrubEnd allowed) s = Inr (handleScrubEnd allowed s)"
| "step (HoverMove x) s = Inr (onMouseMove x s)"
| "step HoverLeave s = Inr (onMouseLeave s)"
| "step (ToggleCutStatus i st) s = Inr (s\<lparr>cuts := toggleCutStatus i st (cuts s)\<rparr>)"

fun enabled :: "event \<Rightarrow> review_state \<Rightarrow> bool" where
  "enabled (Advance dt) s \<longleftrightarrow> 0 \<le> dt"
| "enabled (LoadedMetadata d) s \<longleftrightarrow>
     0 \<le> d \<and> (case videoRef s of None \<Rightarrow> False | Some v \<Rightarrow> v_duration v = None)"
| "enabled (PreviewCut c allowed) s \<longleftrightarrow> c \<in> set (cuts s)"
| "enabled _ s \<longleftrightarrow> True"

fun run :: "event list \<Rightarrow> review_state \<Rightarrow> js_error + review_state" where
  "run [] s = Inr s"
| "run (e # es) s = (case step e s of Inl err \<Rightarrow> Inl err | Inr s' \<Rightarrow> run es s')"

fun enabled_run :: "event list \<Rightarrow> review_state \<Rightarrow> bool" where
  "enabled_run [] s \<longleftrightarrow> True"
| "enabled_run (e # es) s \<longleftrightarrow>
     enabled e s \<and> (case step e s of Inl err \<Rightarrow> True | Inr s' \<Rightarrow> enabled_run es s')"

inductive reachable :: "review_state \<Rightarrow> bool" where
  init: "reachable (init_review r cs)"
| step: "reachable s \<Longrightarrow> enabled e s \<Longrightarrow> step e s = Inr s' \<Longrightarrow> reachable s'"

section \<open>The branches of the frame tick\<close>

definition playing :: "review_state \<Rightarrow> video \<Rightarrow> bool" where
  "playing s v \<longleftrightarrow> \<not> isScrubbing s \<and> videoRef s = Some v \<and> \<not> paused v"

lemma checkTime_scrubbing: "isScrubbing s \<Longrightarrow> checkTime s = s"
  by (simp add: checkTime_def)

lemma checkTime_unmounted: "videoRef s = None \<Longrightarrow> checkTime s = s"
  by (simp add: checkTime_def)

lemma checkTime_paused:
  "\<not> isScrubbing s \<Longrightarrow> videoRef s = Some v \<Longrightarrow> paused v \<Longrightarrow>
   checkTime s = s\<lparr>isPlaying := False\<rparr>"
  by (simp add: checkTime_def)

lemma checkTime_preview_end:
  "playing s v \<Longrightarrow> previewEndTimeRef s = Some pe \<Longrightarrow> pe \<le> v_currentTime v \<Longrightarrow>
   checkTime s = s\<lparr>currentTime := v_currentTime v, videoRef := Some (v_pause v),
                     isPlaying := False, previewEndTimeRef := None\<rparr>"
  by (simp add: checkTime_def playing_def Let_def)

lemma checkTime_preview_run:
  "playing s v \<Longrightarrow> previewEndTimeRef s = Some pe \<Longrightarrow> v_currentTime v < pe \<Longrightarrow>
   checkTime s = s\<lparr>currentTime := v_currentTime v,
     activeCutId := (case currentPreviewCut (cuts s) (v_currentTime v) of
                       Some c \<Rightarrow> Some (cut_id c) | None \<Rightarrow> activeCutId s)\<rparr>"
  by (simp add: checkTime_def playing_def Let_def split: option.splits)

lemma checkTime_skip:
  "playing s v \<Longrightarrow> previewEndTimeRef s = None \<Longrightarrow> currentCut (cuts s) (v_currentTime v) = Some c \<Longrightarrow>
   checkTime s = s\<lparr>currentTime := v_currentTime v, activeCutId := Some (cut_id c),
                     videoRef := Some (v_seek (cut_end c) v)\<rparr>"
  by (simp add: checkTime_def playing_def Let_def)

lemma checkTime_no_skip:
  "playing s v \<Longrightarrow> previewEndTimeRef s = None \<Longrightarrow> currentCut (cuts s) (v_currentTime v) = None \<Longrightarrow>
   checkTime s = s\<lparr>currentTime := v_currentTime v,
                     activeCutId := map_option cut_id (upcomingCut (cuts s) (v_currentTime v))\<rparr>"
  by (simp add: checkTime_def playing_def Let_def)

lemmas checkTime_branches =
  checkTime_scrubbing checkTime_unmounted checkTime_paused checkTime_preview_end
  checkTime_preview_run checkTime_skip checkTime_no_skip

text \<open>Every state is in exactly one branch of the tick: the case analysis that the proofs
  about \<open>checkTime\<close> share.\<close>

lemma checkTime_cases [case_names scrubbing unmounted paused preview_end preview_run skip no_skip]:
  assumes "isScrubbing s \<Longrightarrow> P"
    and "\<not> isScrubbing s \<Longrightarrow> videoRef s = None \<Longrightarrow> P"
    and "\<And>v. \<not> isScrubbing s \<Longrightarrow> videoRef s = Some v \<Longrightarrow> paused v \<Longrightarrow> P"
    and "\<And>v pe. playing s v \<Longrightarrow> previewEndTimeRef s = Some pe \<Longrightarrow> pe \<le> v_currentTime v \<Longrightarrow> P"
    and "\<And>v pe. playing s v \<Longrightarrow> previewEndTimeRef s = Some pe \<Longrightarrow> v_currentTime v < pe \<Longrightarrow> P"
    and "\<And>v c. playing s v \<Longrightarrow> previewEndTimeRef s = None \<Longrightarrow>
           currentCut (cuts s) (v_currentTime v) = Some c \<Longrightarrow> P"
    and "\<And>v. playing s v \<Longrightarrow> previewEndTimeRef s = None \<Longrightarrow>
           currentCut (cuts s) (v_currentTime v) = None \<Longrightarrow> P"
  shows P
proof (cases "isScrubbing s")
  case True
  then show ?thesis by (rule assms(1))
next
  case ns: False
  show ?thesis
  proof (cases "videoRef s")
    case None
    with ns show ?thesis by (rule assms(2))
  next
    case (Some v)
    show ?thesis
    proof (cases "paused v")
      case True
      with ns Some show ?thesis by (rule assms(3))
    next
      case False
      with ns Some have pl: "playing s v" by (simp add: playing_def)
      show ?thesis
      proof (cases "previewEndTimeRef s")
        case None
        with pl show ?thesis
          by (cases "currentCut (cuts s) (v_currentTime v)") (auto intro: assms(6,7))
      next
        case (Some pe)
        with pl show ?thesis
          by (cases "pe \<le> v_currentTime v") (auto intro: assms(4,5))
      qed
    qed
  qed
qed

section \<open>The invariant of the component\<close>

text \<open>
  What holds in every reachable state: the displayed time and the duration are not
  negative; the position of the media element is within the media and the \<open>duration\<close> cell
  mirrors the element's duration (0 while it is unknown); a preview bound never exceeds
  the duration; \<open>wasPlayingRef\<close> is set only during a scrub.
\<close>

definition known_duration :: "video \<Rightarrow> seconds" where
  "known_duration v = (case v_duration v of None \<Rightarrow> 0 | Some d \<Rightarrow> d)"

definition review_inv :: "review_state \<Rightarrow> bool" where
  "review_inv s \<longleftrightarrow>
     0 \<le> currentTime s \<and> 0 \<le> duration s
     \<and> (case videoRef s of None \<Rightarrow> True
         | Some v \<Rightarrow> video_ok v \<and> known_duration v = duration s)
     \<and> (case previewEndTimeRef s of None \<Rightarrow> True | Some e \<Rightarrow> e \<le> duration s)
     \<and> (wasPlayingRef s \<longrightarrow> isScrubbing s)"

lemma review_inv_iff:
  "review_inv s \<longleftrightarrow>
     0 \<le> currentTime s \<and> 0 \<le> duration s
     \<and> (\<forall>v. videoRef s = Some v \<longrightarrow> video_ok v \<and> known_duration v = duration s)
     \<and> (\<forall>e. previewEndTimeRef s = Some e \<longrightarrow> e \<le> duration s)
     \<and> (wasPlayingRef s \<longrightarrow> isScrubbing s)"
  by (simp add: review_inv_def split: option.splits)

lemma review_invD:
  assumes "review_inv s"
  shows "0 \<le> currentTime s" and "0 \<le> duration s"
    and "videoRef s = Some v \<Longrightarrow> video_ok v"
    and "videoRef s = Some v \<Longrightarrow> known_duration v = duration s"
    and "previewEndTimeRef s = Some e \<Longrightarrow> e \<le> duration s"
    and "wasPlayingRef s \<Longrightarrow> isScrubbing s"
  using assms by (simp_all add: review_inv_iff)

lemma known_duration_simps [simp]:
  "known_duration (v_pause v) = known_duration v"
  "known_duration (v_seek t v) = known_duration v"
  "known_duration (v_play a v) = known_duration v"
  "known_duration (v_advance dt v) = known_duration v"
  "known_duration (v_loadedmetadata d v) = d"
  "known_duration new_video = 0"
  by (simp_all add: known_duration_def v_loadedmetadata_def new_video_def)

lemma review_inv_init [simp, cc_inv]: "review_inv (init_review r cs)"
  by (simp add: review_inv_def init_review_def)

lemma review_inv_checkTime [cc_inv]:
  assumes "review_inv s"
  shows "review_inv (checkTime s)"
proof (cases s rule: checkTime_cases)
  case scrubbing
  with assms show ?thesis by (simp add: checkTime_scrubbing)
next
  case unmounted
  with assms show ?thesis by (simp add: checkTime_unmounted)
next
  case (paused v)
  with assms show ?thesis by (simp add: checkTime_paused review_inv_iff)
next
  case (preview_end v pe)
  then have v: "videoRef s = Some v" by (simp add: playing_def)
  from review_invD(3) [OF assms v] assms v show ?thesis
    by (simp add: checkTime_preview_end [OF preview_end] review_inv_iff video_okD)
next
  case (preview_run v pe)
  then have v: "videoRef s = Some v" by (simp add: playing_def)
  from review_invD(3) [OF assms v] assms v show ?thesis
    by (simp add: checkTime_preview_run [OF preview_run] review_inv_iff video_okD)
next
  case (skip v c)
  then have v: "videoRef s = Some v" by (simp add: playing_def)
  note ok = review_invD(3) [OF assms v]
  from currentCut_SomeD [OF skip(3)] video_okD(1) [OF ok] have "0 \<le> cut_end c"
    by (simp add: contains_def)
  with ok have "video_ok (v_seek (cut_end c) v)" by (rule video_ok_seek)
  with ok assms v show ?thesis
    by (simp add: checkTime_skip [OF skip] review_inv_iff video_okD)
next
  case (no_skip v)
  then have v: "videoRef s = Some v" by (simp add: playing_def)
  from review_invD(3) [OF assms v] assms v show ?thesis
    by (simp add: checkTime_no_skip [OF no_skip] review_inv_iff video_okD)
qed

lemma review_inv_previewCut [cc_inv]: "review_inv s \<Longrightarrow> review_inv (previewCut c a s)"
  by (auto simp: previewCut_def review_inv_iff Let_def intro!: video_ok_play video_ok_seek
      split: option.splits)

lemma review_inv_skip [cc_inv]: "review_inv s \<Longrightarrow> review_inv (skip secs s)"
  by (auto simp: skip_def review_inv_iff Let_def intro!: video_ok_seek split: option.splits)

lemma review_inv_handleScrubMove [cc_inv]:
  assumes "review_inv s" and "handleScrubMove x s = Inr s'"
  shows "review_inv s'"
proof (cases "\<exists>r v. timelineRef s = Some r \<and> videoRef s = Some v \<and> 0 < duration s")
  case False
  with assms show ?thesis by (auto simp: handleScrubMove_def split: option.splits)
next
  case True
  then obtain r v where rv: "timelineRef s = Some r" "videoRef s = Some v" "0 < duration s"
    by blast
  with assms(2) obtain t where t: "scrub_time r x (duration s) = Finite t"
    and s': "s' = s\<lparr>currentTime := t, videoRef := Some (v_seek t v),
        activeCutId := map_option cut_id (cutAtTime (cuts s) t)\<rparr>"
    by (auto simp: handleScrubMove_def split: jsnum.splits)
  from scrub_time_range [OF t] rv(3) have "0 \<le> t" by simp
  with review_invD(3) [OF assms(1) rv(2)] have "video_ok (v_seek t v)" by (rule video_ok_seek)
  with assms(1) rv \<open>0 \<le> t\<close> show ?thesis by (simp add: s' review_inv_iff)
qed

lemma review_inv_scrub_prepare:
  "review_inv s \<Longrightarrow> videoRef s = Some v \<Longrightarrow>
   review_inv (s\<lparr>isScrubbing := True, previewEndTimeRef := None, wasPlayingRef := \<not> paused v,
                  videoRef := Some (if \<not> paused v then v_pause v else v)\<rparr>)"
  by (simp add: review_inv_iff)

lemma review_inv_handleScrubStart [cc_inv]:
  assumes "review_inv s" and "handleScrubStart x s = Inr s'"
  shows "review_inv s'"
proof (cases "\<exists>r v. timelineRef s = Some r \<and> videoRef s = Some v")
  case False
  with assms show ?thesis by (auto simp: handleScrubStart_def split: option.splits)
next
  case True
  then obtain r v where rv: "timelineRef s = Some r" "videoRef s = Some v" by blast
  with assms(2) review_inv_scrub_prepare [OF assms(1) rv(2)] show ?thesis
    by (auto simp: handleScrubStart_def intro: review_inv_handleScrubMove)
qed

lemma review_inv_handleScrubEnd [cc_inv]: "review_inv s \<Longrightarrow> review_inv (handleScrubEnd a s)"
  by (auto simp: handleScrubEnd_def review_inv_iff intro!: video_ok_play split: option.splits)

lemma review_inv_onClickPlayPause [cc_inv]:
  "review_inv s \<Longrightarrow> review_inv (onClickPlayPause a s)"
  by (auto simp: onClickPlayPause_def review_inv_iff intro!: video_ok_play split: option.splits)

lemma review_inv_simple [cc_inv]:
  assumes "review_inv s"
  shows "review_inv (onPlay s)" and "review_inv (onPause s)" and "review_inv (previewCut_then s)"
    and "review_inv (onMouseMove x s)" and "review_inv (onMouseLeave s)"
    and "review_inv (s\<lparr>cuts := cs\<rparr>)"
  using assms
  by (auto simp: review_inv_iff onPlay_def onPause_def previewCut_then_def onMouseMove_def
      onMouseLeave_def split: option.splits)

lemma review_inv_advance [cc_inv]:
  "review_inv s \<Longrightarrow> 0 \<le> dt \<Longrightarrow>
   review_inv (s\<lparr>videoRef := map_option (v_advance dt) (videoRef s)\<rparr>)"
  by (auto simp: review_inv_iff intro: video_ok_advance)

lemma review_inv_loadedmetadata [cc_inv]:
  assumes "review_inv s" and "enabled (LoadedMetadata d) s"
  shows "review_inv (onLoadedMetadata d (s\<lparr>videoRef := map_option (v_loadedmetadata d) (videoRef s)\<rparr>))"
proof -
  from assms(2) obtain v where v: "videoRef s = Some v" "v_duration v = None" and d: "0 \<le> d"
    by (auto split: option.splits)
  from review_invD(4) [OF assms(1) v(1)] v(2) have "duration s = 0"
    by (simp add: known_duration_def)
  with assms(1) v d show ?thesis
    by (auto simp: review_inv_iff onLoadedMetadata_def intro: video_ok_loadedmetadata)
qed

lemma step_preserves_review_inv:
  assumes "review_inv s" and "enabled e s" and "step e s = Inr s'"
  shows "review_inv s'"
proof (cases e)
  case (LoadedMetadata d)
  with assms review_inv_loadedmetadata [of s d] show ?thesis by auto
next
  case (ScrubStart x)
  with assms show ?thesis by (auto intro: review_inv_handleScrubStart)
next
  case (ScrubMove x)
  with assms show ?thesis by (auto intro: review_inv_handleScrubMove split: if_splits)
qed (use assms in \<open>auto intro: cc_inv\<close>)

lemma run_append: "run (es @ fs) s = (case run es s of Inl err \<Rightarrow> Inl err | Inr s' \<Rightarrow> run fs s')"
  by (induction es arbitrary: s) (auto split: sum.splits)

lemma reachable_run:
  "reachable s \<Longrightarrow> enabled_run es s \<Longrightarrow> run es s = Inr s' \<Longrightarrow> reachable s'"
proof (induction es arbitrary: s)
  case Nil
  then show ?case by simp
next
  case (Cons e es)
  from Cons.prems(3) obtain s1 where s1: "step e s = Inr s1" and rest: "run es s1 = Inr s'"
    by (auto split: sum.splits)
  with Cons.prems have "reachable s1" "enabled_run es s1"
    by (auto intro: reachable.step)
  then show ?case using rest by (rule Cons.IH)
qed

section \<open>Frame lemmas of the tick\<close>

lemma checkTime_frame [simp, cc_frame]:
  "cuts (checkTime s) = cuts s" "duration (checkTime s) = duration s"
  "timelineRef (checkTime s) = timelineRef s" "isScrubbing (checkTime s) = isScrubbing s"
  "wasPlayingRef (checkTime s) = wasPlayingRef s" "hoverTime (checkTime s) = hoverTime s"
  by (simp_all add: checkTime_def Let_def split: option.splits)

lemma checkTime_video_unmounted [simp]: "videoRef (checkTime s) = None \<longleftrightarrow> videoRef s = None"
  by (simp add: checkTime_def Let_def split: option.splits)

section \<open>Properties of the handlers\<close>

definition cut_10_12 :: CutEvent where
  "cut_10_12 = \<lparr>cut_id = ''cut-7'', cut_type = filler, word = Some ''Um'', start = 10,
     cut_end = 12, confidence = 0.9, status = accepted\<rparr>"

definition loaded_100 :: review_state where
  "loaded_100 = (init_review timeline_800 [cut_10_12])
     \<lparr>videoRef := Some \<lparr>paused = True, v_currentTime = 0, v_duration = Some 100\<rparr>,
      duration := 100\<rparr>"

lemma loaded_100_run:
  "run [LoadedMetadata 100] (init_review timeline_800 [cut_10_12]) = Inr loaded_100"
  by (simp add: loaded_100_def init_review_def onLoadedMetadata_def v_loadedmetadata_def
      new_video_def)

lemma reachable_loaded_100: "reachable loaded_100"
proof -
  have "enabled_run [LoadedMetadata 100] (init_review timeline_800 [cut_10_12])"
    by (simp add: init_review_def new_video_def)
  with reachable.init show ?thesis using loaded_100_run by (rule reachable_run)
qed

text \<open>C1: In every state that the review component can reach (from its initial state, by
  any sequence of user commands, media events, clock advances and frame ticks) the
  displayed time and the duration are non-negative, the position of the media element is
  within \<open>[0, duration]\<close> once the duration is known, the \<open>duration\<close> cell mirrors the
  element's duration, a preview bound never exceeds the duration, and \<open>wasPlayingRef\<close> is
  set only while scrubbing.\<close>

theorem reachable_review_inv: "reachable s \<Longrightarrow> review_inv s"
proof (induction rule: reachable.induct)
  case (init r cs)
  show ?case by (rule review_inv_init)
next
  case (step s e s')
  then show ?case by (blast intro: step_preserves_review_inv)
qed

theorem reachable_review_inv_witness: "reachable loaded_100 \<and> review_inv loaded_100"
  using reachable_loaded_100 reachable_review_inv [of loaded_100] by simp

text \<open>C6: Scrub precedence. When \<open>handleScrubStart\<close> runs with both DOM references
  present, the component is scrubbing afterwards, the preview bound is cleared, the media
  element is paused, \<open>wasPlayingRef\<close> records whether it was playing, the displayed time
  is the time under the pointer when the duration is known, and a frame tick in the
  resulting state changes nothing: autonomous playback cannot override the scrub.\<close>

theorem scrub_start_preempts:
  assumes "handleScrubStart x s = Inr s'" and "timelineRef s = Some r" and "videoRef s = Some v"
  shows "isScrubbing s' \<and> previewEndTimeRef s' = None \<and> wasPlayingRef s' = (\<not> paused v)
    \<and> (\<exists>v'. videoRef s' = Some v' \<and> paused v')
    \<and> (0 < duration s \<longrightarrow> scrub_time r x (duration s) = Finite (currentTime s'))
    \<and> checkTime s' = s'"
proof -
  from assms have "isScrubbing s'" and "previewEndTimeRef s' = None"
    and "wasPlayingRef s' = (\<not> paused v)" and "\<exists>v'. videoRef s' = Some v' \<and> paused v'"
    and "0 < duration s \<longrightarrow> scrub_time r x (duration s) = Finite (currentTime s')"
    by (auto simp: handleScrubStart_def handleScrubMove_def split: if_splits jsnum.splits)
  then show ?thesis by (simp add: checkTime_scrubbing)
qed

theorem scrub_start_preempts_witness:
  "\<exists>s'. handleScrubStart 240 loaded_100 = Inr s' \<and> isScrubbing s' \<and> currentTime s' = 25
     \<and> checkTime s' = s'"
proof -
  have "handleScrubStart 240 loaded_100 = Inr (loaded_100\<lparr>isScrubbing := True,
      currentTime := 25,
      videoRef := Some \<lparr>paused = True, v_currentTime = 25, v_duration = Some 100\<rparr>\<rparr>)"
    (is "_ = Inr ?s'")
    by (simp add: handleScrubStart_def handleScrubMove_def loaded_100_def init_review_def
        timeline_800_def scrub_time_def pointer_x_def v_seek_def clamp_def cutAtTime_def
        cut_10_12_def)
  moreover from this have "isScrubbing ?s' \<and> checkTime ?s' = ?s'"
    using scrub_start_preempts [of 240 loaded_100 ?s' timeline_800]
    by (simp add: loaded_100_def init_review_def)
  ultimately show ?thesis by simp
qed

text \<open>C18: Preview window. With the duration \<open>d\<close> known and the cut starting less than
  one second after the end of the media, \<open>previewCut\<close> (with \<open>play()\<close> granted) sets the
  position to \<open>max(0, start - 1)\<close>, the preview bound to \<open>min(d, end + 1)\<close>, starts
  playback and highlights the cut.\<close>

theorem previewCut_window:
  assumes "videoRef s = Some v" and "v_duration v = Some d" and "duration s = d"
    and "start c - 1 < d" and "0 < d"
  shows "\<exists>v'. videoRef (previewCut c True s) = Some v'
      \<and> v_currentTime v' = max 0 (start c - 1) \<and> \<not> paused v'
      \<and> previewEndTimeRef (previewCut c True s) = Some (min d (cut_end c + 1))
      \<and> activeCutId (previewCut c True s) = Some (cut_id c)"
proof -
  from assms have t: "v_currentTime (v_seek (max 0 (start c - 1)) v) = max 0 (start c - 1)"
    by simp
  with assms have "\<not> v_ended (v_seek (max 0 (start c - 1)) v)"
    by (simp add: v_ended_def)
  with t assms show ?thesis
    by (simp add: previewCut_def Let_def v_play_time)
qed

theorem previewCut_window_witness:
  "\<exists>v'. videoRef (previewCut cut_10_12 True loaded_100) = Some v'
     \<and> v_currentTime v' = 9 \<and> \<not> paused v'
     \<and> previewEndTimeRef (previewCut cut_10_12 True loaded_100) = Some 13
     \<and> activeCutId (previewCut cut_10_12 True loaded_100) = Some ''cut-7''"
  using previewCut_window [of loaded_100
      "\<lparr>paused = True, v_currentTime = 0, v_duration = Some 100\<rparr>" 100 cut_10_12]
  by (simp add: loaded_100_def init_review_def cut_10_12_def)

text \<open>C7: The skip policy is suppressed during a preview: while a preview bound is set, a
  frame tick never assigns the position of the media element, whether or not the position
  lies in an accepted cut.\<close>

theorem preview_tick_never_seeks:
  assumes "previewEndTimeRef s = Some pe" and "videoRef s = Some v"
  shows "\<exists>v'. videoRef (checkTime s) = Some v' \<and> v_currentTime v' = v_currentTime v
           \<and> v_duration v' = v_duration v"
  using assms by (simp add: checkTime_def Let_def split: option.splits)

theorem preview_tick_never_seeks_witness:
  "\<exists>v'. videoRef (checkTime ((previewCut cut_10_12 True loaded_100)
        \<lparr>videoRef := Some \<lparr>paused = False, v_currentTime = 11, v_duration = Some 100\<rparr>\<rparr>))
      = Some v' \<and> v_currentTime v' = 11"
  using preview_tick_never_seeks [of "(previewCut cut_10_12 True loaded_100)
        \<lparr>videoRef := Some \<lparr>paused = False, v_currentTime = 11, v_duration = Some 100\<rparr>\<rparr>" 13]
  by (auto simp: previewCut_def loaded_100_def init_review_def cut_10_12_def Let_def)

text \<open>C17: A preview ends at its bound. In a tick with the media playing and a preview
  bound \<open>pe\<close> set: if the position has reached \<open>pe\<close>, the media element is paused where it
  is, \<open>isPlaying\<close> becomes false and the bound is cleared; if it has not, the media element
  and the bound are left as they are.\<close>

theorem preview_stops_at_bound:
  assumes "playing s v" and "previewEndTimeRef s = Some pe"
  shows "(pe \<le> v_currentTime v \<longrightarrow>
            videoRef (checkTime s) = Some (v_pause v) \<and> \<not> isPlaying (checkTime s)
            \<and> previewEndTimeRef (checkTime s) = None)
       \<and> (v_currentTime v < pe \<longrightarrow>
            videoRef (checkTime s) = Some v \<and> previewEndTimeRef (checkTime s) = Some pe)"
proof (intro conjI impI)
  assume "pe \<le> v_currentTime v"
  note eq = checkTime_preview_end [OF assms this]
  show "videoRef (checkTime s) = Some (v_pause v)" "\<not> isPlaying (checkTime s)"
    "previewEndTimeRef (checkTime s) = None"
    by (simp_all add: eq)
next
  assume "v_currentTime v < pe"
  note eq = checkTime_preview_run [OF assms this]
  from assms show "videoRef (checkTime s) = Some v" "previewEndTimeRef (checkTime s) = Some pe"
    by (simp_all add: eq playing_def)
qed

theorem preview_stops_at_bound_witness:
  "\<exists>s'. run [PreviewCut cut_10_12 True, Advance 4, Tick] loaded_100 = Inr s'
     \<and> videoRef s' = Some \<lparr>paused = True, v_currentTime = 13, v_duration = Some 100\<rparr>
     \<and> \<not> isPlaying s' \<and> previewEndTimeRef s' = None"
proof -
  define s1 where "s1 = (previewCut cut_10_12 True loaded_100)
     \<lparr>videoRef := Some \<lparr>paused = False, v_currentTime = 13, v_duration = Some 100\<rparr>\<rparr>"
  have run: "run [PreviewCut cut_10_12 True, Advance 4, Tick] loaded_100 = Inr (checkTime s1)"
    by (simp add: s1_def previewCut_def loaded_100_def init_review_def cut_10_12_def Let_def
        v_play_def v_seek_def v_ended_def v_advance_def clamp_def)
  have "playing s1 \<lparr>paused = False, v_currentTime = 13, v_duration = Some 100\<rparr>"
    and "previewEndTimeRef s1 = Some 13"
    by (simp_all add: s1_def playing_def previewCut_def loaded_100_def init_review_def
        cut_10_12_def Let_def)
  from preview_stops_at_bound [OF this] run show ?thesis by (simp add: v_pause_def)
qed

text \<open>C19: Forced jump. In a tick with the media playing, no preview bound set and the
  position inside an accepted cut, the position of the media element becomes the end of
  the first such cut (clamped to the duration by the element), that cut is highlighted, the
  displayed time is the position read at the start of the tick, and playback continues.\<close>

theorem tick_jumps_to_cut_end:
  assumes "playing s v" and "previewEndTimeRef s = None"
    and "currentCut (cuts s) (v_currentTime v) = Some c" and "v_duration v = Some d"
  shows "\<exists>v'. videoRef (checkTime s) = Some v' \<and> v_currentTime v' = clamp 0 d (cut_end c)
      \<and> \<not> paused v' \<and> activeCutId (checkTime s) = Some (cut_id c)
      \<and> currentTime (checkTime s) = v_currentTime v"
proof -
  from assms(1) have "\<not> paused v" by (simp add: playing_def)
  with assms(4) show ?thesis by (simp add: checkTime_skip [OF assms(1-3)])
qed

theorem tick_jumps_to_cut_end_witness:
  "\<exists>v'. videoRef (checkTime (loaded_100
        \<lparr>videoRef := Some \<lparr>paused = False, v_currentTime = 11, v_duration = Some 100\<rparr>\<rparr>))
      = Some v' \<and> v_currentTime v' = 12"
  using tick_jumps_to_cut_end [of "loaded_100
        \<lparr>videoRef := Some \<lparr>paused = False, v_currentTime = 11, v_duration = Some 100\<rparr>\<rparr>"
        "\<lparr>paused = False, v_currentTime = 11, v_duration = Some 100\<rparr>" cut_10_12 100]
  by (auto simp: playing_def loaded_100_def init_review_def cut_10_12_def currentCut_def clamp_def)

section \<open>Accepting and rejecting cuts\<close>

lemma toggleCutStatus_nth:
  "k < length cs \<Longrightarrow>
   toggleCutStatus i st cs ! k = (if cut_id (cs ! k) = i then (cs ! k)\<lparr>status := st\<rparr> else cs ! k)"
  by (simp add: toggleCutStatus_def)

lemma toggleCutStatus_Nil [simp]: "toggleCutStatus i st [] = []"
  by (simp add: toggleCutStatus_def)

lemma toggleCutStatus_Cons [simp]:
  "toggleCutStatus i st (c # cs)
     = (if cut_id c = i then c\<lparr>status := st\<rparr> else c) # toggleCutStatus i st cs"
  by (simp add: toggleCutStatus_def)

lemma toggleCutStatus_absent: "i \<notin> cut_id ` set cs \<Longrightarrow> toggleCutStatus i st cs = cs"
  by (induction cs) auto

lemma length_toggleCutStatus [simp]: "length (toggleCutStatus i st cs) = length cs"
  by (simp add: toggleCutStatus_def)

lemma toggleCutStatus_ids [simp]: "map cut_id (toggleCutStatus i st cs) = map cut_id cs"
  by (simp add: toggleCutStatus_def)

lemma wf_cuts_toggleCutStatus [simp, cc_inv]: "wf_cuts (toggleCutStatus i st cs) \<longleftrightarrow> wf_cuts cs"
proof -
  have "list_all wf_cut (toggleCutStatus i st cs) = list_all wf_cut cs"
    by (induction cs) (simp_all add: toggleCutStatus_def)
  then show ?thesis by (simp add: wf_cuts_def)
qed

text \<open>\<open>toggleCutStatus\<close> changes the status of the cuts with the given id to the given
  status and nothing else: the list keeps its length and order, every cut keeps all its
  other fields, cuts with another id keep their status; the operation is idempotent and
  keeps the cut list well formed.\<close>

lemma toggleCutStatus_changes_only_status:
  "map status (toggleCutStatus i st cs) = map (\<lambda>c. if cut_id c = i then st else status c) cs
   \<and> map (\<lambda>c. c\<lparr>status := accepted\<rparr>) (toggleCutStatus i st cs) = map (\<lambda>c. c\<lparr>status := accepted\<rparr>) cs
   \<and> toggleCutStatus i st (toggleCutStatus i st cs) = toggleCutStatus i st cs
   \<and> (wf_cuts cs \<longrightarrow> wf_cuts (toggleCutStatus i st cs))"
proof (intro conjI)
  show "map status (toggleCutStatus i st cs) = map (\<lambda>c. if cut_id c = i then st else status c) cs"
    by (simp add: toggleCutStatus_def)
  show "map (\<lambda>c. c\<lparr>status := accepted\<rparr>) (toggleCutStatus i st cs)
      = map (\<lambda>c. c\<lparr>status := accepted\<rparr>) cs"
    by (simp add: toggleCutStatus_def)
  show "toggleCutStatus i st (toggleCutStatus i st cs) = toggleCutStatus i st cs"
    by (simp add: toggleCutStatus_def)
  show "wf_cuts cs \<longrightarrow> wf_cuts (toggleCutStatus i st cs)"
    by simp
qed

lemma toggleCutStatus_changes_only_status_example:
  "wf_cuts [cut_10_12] \<and> wf_cuts (toggleCutStatus ''cut-7'' rejected [cut_10_12])
   \<and> map status (toggleCutStatus ''cut-7'' rejected [cut_10_12]) = [rejected]"
  using toggleCutStatus_changes_only_status [of "''cut-7''" rejected "[cut_10_12]"]
  by (simp add: cut_10_12_def wf_cut_def)

section \<open>Errors\<close>

lemma timelineRef_step [cc_frame]: "step e s = Inr s' \<Longrightarrow> timelineRef s' = timelineRef s"
  by (cases e)
    (auto simp: handler_defs Let_def split: option.splits if_splits jsnum.splits)

lemma handleScrubMove_total:
  "(\<And>r. timelineRef s = Some r \<Longrightarrow> rect_width r \<noteq> 0) \<Longrightarrow> \<exists>s'. handleScrubMove x s = Inr s'"
  by (auto simp: handleScrubMove_def scrub_time_Finite split: option.splits)

lemma step_total:
  assumes "\<And>r. timelineRef s = Some r \<Longrightarrow> rect_width r \<noteq> 0"
  shows "\<exists>s'. step e s = Inr s'"
proof (cases e)
  case (ScrubStart x)
  show ?thesis
  proof (cases "\<exists>r v. timelineRef s = Some r \<and> videoRef s = Some v")
    case True
    then obtain r v where "timelineRef s = Some r" "videoRef s = Some v" by blast
    with assms ScrubStart show ?thesis
      by (auto simp: handleScrubStart_def intro!: handleScrubMove_total)
  next
    case False
    with ScrubStart show ?thesis by (auto simp: handleScrubStart_def split: option.splits)
  qed
next
  case (ScrubMove x)
  with assms handleScrubMove_total [of s x] show ?thesis by auto
qed simp_all

text \<open>C31: The only handler failure. With a timeline of width zero, both DOM references
  present and a positive duration, \<open>handleScrubMove\<close> and \<open>handleScrubStart\<close> compute
  \<open>NaN\<close> and the assignment of \<open>NaN\<close> to \<open>currentTime\<close> raises a \<open>TypeError\<close>; with a
  timeline of non-zero width no event of any run raises.\<close>

theorem scrub_raises_only_on_zero_width:
  "(timelineRef s = Some r \<and> rect_width r = 0 \<and> videoRef s = Some v \<and> 0 < duration s
      \<longrightarrow> handleScrubMove x s = Inl TypeError \<and> handleScrubStart x s = Inl TypeError)
   \<and> ((\<forall>r. timelineRef s = Some r \<longrightarrow> rect_width r \<noteq> 0) \<longrightarrow> (\<exists>s'. run es s = Inr s'))"
proof (intro conjI impI)
  assume "timelineRef s = Some r \<and> rect_width r = 0 \<and> videoRef s = Some v \<and> 0 < duration s"
  then show "handleScrubMove x s = Inl TypeError" "handleScrubStart x s = Inl TypeError"
    by (simp_all add: handleScrubStart_def handleScrubMove_def scrub_time_zero_width)
next
  assume "\<forall>r. timelineRef s = Some r \<longrightarrow> rect_width r \<noteq> 0"
  then show "\<exists>s'. run es s = Inr s'"
  proof (induction es arbitrary: s)
    case Nil
    show ?case by simp
  next
    case (Cons e es)
    from step_total [of s e] Cons.prems obtain s1 where s1: "step e s = Inr s1" by auto
    with Cons.prems have "\<forall>r. timelineRef s1 = Some r \<longrightarrow> rect_width r \<noteq> 0"
      by (simp add: timelineRef_step)
    from Cons.IH [OF this] s1 show ?case by simp
  qed
qed

theorem scrub_raises_only_on_zero_width_witness:
  "handleScrubStart 240 (loaded_100\<lparr>timelineRef := Some \<lparr>rect_left = 40, rect_width = 0\<rparr>\<rparr>)
     = Inl TypeError
   \<and> (\<exists>s'. run [ScrubStart 240, ScrubMove 300, ScrubEnd True] loaded_100 = Inr s')"
  using scrub_raises_only_on_zero_width [of
      "loaded_100\<lparr>timelineRef := Some \<lparr>rect_left = 40, rect_width = 0\<rparr>\<rparr>"
      "\<lparr>rect_left = 40, rect_width = 0\<rparr>"
      "\<lparr>paused = True, v_currentTime = 0, v_duration = Some 100\<rparr>" 240 "[]"]
    scrub_raises_only_on_zero_width [of loaded_100 undefined undefined 0
      "[ScrubStart 240, ScrubMove 300, ScrubEnd True]"]
  by (simp add: loaded_100_def init_review_def timeline_800_def)

end
