(* ===== verification/Review_Modes.thy ===== *)
theory Review_Modes
  imports Review_Phase
begin

text \<open>
  The playback modes of the specification (Idle, Playing, Scrubbing, PreviewingSegment) as
  an abstraction of the review component. The source has no mode variable: \<open>mode_of\<close>
  reads the mode off \<open>isScrubbing\<close>, the \<open>paused\<close> flag of the media element and the preview
  bound. \<open>mode_step\<close> is the abstract machine: for each event, the mode changes it may
  cause. The refinement theorem says that every step of the component is a step of the
  abstract machine; what the abstract machine forbids (a tick that starts playback, an
  event other than a scrub start that enters Scrubbing, ...) therefore never happens.
\<close>

datatype PlaybackMode = Idle | Playing | Scrubbing | PreviewingSegment

definition mode_of :: "review_state \<Rightarrow> PlaybackMode" where
  "mode_of s =
     (if isScrubbing s then Scrubbing
      else case videoRef s of
        None \<Rightarrow> Idle
      | Some v \<Rightarrow>
          if paused v then Idle
          else if previewEndTimeRef s = None then Playing else PreviewingSegment)"

inductive mode_step :: "PlaybackMode \<Rightarrow> event \<Rightarrow> PlaybackMode \<Rightarrow> bool" where
  stay: "mode_step m e m"
| preview_done: "mode_step PreviewingSegment Tick Idle"
| media_ended: "m = Playing \<or> m = PreviewingSegment \<Longrightarrow> mode_step m (Advance dt) Idle"
| play: "mode_step Idle (ClickPlayPause True) Playing"
| play_resumes_preview: "mode_step Idle (ClickPlayPause True) PreviewingSegment"
| pause: "m = Playing \<or> m = PreviewingSegment \<Longrightarrow> mode_step m (ClickPlayPause a) Idle"
| preview: "m \<noteq> Scrubbing \<Longrightarrow> mode_step m (PreviewCut c a) PreviewingSegment"
| skip_ends_preview: "mode_step PreviewingSegment (SkipBy secs) Playing"
| scrub_start: "mode_step m (ScrubStart x) Scrubbing"
| scrub_end: "mode_step Scrubbing (ScrubEnd a) m"

inductive_cases mode_step_TickE: "mode_step m Tick m'"
inductive_cases mode_step_to_ScrubbingE: "mode_step m e Scrubbing"
inductive_cases mode_step_from_ScrubbingE: "mode_step Scrubbing e m'"
inductive_cases mode_step_from_IdleE: "mode_step Idle e m'"

lemma mode_step_Tick:
  "mode_step m Tick m' \<Longrightarrow> m' = m \<or> m = PreviewingSegment \<and> m' = Idle"
  by (erule mode_step_TickE) auto

lemma mode_step_to_Scrubbing:
  "mode_step m e Scrubbing \<Longrightarrow> m = Scrubbing \<or> (\<exists>x. e = ScrubStart x)"
  by (erule mode_step_to_ScrubbingE) auto

lemma mode_step_from_Scrubbing:
  "mode_step Scrubbing e m' \<Longrightarrow> m' = Scrubbing \<or> (\<exists>a. e = ScrubEnd a)"
  by (erule mode_step_from_ScrubbingE) auto

lemma mode_step_silent:
  "mode_step m e m' \<Longrightarrow>
   e \<in> {OnPlay, OnPause, PlayResolved, HoverLeave} \<union> range LoadedMetadata
      \<union> range HoverMove \<union> range ScrubMove \<union> {ToggleCutStatus i st |i st. True}
   \<Longrightarrow> m' = m"
  by (erule mode_step.cases) auto

section \<open>The mode after each handler\<close>

lemma mode_of_cases:
  obtains (scrubbing) "isScrubbing s" "mode_of s = Scrubbing"
  | (unmounted) "\<not> isScrubbing s" "videoRef s = None" "mode_of s = Idle"
  | (idle) v where "\<not> isScrubbing s" "videoRef s = Some v" "paused v" "mode_of s = Idle"
  | (playing) v where "playing s v" "previewEndTimeRef s = None" "mode_of s = Playing"
  | (previewing) v pe where "playing s v" "previewEndTimeRef s = Some pe"
      "mode_of s = PreviewingSegment"
  by (cases "videoRef s"; cases "previewEndTimeRef s")
    (auto simp: mode_of_def playing_def split: if_splits)

lemma mode_of_simple [simp]:
  "mode_of (onPlay s) = mode_of s" "mode_of (onPause s) = mode_of s"
  "mode_of (previewCut_then s) = mode_of s" "mode_of (onMouseMove x s) = mode_of s"
  "mode_of (onMouseLeave s) = mode_of s" "mode_of (s\<lparr>cuts := cs\<rparr>) = mode_of s"
  "mode_of (onLoadedMetadata d (s\<lparr>videoRef := map_option (v_loadedmetadata d) (videoRef s)\<rparr>))
     = mode_of s"
  by (auto simp: mode_of_def handler_defs v_loadedmetadata_def split: option.splits)

lemma mode_step_checkTime: "mode_step (mode_of s) Tick (mode_of (checkTime s))"
proof (cases s rule: checkTime_cases)
  case (preview_end v pe)
  then have "mode_of s = PreviewingSegment" by (simp add: mode_of_def playing_def)
  moreover from preview_end have "mode_of (checkTime s) = Idle"
    by (simp add: checkTime_preview_end [OF preview_end] mode_of_def playing_def)
  ultimately show ?thesis by (simp add: mode_step.preview_done)
next
  case (preview_run v pe)
  then have "mode_of (checkTime s) = mode_of s"
    by (simp add: checkTime_preview_run [OF preview_run] mode_of_def playing_def)
  then show ?thesis by (simp add: mode_step.stay)
next
  case (skip v c)
  then have "mode_of (checkTime s) = mode_of s"
    by (simp add: checkTime_skip [OF skip] mode_of_def playing_def)
  then show ?thesis by (simp add: mode_step.stay)
next
  case (no_skip v)
  then have "mode_of (checkTime s) = mode_of s"
    by (simp add: checkTime_no_skip [OF no_skip] mode_of_def playing_def)
  then show ?thesis by (simp add: mode_step.stay)
qed (simp_all add: checkTime_branches mode_of_def mode_step.stay)

lemma mode_step_advance:
  "mode_step (mode_of s) (Advance dt) (mode_of (s\<lparr>videoRef := map_option (v_advance dt) (videoRef s)\<rparr>))"
  by (cases s rule: mode_of_cases)
    (auto simp: mode_of_def playing_def v_advance_def intro: mode_step.intros
      split: option.splits)

lemma mode_step_click:
  "mode_step (mode_of s) (ClickPlayPause a) (mode_of (onClickPlayPause a s))"
  by (cases s rule: mode_of_cases; cases a)
    (auto simp: mode_of_def playing_def onClickPlayPause_def intro: mode_step.intros
      split: option.splits)

lemma mode_step_previewCut:
  "mode_step (mode_of s) (PreviewCut c a) (mode_of (previewCut c a s))"
  by (cases s rule: mode_of_cases)
    (auto simp: mode_of_def playing_def previewCut_def Let_def intro: mode_step.intros
      split: option.splits)

lemma mode_step_skip: "mode_step (mode_of s) (SkipBy secs) (mode_of (skip secs s))"
  by (cases s rule: mode_of_cases)
    (auto simp: mode_of_def playing_def skip_def Let_def intro: mode_step.intros
      split: option.splits)

lemma isScrubbing_handleScrubMove:
  "handleScrubMove x s = Inr s' \<Longrightarrow> isScrubbing s' = isScrubbing s"
  by (auto simp: handleScrubMove_def split: option.splits if_splits jsnum.splits)

lemma mode_of_handleScrubMove:
  "handleScrubMove x s = Inr s' \<Longrightarrow> mode_of s' = mode_of s"
  by (auto simp: handleScrubMove_def mode_of_def split: option.splits if_splits jsnum.splits)

lemma mode_step_scrubStart:
  assumes "handleScrubStart x s = Inr s'"
  shows "mode_step (mode_of s) (ScrubStart x) (mode_of s')"
proof (cases "\<exists>r v. timelineRef s = Some r \<and> videoRef s = Some v")
  case True
  with assms have "isScrubbing s'"
    by (auto simp: handleScrubStart_def dest!: isScrubbing_handleScrubMove)
  then show ?thesis by (simp add: mode_of_def mode_step.scrub_start)
next
  case False
  with assms have "s' = s" by (auto simp: handleScrubStart_def split: option.splits)
  then show ?thesis by (simp add: mode_step.stay)
qed

lemma mode_step_scrubEnd: "mode_step (mode_of s) (ScrubEnd a) (mode_of (handleScrubEnd a s))"
proof (cases "isScrubbing s")
  case True
  then show ?thesis by (simp add: mode_of_def mode_step.scrub_end)
next
  case False
  then show ?thesis by (simp add: handleScrubEnd_def mode_step.stay)
qed

section \<open>Refinement\<close>

lemma step_mode_step:
  assumes "step e s = Inr s'"
  shows "mode_step (mode_of s) e (mode_of s')"
proof (cases e)
  case Tick
  with assms show ?thesis using mode_step_checkTime by auto
next
  case (Advance dt)
  with assms show ?thesis using mode_step_advance by auto
next
  case (ClickPlayPause a)
  with assms show ?thesis using mode_step_click by auto
next
  case (PreviewCut c a)
  with assms show ?thesis using mode_step_previewCut by auto
next
  case (SkipBy secs)
  with assms show ?thesis using mode_step_skip by auto
next
  case (ScrubStart x)
  with assms show ?thesis using mode_step_scrubStart by auto
next
  case (ScrubMove x)
  with assms show ?thesis
    by (auto simp: mode_step.stay dest: mode_of_handleScrubMove split: if_splits)
next
  case (ScrubEnd a)
  with assms show ?thesis using mode_step_scrubEnd by auto
qed (use assms in \<open>auto simp: mode_step.stay\<close>)

fun mode_run :: "PlaybackMode \<Rightarrow> event list \<Rightarrow> PlaybackMode \<Rightarrow> bool" where
  "mode_run m [] m' \<longleftrightarrow> m = m'"
| "mode_run m (e # es) m' \<longleftrightarrow> (\<exists>m1. mode_step m e m1 \<and> mode_run m1 es m')"

text \<open>C3: The review component refines the abstract mode machine: along every run of the
  component that does not raise, the sequence of playback modes is a run of \<open>mode_step\<close>
  over the same events.\<close>

theorem run_refines_mode_run:
  "run es s = Inr s' \<Longrightarrow> mode_run (mode_of s) es (mode_of s')"
proof (induction es arbitrary: s)
  case Nil
  then show ?case by simp
next
  case (Cons e es)
  then obtain s1 where s1: "step e s = Inr s1" and rest: "run es s1 = Inr s'"
    by (auto split: sum.splits)
  from step_mode_step [OF s1] Cons.IH [OF rest] show ?case by auto
qed

theorem run_refines_mode_run_witness:
  "run [PreviewCut cut_10_12 True, Advance 4, Tick] loaded_100
     = Inr (checkTime ((previewCut cut_10_12 True loaded_100)
         \<lparr>videoRef := Some \<lparr>paused = False, v_currentTime = 13, v_duration = Some 100\<rparr>\<rparr>))
   \<and> mode_run (mode_of loaded_100) [PreviewCut cut_10_12 True, Advance 4, Tick] Idle"
proof -
  let ?s' = "checkTime ((previewCut cut_10_12 True loaded_100)
         \<lparr>videoRef := Some \<lparr>paused = False, v_currentTime = 13, v_duration = Some 100\<rparr>\<rparr>)"
  have run: "run [PreviewCut cut_10_12 True, Advance 4, Tick] loaded_100 = Inr ?s'"
    by (simp add: previewCut_def loaded_100_def init_review_def cut_10_12_def Let_def
        v_play_def v_seek_def v_ended_def v_advance_def clamp_def)
  have "mode_of ?s' = Idle"
    by (simp add: mode_of_def checkTime_def previewCut_def loaded_100_def init_review_def
        cut_10_12_def Let_def)
  with run_refines_mode_run [OF run] run show ?thesis by simp
qed

text \<open>C22: What each kind of event can do to the playback mode. A frame tick leaves the
  mode unchanged or ends a preview (it never starts playback and never ends a scrub);
  Scrubbing is entered only by a scrub start and left only by a scrub end; the media
  events \<open>play\<close>, \<open>pause\<close>, \<open>loadedmetadata\<close>, pointer moves and status toggles never
  change the mode.\<close>

theorem mode_changes_by_event:
  assumes "step e s = Inr s'"
  shows "(e = Tick \<longrightarrow> mode_of s' = mode_of s \<or> mode_of s = PreviewingSegment \<and> mode_of s' = Idle)
    \<and> (mode_of s' = Scrubbing \<longrightarrow> mode_of s = Scrubbing \<or> (\<exists>x. e = ScrubStart x))
    \<and> (mode_of s = Scrubbing \<longrightarrow> mode_of s' = Scrubbing \<or> (\<exists>a. e = ScrubEnd a))
    \<and> (e \<in> {OnPlay, OnPause, PlayResolved, HoverLeave} \<union> range LoadedMetadata
          \<union> range HoverMove \<union> range ScrubMove \<union> {ToggleCutStatus i st |i st. True}
        \<longrightarrow> mode_of s' = mode_of s)"
  using step_mode_step [OF assms]
    mode_step_Tick [of "mode_of s" "mode_of s'"]
    mode_step_to_Scrubbing [of "mode_of s" e]
    mode_step_from_Scrubbing [of e "mode_of s'"]
    mode_step_silent [of "mode_of s" e "mode_of s'"]
  by (intro conjI impI) simp_all

theorem mode_changes_by_event_witness:
  "step Tick loaded_100 = Inr (checkTime loaded_100) \<and> mode_of (checkTime loaded_100) = Idle"
  using mode_changes_by_event [of Tick loaded_100 "checkTime loaded_100"]
  by (simp add: mode_of_def loaded_100_def init_review_def checkTime_def)

end
