(* ===== verification/Review_Runs.thy ===== *)
theory Review_Runs
  imports Review_Modes
begin

text \<open>
  Runs of the review component: sequences of frame ticks during normal playback and the
  skip policy they implement, and the runs on which the component leaves the behaviour
  the specification describes: the changes of mode that its table omits, and the previews
  that it rejects and the component carries out.
\<close>

section \<open>Successive ticks implement the skip policy\<close>

text \<open>
  \<open>skipping s v d\<close>: the state of normal playback in which the tick applies the skip
  policy. The media is playing from a known duration \<open>d\<close>, no preview bound is set, and
  every accepted cut ends within the media, so that the element does not clamp a jump.
\<close>

definition skipping :: "review_state \<Rightarrow> video \<Rightarrow> seconds \<Rightarrow> bool" where
  "skipping s v d \<longleftrightarrow>
     playing s v \<and> previewEndTimeRef s = None \<and> v_duration v = Some d \<and> video_ok v
     \<and> list_all (\<lambda>c. is_accepted c \<longrightarrow> cut_end c \<le> d) (cuts s)"

lemma skipping_tick:
  assumes "skipping s v d"
  shows "\<exists>v'. skipping (checkTime s) v' d
           \<and> v_currentTime v' = skip_jump (cuts s) (v_currentTime v)"
proof (cases "currentCut (cuts s) (v_currentTime v)")
  case None
  with assms have "checkTime s = s\<lparr>currentTime := v_currentTime v,
      activeCutId := map_option cut_id (upcomingCut (cuts s) (v_currentTime v))\<rparr>"
    by (simp add: skipping_def checkTime_no_skip)
  with assms None have "skipping (checkTime s) v d" "v_currentTime v = skip_jump (cuts s) (v_currentTime v)"
    by (simp_all add: skipping_def playing_def)
  then show ?thesis by blast
next
  case (Some c)
  from currentCut_SomeD [OF Some] assms
  have c: "0 \<le> cut_end c" "cut_end c \<le> d"
    by (auto simp: skipping_def list_all_iff contains_def video_ok_def)
  from assms Some have eq: "checkTime s = s\<lparr>currentTime := v_currentTime v,
      activeCutId := Some (cut_id c), videoRef := Some (v_seek (cut_end c) v)\<rparr>"
    by (simp add: skipping_def checkTime_skip)
  from assms c have "v_currentTime (v_seek (cut_end c) v) = cut_end c"
    by (simp add: skipping_def)
  moreover from assms c have "skipping (checkTime s) (v_seek (cut_end c) v) d"
    by (simp add: eq skipping_def playing_def video_ok_seek)
  ultimately show ?thesis using Some by auto
qed

lemma ticks_follow_skip_policy:
  assumes "skipping s v d"
  shows "\<exists>v'. skipping ((checkTime ^^ n) s) v' d
           \<and> cuts ((checkTime ^^ n) s) = cuts s
           \<and> v_currentTime v' = (skip_jump (cuts s) ^^ n) (v_currentTime v)"
proof (induction n)
  case 0
  with assms show ?case by auto
next
  case (Suc n)
  then obtain v' where v': "skipping ((checkTime ^^ n) s) v' d"
    and cs: "cuts ((checkTime ^^ n) s) = cuts s"
    and t: "v_currentTime v' = (skip_jump (cuts s) ^^ n) (v_currentTime v)"
    by blast
  from skipping_tick [OF v'] cs t show ?case by auto
qed

text \<open>C2: Skip convergence of the player. From a state of normal playback (playing, no
  preview, duration known, accepted cuts within the media) and with the media clock
  standing still, at most as many frame ticks as there are accepted cuts bring the media
  element to the position where the skip policy settles: the first position from the
  start on that lies in no accepted cut. Further ticks leave it there.\<close>

theorem ticks_settle:
  assumes "skipping s v d"
  shows "\<exists>n\<le>length (filter is_accepted (cuts s)). \<exists>v'.
           videoRef ((checkTime ^^ n) s) = Some v'
           \<and> v_currentTime v' = skip_settle (cuts s) (v_currentTime v)
           \<and> \<not> covered (cuts s) (v_currentTime v')
           \<and> (\<exists>v''. videoRef (checkTime ((checkTime ^^ n) s)) = Some v''
                 \<and> v_currentTime v'' = v_currentTime v')"
proof -
  define n where "n = skip_count (cuts s) (v_currentTime v)"
  have n: "n \<le> length (filter is_accepted (cuts s))"
    unfolding n_def
    using skip_count_le_pending [of "cuts s" "v_currentTime v"]
      pending_le_accepted [of "cuts s" "v_currentTime v"] by simp
  from ticks_follow_skip_policy [OF assms, of n] obtain v'
    where v': "skipping ((checkTime ^^ n) s) v' d" and cs: "cuts ((checkTime ^^ n) s) = cuts s"
      and t: "v_currentTime v' = skip_settle (cuts s) (v_currentTime v)"
    by (auto simp: n_def skip_settle_funpow)
  from t have nc: "\<not> covered (cuts s) (v_currentTime v')"
    using skip_settle_settled [of "cuts s" "v_currentTime v"] by (simp add: settled_at_def)
  from skipping_tick [OF v'] cs nc obtain v''
    where "videoRef (checkTime ((checkTime ^^ n) s)) = Some v''"
      and "v_currentTime v'' = v_currentTime v'"
    by (auto simp: skipping_def playing_def skip_jump_fixed_iff)
  with v' t nc n show ?thesis by (auto simp: skipping_def playing_def)
qed

definition playing_7 :: review_state where
  "playing_7 = (init_review timeline_800 [cut_5_8, cut_6_12])
     \<lparr>videoRef := Some \<lparr>paused = False, v_currentTime = 7, v_duration = Some 100\<rparr>,
      duration := 100, isPlaying := True\<rparr>"

theorem ticks_settle_witness:
  "\<exists>n\<le>2. \<exists>v'. videoRef ((checkTime ^^ n) playing_7) = Some v' \<and> v_currentTime v' = 12"
proof -
  let ?v = "\<lparr>paused = False, v_currentTime = 7, v_duration = Some 100\<rparr>"
  have sk: "skipping playing_7 ?v 100"
    by (simp add: skipping_def playing_def playing_7_def init_review_def video_ok_def
        example_cuts)
  have cs: "cuts playing_7 = [cut_5_8, cut_6_12]"
    by (simp add: playing_7_def init_review_def)
  have len: "length (filter is_accepted (cuts playing_7)) = 2"
    by (simp add: cs is_accepted_def example_cuts)
  have "currentCut [cut_5_8, cut_6_12] 7 = Some cut_5_8"
    "currentCut [cut_5_8, cut_6_12] 8 = Some cut_6_12" "currentCut [cut_5_8, cut_6_12] 12 = None"
    by (simp_all add: currentCut_def example_cuts)
  then have settle: "skip_settle (cuts playing_7) (v_currentTime ?v) = 12"
    by (simp add: cs example_cuts)
  from ticks_settle [OF sk] obtain n v' where "n \<le> length (filter is_accepted (cuts playing_7))"
    and "videoRef ((checkTime ^^ n) playing_7) = Some v'"
    and "v_currentTime v' = skip_settle (cuts playing_7) (v_currentTime ?v)"
    by blast
  then show ?thesis unfolding len settle by blast
qed

section \<open>Runs outside the specification\<close>

definition cut_150_152 :: CutEvent where
  "cut_150_152 = cut_10_12\<lparr>start := 150, cut_end := 152\<rparr>"

text \<open>A preview before the metadata has arrived: the bound is 0, the seek is not clamped, the
  next tick ends the preview and records the position, and the metadata that arrives then
  clamps the position of the media but not the displayed time.\<close>

lemma preview_before_metadata_run:
  assumes "0 \<le> d" and "d < start c - 1" and "start c \<le> cut_end c"
  shows "run [PreviewCut c True, Tick, LoadedMetadata d] (init_review r cs)
     = Inr ((init_review r cs)
         \<lparr>videoRef := Some \<lparr>paused = True, v_currentTime = d, v_duration = Some d\<rparr>,
          currentTime := start c - 1, duration := d, activeCutId := Some (cut_id c)\<rparr>)"
  using assms
  by (simp add: init_review_def new_video_def previewCut_def checkTime_def onLoadedMetadata_def
      v_loadedmetadata_def v_play_def v_seek_def v_ended_def v_pause_def clamp_def Let_def
      min_def max_def)

lemma preview_before_metadata_enabled:
  assumes "0 \<le> d" and "d < start c - 1" and "start c \<le> cut_end c" and "c \<in> set cs"
  shows "enabled_run [PreviewCut c True, Tick, LoadedMetadata d] (init_review r cs)"
  using assms
  by (simp add: init_review_def new_video_def previewCut_def checkTime_def
      v_play_def v_seek_def v_ended_def v_pause_def Let_def min_def max_def)

lemma previewCut_beyond_duration:
  assumes "videoRef s = Some v" and "v_duration v = Some d" and "duration s = d"
    and "0 \<le> d" and "d \<le> start c - 1" and "start c \<le> cut_end c"
  shows "previewCut c True s
     = s\<lparr>activeCutId := Some (cut_id c), previewEndTimeRef := Some d,
         videoRef := Some (v\<lparr>v_currentTime := 0, paused := False\<rparr>)\<rparr>"
  using assms
  by (simp add: previewCut_def v_play_def v_seek_def v_ended_def clamp_def Let_def min_def max_def)

text \<open>C36: A preview that the specification rejects is carried out. For every cut of the
  list that starts more than a second after the end of the media: previewed before the
  duration is known, one tick and the arrival of the metadata lead to a reachable state
  whose displayed time exceeds the duration; previewed when the duration is known, the
  bound is the duration, the seek is clamped to the end of the media and \<open>play()\<close> at the
  end restarts from 0, so the whole media plays as a preview.\<close>

theorem precondition_commands_not_rejected:
  assumes "c \<in> set cs" and "start c \<le> cut_end c" and "0 \<le> d" and "d < start c - 1"
  shows "(\<exists>s'. run [PreviewCut c True, Tick, LoadedMetadata d] (init_review r cs) = Inr s'
         \<and> reachable s' \<and> duration s' = d \<and> currentTime s' = start c - 1
         \<and> duration s' < currentTime s' \<and> previewEndTimeRef s' = None
         \<and> videoRef s' = Some \<lparr>paused = True, v_currentTime = d, v_duration = Some d\<rparr>)
    \<and> (\<forall>(s::review_state) v. videoRef s = Some v \<and> v_duration v = Some d \<and> duration s = d \<longrightarrow>
          previewCut c True s
            = s\<lparr>activeCutId := Some (cut_id c), previewEndTimeRef := Some d,
                videoRef := Some (v\<lparr>v_currentTime := 0, paused := False\<rparr>)\<rparr>)"
proof (intro conjI allI impI)
  let ?es = "[PreviewCut c True, Tick, LoadedMetadata d]"
  note run = preview_before_metadata_run [OF assms(3,4,2), of r cs]
  from reachable.init preview_before_metadata_enabled [OF assms(3,4,2,1)] run
  have "reachable ((init_review r cs)
         \<lparr>videoRef := Some \<lparr>paused = True, v_currentTime = d, v_duration = Some d\<rparr>,
          currentTime := start c - 1, duration := d, activeCutId := Some (cut_id c)\<rparr>)"
    by (rule reachable_run)
  with run assms(4) show "\<exists>s'. run ?es (init_review r cs) = Inr s'
         \<and> reachable s' \<and> duration s' = d \<and> currentTime s' = start c - 1
         \<and> duration s' < currentTime s' \<and> previewEndTimeRef s' = None
         \<and> videoRef s' = Some \<lparr>paused = True, v_currentTime = d, v_duration = Some d\<rparr>"
    by (simp add: init_review_def)
next
  fix s :: review_state and v
  assume "videoRef s = Some v \<and> v_duration v = Some d \<and> duration s = d"
  with assms show "previewCut c True s
            = s\<lparr>activeCutId := Some (cut_id c), previewEndTimeRef := Some d,
                videoRef := Some (v\<lparr>v_currentTime := 0, paused := False\<rparr>)\<rparr>"
    by (intro previewCut_beyond_duration) simp_all
qed

theorem precondition_commands_not_rejected_witness:
  "cut_150_152 \<in> set [cut_150_152] \<and> start cut_150_152 \<le> cut_end cut_150_152
   \<and> (0::real) \<le> 100 \<and> 100 < start cut_150_152 - 1
   \<and> previewCut cut_150_152 True loaded_100
       = loaded_100\<lparr>activeCutId := Some ''cut-7'', previewEndTimeRef := Some 100,
           videoRef := Some \<lparr>paused = False, v_currentTime = 0, v_duration = Some 100\<rparr>\<rparr>"
proof -
  have h: "cut_150_152 \<in> set [cut_150_152]" "start cut_150_152 \<le> cut_end cut_150_152"
    "(0::real) \<le> 100" "100 < start cut_150_152 - 1"
    by (simp_all add: cut_150_152_def)
  from precondition_commands_not_rejected [OF h, of timeline_800, THEN conjunct2, rule_format,
      of loaded_100 "\<lparr>paused = True, v_currentTime = 0, v_duration = Some 100\<rparr>"]
  have "previewCut cut_150_152 True loaded_100
       = loaded_100\<lparr>activeCutId := Some (cut_id cut_150_152), previewEndTimeRef := Some 100,
           videoRef := Some (\<lparr>paused = True, v_currentTime = 0, v_duration = Some 100\<rparr>
             \<lparr>v_currentTime := 0, paused := False\<rparr>)\<rparr>"
    by (simp add: loaded_100_def)
  with h show ?thesis by (simp add: cut_150_152_def cut_10_12_def)
qed

end
