(* ===== verification/Metrics.thy ===== *)
theory Metrics
  imports CC_Types
begin

text \<open>
  The metrics aggregator: \<open>calculateMetrics\<close> of the application shell
  (\<^verbatim>\<open>src/unnamed/part_000\<close>, the \<open>App\<close> component) and the memoised \<open>stats\<close> of the review
  component (\<^verbatim>\<open>src/components/ReviewPhase.tsx\<close>). Both filter the accepted cuts and add
  their lengths with \<open>reduce\<close>, modelled as \<^const>\<open>foldl\<close> from 0. The lemmas relate the
  fold to \<^const>\<open>sum_list\<close> and give the bounds that hold for well-formed cuts.
\<close>

record review_stats =
  count :: nat
  stats_timeSaved :: seconds

definition calculateMetrics :: "CutEvent list \<Rightarrow> seconds \<Rightarrow> ProcessingMetrics" where
  "calculateMetrics cs od =
     (let acceptedCuts = filter (\<lambda>c. status c = accepted) cs;
          saved = foldl (\<lambda>acc curr. acc + (cut_end curr - start curr)) 0 acceptedCuts
      in \<lparr>originalDuration = od, finalDuration = od - saved,
          cutsCount = length acceptedCuts, timeSaved = saved\<rparr>)"

definition stats :: "CutEvent list \<Rightarrow> review_stats" where
  "stats cs =
     (let accepted_cuts = filter (\<lambda>c. status c = accepted) cs;
          saved = foldl (\<lambda>acc c. acc + (cut_end c - start c)) 0 accepted_cuts
      in \<lparr>count = length accepted_cuts, stats_timeSaved = saved\<rparr>)"

definition accepted_length :: "CutEvent list \<Rightarrow> seconds" where
  "accepted_length cs = sum_list (map cut_length (filter is_accepted cs))"

lemmas metrics_defs [cc_defs] = calculateMetrics_def stats_def

section \<open>The fold is a sum\<close>

lemma accepted_length_Nil [simp]: "accepted_length [] = 0"
  by (simp add: accepted_length_def)

lemma accepted_length_Cons [simp]:
  "accepted_length (c # cs) = (if is_accepted c then cut_length c else 0) + accepted_length cs"
  by (simp add: accepted_length_def)

lemma accepted_length_append [simp]:
  "accepted_length (cs @ ds) = accepted_length cs + accepted_length ds"
  by (simp add: accepted_length_def)

lemma reduce_accepted:
  "foldl (\<lambda>acc c. acc + (cut_end c - start c)) 0 (filter (\<lambda>c. status c = accepted) cs)
     = accepted_length cs"
  by (simp add: foldl_add_sum_list accepted_length_def is_accepted_fun cut_length_fun)

lemma calculateMetrics_simps [simp]:
  "originalDuration (calculateMetrics cs od) = od"
  "timeSaved (calculateMetrics cs od) = accepted_length cs"
  "finalDuration (calculateMetrics cs od) = od - accepted_length cs"
  "cutsCount (calculateMetrics cs od) = length (filter is_accepted cs)"
  by (simp_all add: calculateMetrics_def Let_def reduce_accepted) (simp add: is_accepted_fun)

lemma stats_simps [simp]:
  "stats_timeSaved (stats cs) = accepted_length cs"
  "count (stats cs) = length (filter is_accepted cs)"
  by (simp_all add: stats_def Let_def reduce_accepted) (simp add: is_accepted_fun)

lemma accepted_length_nonneg: "list_all (\<lambda>c. start c \<le> cut_end c) cs \<Longrightarrow> 0 \<le> accepted_length cs"
  by (induction cs) (auto simp: cut_length_def)

lemma accepted_length_le_total:
  "list_all (\<lambda>c. start c \<le> cut_end c) cs \<Longrightarrow> accepted_length cs \<le> sum_list (map cut_length cs)"
  by (induction cs) (auto simp: cut_length_def)

lemma accepted_length_pos:
  assumes "\<forall>c\<in>set cs. status c = accepted \<and> start c < cut_end c" and "cs \<noteq> []"
  shows "0 < accepted_length cs" and "0 < foldl (\<lambda>acc c. acc + (cut_end c - start c)) 0 cs"
proof -
  from assms have "0 < sum_list (map (\<lambda>c. cut_end c - start c) cs)"
  proof (induction cs)
    case Nil
    then show ?case by simp
  next
    case (Cons c cs)
    then show ?case by (cases cs) (auto intro: add_pos_pos)
  qed
  then show "0 < foldl (\<lambda>acc c. acc + (cut_end c - start c)) 0 cs"
    by (simp add: foldl_add_sum_list)
  from assms(1) have "filter is_accepted cs = cs" by (simp add: filter_id_conv is_accepted_def)
  with \<open>0 < sum_list (map (\<lambda>c. cut_end c - start c) cs)\<close> show "0 < accepted_length cs"
    by (simp add: accepted_length_def cut_length_fun)
qed

section \<open>Properties\<close>

definition spec_cuts :: "CutEvent list" where
  "spec_cuts =
     [\<lparr>cut_id = ''cut-0'', cut_type = filler, word = Some ''Um'', start = 2, cut_end = 4,
        confidence = 0.9, status = accepted\<rparr>,
      \<lparr>cut_id = ''cut-1'', cut_type = stutter, word = Some ''I-I'', start = 10, cut_end = 10.5,
        confidence = 0.9, status = accepted\<rparr>,
      \<lparr>cut_id = ''cut-2'', cut_type = cliche, word = Some ''Literally'', start = 20, cut_end = 21,
        confidence = 0.9, status = rejected\<rparr>]"

text \<open>C28: \<open>calculateMetrics\<close> returns the original duration unchanged, the number of
  accepted cuts, the sum of their lengths as the time saved and the difference as the
  final duration, so that final duration plus time saved is the original duration; the
  \<open>stats\<close> of the review component are the same count and the same sum.\<close>

theorem calculateMetrics_correct:
  "originalDuration (calculateMetrics cs od) = od
   \<and> cutsCount (calculateMetrics cs od) = length (filter (\<lambda>c. status c = accepted) cs)
   \<and> timeSaved (calculateMetrics cs od)
       = (\<Sum>c\<leftarrow>filter (\<lambda>c. status c = accepted) cs. cut_end c - start c)
   \<and> finalDuration (calculateMetrics cs od) + timeSaved (calculateMetrics cs od) = od
   \<and> count (stats cs) = cutsCount (calculateMetrics cs od)
   \<and> stats_timeSaved (stats cs) = timeSaved (calculateMetrics cs od)"
proof -
  have saved: "timeSaved (calculateMetrics cs od) = accepted_length cs"
    and final: "finalDuration (calculateMetrics cs od) = od - accepted_length cs"
    and review: "stats_timeSaved (stats cs) = accepted_length cs"
    by simp_all
  have "accepted_length cs = (\<Sum>c\<leftarrow>filter (\<lambda>c. status c = accepted) cs. cut_end c - start c)"
    by (simp add: accepted_length_def is_accepted_fun cut_length_fun)
  with saved final review show ?thesis by (simp add: is_accepted_fun)
qed

text \<open>For cuts with \<open>start \<le> end\<close> the time saved is non-negative and at most the
  total length of all cuts, the final duration is at most the original duration, and the
  number of cuts made is at most the number of cuts.\<close>

lemma calculateMetrics_bounds:
  assumes "list_all (\<lambda>c. start c \<le> cut_end c) cs"
  shows "0 \<le> timeSaved (calculateMetrics cs od)
    \<and> timeSaved (calculateMetrics cs od) \<le> (\<Sum>c\<leftarrow>cs. cut_end c - start c)
    \<and> finalDuration (calculateMetrics cs od) \<le> od
    \<and> cutsCount (calculateMetrics cs od) \<le> length cs"
  using accepted_length_nonneg [OF assms] accepted_length_le_total [OF assms]
  by (simp add: cut_length_fun)

lemma calculateMetrics_bounds_example:
  "timeSaved (calculateMetrics spec_cuts 60) = 2.5
   \<and> cutsCount (calculateMetrics spec_cuts 60) = 2
   \<and> finalDuration (calculateMetrics spec_cuts 60) = 57.5
   \<and> finalDuration (calculateMetrics spec_cuts 60) \<le> 60"
proof -
  have "list_all (\<lambda>c. start c \<le> cut_end c) spec_cuts" by (simp add: spec_cuts_def)
  from calculateMetrics_bounds [OF this, of 60] show ?thesis
    by (simp add: spec_cuts_def is_accepted_def cut_length_def)
qed

end
