(* ===== verification/Review_View.thy ===== *)
theory Review_View
  imports Review_Modes Metrics
begin

text \<open>
  What the review component draws (\<^verbatim>\<open>src/components/ReviewPhase.tsx\<close>, the \<open>useMemo\<close> of the
  waveform, the colour helpers and the JSX returned by the component): every expression of
  the markup that depends on the state is one function of \<^typ>\<open>review_state\<close>, and
  \<open>render\<close> collects them in a record. The buttons are a datatype with the event each one
  raises. Class names and texts that do not depend on the state are left out. The
  bindings of the video element and of the timeline track (\<open>onLoadedMetadata\<close>, \<open>onPlay\<close>,
  \<open>onPause\<close>, \<open>onMouseDown\<close>, \<open>onMouseMove\<close>, \<open>onMouseLeave\<close>) are events of theory
  \<open>Review_Phase\<close>; the buttons \<open>Back\<close> and \<open>Process Video\<close> call the parent and are the events
  \<open>CancelReview\<close> and \<open>ConfirmCuts\<close> of theory \<open>App\<close>.
\<close>

section \<open>Waveform\<close>

text \<open>
  The decoration behind the timeline: 100 bars computed once when the component mounts.
  The loop keeps an \<open>activity\<close> level that is redrawn with probability 0.15, so it takes
  two or three random draws per bar; the draws are read from the sequence \<open>rnd\<close> at the
  running index \<open>k\<close>, as in the mock analysis.
\<close>

definition bar_value :: "nat \<Rightarrow> real \<Rightarrow> real \<Rightarrow> real" where
  "bar_value i activity noise =
     (let baseHeight = (sin (real i * 0.2) + 1) / 2
      in max 0.1 (min 1.0 (baseHeight * activity + noise)))"

fun waveform_loop :: "rng \<Rightarrow> nat \<Rightarrow> nat \<Rightarrow> nat \<Rightarrow> real \<Rightarrow> real list" where
  "waveform_loop rnd 0 i k activity = []"
| "waveform_loop rnd (Suc n) i k activity =
     (let redraw = (rnd k > 0.85);
          activity' = (if redraw then rnd (Suc k) else activity);
          k1 = (if redraw then Suc (Suc k) else Suc k);
          noise = rnd k1 * 0.3
      in bar_value i activity' noise # waveform_loop rnd n (Suc i) (Suc k1) activity')"

definition waveformBars :: "rng \<Rightarrow> real list" where
  "waveformBars rnd = waveform_loop rnd 100 0 0 0.5"

definition bar_height :: "real \<Rightarrow> real" where
  "bar_height height = height * 60"

section \<open>Colours\<close>

text \<open>
  The helpers take the type as a string and fall through to the slate colours; with the
  union type of \<^verbatim>\<open>types.ts\<close> the default branch is the one of \<open>silence\<close>.
\<close>

fun getCutColor :: "CutType \<Rightarrow> bool \<Rightarrow> string" where
  "getCutColor cliche isBg = (if isBg then ''bg-pink-500'' else ''text-pink-400'')"
| "getCutColor filler isBg = (if isBg then ''bg-amber-500'' else ''text-amber-400'')"
| "getCutColor repetition isBg = (if isBg then ''bg-blue-500'' else ''text-blue-400'')"
| "getCutColor stutter isBg = (if isBg then ''bg-purple-500'' else ''text-purple-400'')"
| "getCutColor silence isBg = (if isBg then ''bg-slate-500'' else ''text-slate-400'')"

fun getCutBadgeStyles :: "CutType \<Rightarrow> string" where
  "getCutBadgeStyles cliche = ''bg-pink-500/20 text-pink-400''"
| "getCutBadgeStyles filler = ''bg-amber-500/20 text-amber-400''"
| "getCutBadgeStyles repetition = ''bg-blue-500/20 text-blue-400''"
| "getCutBadgeStyles stutter = ''bg-purple-500/20 text-purple-400''"
| "getCutBadgeStyles silence = ''bg-slate-500/20 text-slate-400''"

definition legend :: "(string \<times> string) list" where
  "legend = [(''Filler'', ''bg-amber-500''), (''Clich'' @ [CHR 0xE9], ''bg-pink-500''),
             (''Stutter'', ''bg-purple-500''), (''Repeat'', ''bg-blue-500''),
             (''Silence'', ''bg-slate-500'')]"

section \<open>Header and overlays\<close>

record header_info =
  hd_selected :: string
  hd_removed :: string

definition header :: "CutEvent list \<Rightarrow> header_info" where
  "header cs =
     \<lparr>hd_selected = nat_toString (count (stats cs)) @ '' cuts selected'',
      hd_removed = ''-'' @ toFixed 1 (stats_timeSaved (stats cs)) @ ''s removed''\<rparr>"

datatype overlay = SkippingBadge | PreviewingBadge

definition truthy :: "string option \<Rightarrow> bool" where
  "truthy x \<longleftrightarrow> (case x of None \<Rightarrow> False | Some i \<Rightarrow> i \<noteq> [])"

definition overlays :: "review_state \<Rightarrow> overlay list" where
  "overlays s =
     (if truthy (activeCutId s) \<and> \<not> isScrubbing s \<and> previewEndTimeRef s = None
      then [SkippingBadge] else [])
     @ (if previewEndTimeRef s \<noteq> None then [PreviewingBadge] else [])"

section \<open>Timeline\<close>

record marker =
  mk_colour :: string
  mk_active :: bool
  mk_left :: jsnum
  mk_width :: jsnum

definition cut_marker :: "review_state \<Rightarrow> CutEvent \<Rightarrow> marker" where
  "cut_marker s c =
     \<lparr>mk_colour = (if status c = accepted then getCutColor (cut_type c) True
                   else ''bg-slate-700''),
      mk_active = (activeCutId s = Some (cut_id c)),
      mk_left = marker_left c (duration s),
      mk_width = marker_width c (duration s)\<rparr>"

definition jsnum_percent :: "jsnum \<Rightarrow> seconds \<Rightarrow> jsnum" where
  "jsnum_percent t d = js_mul (jsnum_div t d) 100"

definition ghost_playhead :: "review_state \<Rightarrow> jsnum option" where
  "ghost_playhead s =
     (if \<not> isScrubbing s then map_option (\<lambda>h. jsnum_percent h (duration s)) (hoverTime s)
      else None)"

definition jsnum_formatTimeExact :: "jsnum \<Rightarrow> string" where
  "jsnum_formatTimeExact x =
     (case x of
        Finite t \<Rightarrow> formatTimeExact t
      | PosInfinity \<Rightarrow> ''Infinity:NaN:NaN''
      | NegInfinity \<Rightarrow> ''-Infinity:NaN:NaN''
      | NaN \<Rightarrow> ''NaN:NaN:NaN'')"

record tooltip_info =
  tt_left :: jsnum
  tt_label :: string

definition tooltip :: "review_state \<Rightarrow> tooltip_info option" where
  "tooltip s =
     (case (if isScrubbing s then Some (Finite (currentTime s)) else hoverTime s) of
        None \<Rightarrow> None
      | Some t \<Rightarrow>
          if duration s > 0
          then Some \<lparr>tt_left = jsnum_percent t (duration s), tt_label = jsnum_formatTimeExact t\<rparr>
          else None)"

record timeline_view =
  tl_cursor :: string
  tl_progress :: jsnum
  tl_markers :: "marker list"
  tl_ghost :: "jsnum option"
  tl_playhead :: jsnum
  tl_playhead_wide :: bool
  tl_tooltip :: "tooltip_info option"

definition timeline :: "review_state \<Rightarrow> timeline_view" where
  "timeline s =
     \<lparr>tl_cursor = (if isScrubbing s then ''cursor-grabbing'' else ''cursor-pointer''),
      tl_progress = percent_of (currentTime s) (duration s),
      tl_markers = map (cut_marker s) (cuts s),
      tl_ghost = ghost_playhead s,
      tl_playhead = percent_of (currentTime s) (duration s),
      tl_playhead_wide = isScrubbing s,
      tl_tooltip = tooltip s\<rparr>"

section \<open>Transport controls\<close>

definition time_display :: "review_state \<Rightarrow> string" where
  "time_display s = formatTime (currentTime s) @ '' / '' @ formatTime (duration s)"

datatype transport_button = Rewind10 | Back5 | PlayPause | Forward5 | FastForward10

fun button_event :: "transport_button \<Rightarrow> bool \<Rightarrow> event" where
  "button_event Rewind10 allowed = SkipBy (- 10)"
| "button_event Back5 allowed = SkipBy (- 5)"
| "button_event PlayPause allowed = ClickPlayPause allowed"
| "button_event Forward5 allowed = SkipBy 5"
| "button_event FastForward10 allowed = SkipBy 10"

datatype play_icon = PauseIcon | PlayIcon

definition play_pause_icon :: "review_state \<Rightarrow> play_icon" where
  "play_pause_icon s = (if isPlaying s then PauseIcon else PlayIcon)"

section \<open>Cut list\<close>

record cut_item =
  ci_key :: string
  ci_active :: bool
  ci_dimmed :: bool
  ci_badge :: string
  ci_type :: CutType
  ci_word :: "string option"
  ci_time :: string
  ci_reject_lit :: bool
  ci_accept_lit :: bool

definition cut_list_item :: "review_state \<Rightarrow> CutEvent \<Rightarrow> cut_item" where
  "cut_list_item s c =
     \<lparr>ci_key = cut_id c,
      ci_active = (activeCutId s = Some (cut_id c)),
      ci_dimmed = (status c = rejected),
      ci_badge = getCutBadgeStyles (cut_type c),
      ci_type = cut_type c,
      ci_word = word c,
      ci_time = formatTimeExact (start c),
      ci_reject_lit = (status c = rejected),
      ci_accept_lit = (status c = accepted)\<rparr>"

datatype item_button = PreviewButton | RejectButton | AcceptButton

fun item_event :: "CutEvent \<Rightarrow> item_button \<Rightarrow> bool \<Rightarrow> event" where
  "item_event c PreviewButton allowed = PreviewCut c allowed"
| "item_event c RejectButton allowed = ToggleCutStatus (cut_id c) rejected"
| "item_event c AcceptButton allowed = ToggleCutStatus (cut_id c) accepted"

datatype cut_list_view = NoCutsDetected | CutItems "cut_item list"

definition cut_list :: "review_state \<Rightarrow> cut_list_view" where
  "cut_list s =
     (if length (cuts s) = 0 then NoCutsDetected else CutItems (map (cut_list_item s) (cuts s)))"

section \<open>The whole view\<close>

record review_view =
  rv_header :: header_info
  rv_overlays :: "overlay list"
  rv_timeline :: timeline_view
  rv_time :: string
  rv_icon :: play_icon
  rv_list :: cut_list_view

definition render :: "review_state \<Rightarrow> review_view" where
  "render s =
     \<lparr>rv_header = header (cuts s), rv_overlays = overlays s, rv_timeline = timeline s,
      rv_time = time_display s, rv_icon = play_pause_icon s, rv_list = cut_list s\<rparr>"

lemmas view_defs [cc_defs] =
  overlays_def truthy_def cut_marker_def ghost_playhead_def tooltip_def timeline_def
  time_display_def play_pause_icon_def cut_list_item_def cut_list_def render_def header_def

section \<open>The waveform stays in its box\<close>

lemma bar_value_bounds: "1 / 10 \<le> bar_value i a n \<and> bar_value i a n \<le> 1"
  by (simp add: bar_value_def Let_def)

lemma length_waveform_loop [simp]: "length (waveform_loop rnd n i k a) = n"
  by (induction n arbitrary: i k a) (simp_all add: Let_def)

lemma waveform_loop_bounds:
  "x \<in> set (waveform_loop rnd n i k a) \<Longrightarrow> 1 / 10 \<le> x \<and> x \<le> 1"
proof (induction n arbitrary: i k a)
  case 0
  then show ?case by simp
next
  case (Suc n)
  then show ?case using bar_value_bounds by (auto simp: Let_def)
qed

lemma waveform_loop_half:
  "waveform_loop half_rng n i k (1 / 2)
     = map (\<lambda>j. bar_value j (1 / 2) (3 / 20)) [i..<i + n]"
proof (induction n arbitrary: i k)
  case 0
  then show ?case by simp
next
  case (Suc n)
  have "[i..<i + Suc n] = i # [Suc i..<Suc i + n]" by (simp add: upt_conv_Cons)
  with Suc show ?case by (simp add: Let_def half_rng_def)
qed

section \<open>Colours agree\<close>

lemma getCutColor_inject [simp]: "getCutColor t b = getCutColor t' b \<longleftrightarrow> t = t'"
  by (cases t; cases t'; simp)

lemma getCutBadgeStyles_colours:
  "getCutBadgeStyles t = getCutColor t True @ ''/20 '' @ getCutColor t False"
  by (cases t) simp_all

lemma legend_colours:
  "map snd legend = map (\<lambda>t. getCutColor t True) [filler, cliche, stutter, repetition, silence]"
  by (simp add: legend_def)

lemma marker_colour_grey_iff:
  "mk_colour (cut_marker s c) = ''bg-slate-700'' \<longleftrightarrow> status c = rejected"
  by (cases "status c"; cases "cut_type c") (simp_all add: cut_marker_def)

section \<open>Overlays\<close>

lemma overlays_cases:
  "overlays s = (if previewEndTimeRef s \<noteq> None then [PreviewingBadge]
                 else if truthy (activeCutId s) \<and> \<not> isScrubbing s then [SkippingBadge] else [])"
  by (simp add: overlays_def)

lemma length_overlays: "length (overlays s) \<le> 1"
  by (simp add: overlays_cases)

lemma overlays_previewing:
  "mode_of s = PreviewingSegment \<Longrightarrow> overlays s = [PreviewingBadge]"
  by (auto simp: mode_of_def overlays_cases split: if_splits option.splits)

lemma overlays_scrub_start:
  "handleScrubStart x s = Inr s' \<Longrightarrow> timelineRef s \<noteq> None \<Longrightarrow> videoRef s \<noteq> None
   \<Longrightarrow> overlays s' = []"
  by (auto simp: handleScrubStart_def handleScrubMove_def overlays_cases
      split: option.splits if_splits jsnum.splits)

section \<open>The highlighted cut is a cut of the list\<close>

definition active_ok :: "review_state \<Rightarrow> bool" where
  "active_ok s \<longleftrightarrow>
     (case activeCutId s of None \<Rightarrow> True | Some i \<Rightarrow> i \<in> cut_id ` set (cuts s))"

lemma active_ok_iff:
  "active_ok s \<longleftrightarrow> (\<forall>i. activeCutId s = Some i \<longrightarrow> i \<in> cut_id ` set (cuts s))"
  by (simp add: active_ok_def split: option.splits)

lemma active_ok_init [simp]: "active_ok (init_review r cs)"
  by (simp add: active_ok_def init_review_def)

lemma active_ok_frame:
  "activeCutId s' = activeCutId s \<Longrightarrow> cut_id ` set (cuts s') = cut_id ` set (cuts s)
   \<Longrightarrow> active_ok s' \<longleftrightarrow> active_ok s"
  by (simp add: active_ok_iff)

lemma cut_id_toggleCutStatus [simp]: "map cut_id (toggleCutStatus i st cs) = map cut_id cs"
  by (induction cs) (simp_all add: toggleCutStatus_def)

lemma cut_id_set_toggleCutStatus [simp]:
  "cut_id ` set (toggleCutStatus i st cs) = cut_id ` set cs"
  using cut_id_toggleCutStatus [of i st cs] by (metis set_map)

lemma active_ok_checkTime [cc_inv]: "active_ok s \<Longrightarrow> active_ok (checkTime s)"
  by (auto simp: active_ok_iff checkTime_def Let_def split: option.splits if_splits
      dest!: currentCut_SomeD upcomingCut_SomeD currentPreviewCut_SomeD)

lemma active_ok_previewCut [cc_inv]: "c \<in> set (cuts s) \<Longrightarrow> active_ok (previewCut c a s)"
  by (simp add: active_ok_iff previewCut_def Let_def split: option.splits)

lemma active_ok_handleScrubMove [cc_inv]:
  "handleScrubMove x s = Inr s' \<Longrightarrow> active_ok s \<Longrightarrow> active_ok s'"
  by (auto simp: active_ok_iff handleScrubMove_def
      split: option.splits if_splits jsnum.splits dest!: cutAtTime_SomeD)

lemma handleScrubStart_via_move:
  "handleScrubStart x s = Inr s' \<Longrightarrow>
   s' = s \<or> (\<exists>s1. handleScrubMove x s1 = Inr s' \<and> activeCutId s1 = activeCutId s
                \<and> cuts s1 = cuts s)"
  by (auto simp: handleScrubStart_def split: option.splits)

lemma active_ok_handleScrubStart [cc_inv]:
  assumes "handleScrubStart x s = Inr s'" and "active_ok s"
  shows "active_ok s'"
proof -
  from handleScrubStart_via_move [OF assms(1)] consider "s' = s"
    | s1 where "handleScrubMove x s1 = Inr s'" "activeCutId s1 = activeCutId s" "cuts s1 = cuts s"
    by blast
  then show ?thesis
  proof cases
    case 1
    with assms(2) show ?thesis by simp
  next
    case 2
    from 2(2,3) assms(2) have "active_ok s1" by (simp add: active_ok_iff)
    with 2(1) show ?thesis by (rule active_ok_handleScrubMove)
  qed
qed

lemma active_ok_step:
  assumes "active_ok s" and "enabled e s" and "step e s = Inr s'"
  shows "active_ok s'"
proof (cases e)
  case Tick
  with assms show ?thesis by (auto intro: active_ok_checkTime)
next
  case (PreviewCut c a)
  with assms show ?thesis by (auto intro: active_ok_previewCut)
next
  case (ScrubStart x)
  with assms show ?thesis by (auto intro: active_ok_handleScrubStart)
next
  case (ScrubMove x)
  with assms show ?thesis by (auto intro: active_ok_handleScrubMove split: if_splits)
qed (use assms in \<open>auto simp: active_ok_iff handler_defs Let_def split: option.splits if_splits\<close>)

lemma reachable_active_ok: "reachable s \<Longrightarrow> active_ok s"
  by (induction rule: reachable.induct) (auto intro: active_ok_step)

lemma filter_id_distinct:
  "distinct (map f xs) \<Longrightarrow> x \<in> set xs \<Longrightarrow> filter (\<lambda>y. f y = f x) xs = [x]"
proof (induction xs)
  case Nil
  then show ?case by simp
next
  case (Cons y ys)
  show ?case
  proof (cases "y = x")
    case True
    with Cons.prems have "f x \<notin> f ` set ys" by simp
    then have "\<forall>z\<in>set ys. f z \<noteq> f x" by (metis imageI)
    then have "filter (\<lambda>z. f z = f x) ys = []" by (simp add: filter_empty_conv)
    with True show ?thesis by simp
  next
    case False
    with Cons show ?thesis by auto
  qed
qed

lemma active_marker_unique:
  assumes "distinct (map cut_id cs)" and "c \<in> set cs" and "activeCutId s = Some (cut_id c)"
  shows "filter mk_active (map (cut_marker s) cs) = [cut_marker s c]"
    and "filter ci_active (map (cut_list_item s) cs) = [cut_list_item s c]"
proof -
  have "(mk_active \<circ> cut_marker s) = (\<lambda>y. cut_id y = cut_id c)"
    "(ci_active \<circ> cut_list_item s) = (\<lambda>y. cut_id y = cut_id c)"
    using assms(3) by (auto simp: cut_marker_def cut_list_item_def fun_eq_iff)
  with filter_id_distinct [OF assms(1,2)]
  show "filter mk_active (map (cut_marker s) cs) = [cut_marker s c]"
    and "filter ci_active (map (cut_list_item s) cs) = [cut_list_item s c]"
    by (simp_all add: filter_map)
qed

section \<open>Markers\<close>

lemma marker_geometry:
  assumes "wf_cut c" and "cut_end c \<le> d" and "duration s = d"
  shows "\<exists>l w. mk_left (cut_marker s c) = Finite l \<and> mk_width (cut_marker s c) = Finite w
           \<and> 0 \<le> l \<and> l < 100 \<and> 1 / 2 \<le> w \<and> l + w \<le> max 100 (l + 1 / 2)"
proof -
  from assms have d: "0 < d" and sd: "start c < d" and s0: "0 \<le> start c"
    by (simp_all add: wf_cut_def)
  define l where "l = start c / d * 100"
  define w where "w = (cut_end c - start c) / d * 100"
  from d assms(3) have "mk_left (cut_marker s c) = Finite l"
    "mk_width (cut_marker s c) = Finite (max (1 / 2) w)"
    by (simp_all add: cut_marker_def marker_left_def marker_width_def l_def w_def)
  moreover from d s0 sd have "0 \<le> l" "l < 100" by (simp_all add: l_def field_simps)
  moreover from d assms(2) have "l + w \<le> 100"
    by (simp add: l_def w_def field_simps)
  then have "l + max (1 / 2) w \<le> max 100 (l + 1 / 2)" by (auto simp: max_def)
  moreover have "1 / 2 \<le> max (1 / 2) w" by simp
  ultimately show ?thesis by blast
qed

section \<open>Properties\<close>

definition previewing_100 :: review_state where
  "previewing_100 = previewCut cut_10_12 True loaded_100"

lemma reachable_previewing_100: "reachable previewing_100"
proof -
  have "enabled (PreviewCut cut_10_12 True) loaded_100"
    by (simp add: loaded_100_def init_review_def)
  moreover have "step (PreviewCut cut_10_12 True) loaded_100 = Inr previewing_100"
    by (simp add: previewing_100_def)
  ultimately show ?thesis using reachable_loaded_100 by (blast intro: reachable.step)
qed

text \<open>C21: In every state that the review component can reach, the highlighted cut is a cut
  of the list: \<open>activeCutId\<close> is only ever set from a cut found in \<open>cuts\<close>, and toggling
  keeps the ids. When the ids are distinct, exactly one timeline marker and exactly one
  item of the cut list are drawn as active, both for that cut.\<close>

theorem highlight_is_a_cut:
  assumes "reachable s" and "activeCutId s = Some i" and "distinct (map cut_id (cuts s))"
  shows "\<exists>c\<in>set (cuts s). cut_id c = i
           \<and> filter mk_active (tl_markers (timeline s)) = [cut_marker s c]
           \<and> rv_list (render s) = CutItems (map (cut_list_item s) (cuts s))
           \<and> filter ci_active (map (cut_list_item s) (cuts s)) = [cut_list_item s c]"
proof -
  from reachable_active_ok [OF assms(1)] assms(2)
  obtain c where c: "c \<in> set (cuts s)" "cut_id c = i"
    by (auto simp: active_ok_iff)
  with assms(2) have a: "activeCutId s = Some (cut_id c)" by simp
  from c(1) have "cuts s \<noteq> []" by auto
  with c active_marker_unique [OF assms(3) c(1) a] show ?thesis
    by (auto simp: timeline_def render_def cut_list_def)
qed

theorem highlight_is_a_cut_witness:
  "\<exists>c\<in>set (cuts previewing_100). cut_id c = ''cut-7''
     \<and> filter mk_active (tl_markers (timeline previewing_100)) = [cut_marker previewing_100 c]
     \<and> rv_list (render previewing_100)
         = CutItems (map (cut_list_item previewing_100) (cuts previewing_100))
     \<and> filter ci_active (map (cut_list_item previewing_100) (cuts previewing_100))
         = [cut_list_item previewing_100 c]"
proof -
  have "activeCutId previewing_100 = Some ''cut-7''"
    and "distinct (map cut_id (cuts previewing_100))"
    by (simp_all add: previewing_100_def loaded_100_def init_review_def previewCut_def
        cut_10_12_def Let_def)
  with reachable_previewing_100 show ?thesis by (rule highlight_is_a_cut)
qed

definition rejected_10_12 :: CutEvent where
  "rejected_10_12 = cut_10_12\<lparr>status := rejected\<rparr>"

definition near_rejected :: review_state where
  "near_rejected = (init_review timeline_800 [rejected_10_12])
     \<lparr>videoRef := Some \<lparr>paused = False, v_currentTime = 9, v_duration = Some 100\<rparr>,
      duration := 100, isPlaying := True, currentTime := 9, activeCutId := Some ''cut-7''\<rparr>"

lemma near_rejected_run:
  "run [LoadedMetadata 100, ClickPlayPause True, OnPlay, Advance 9, Tick]
     (init_review timeline_800 [rejected_10_12]) = Inr near_rejected"
  by (simp add: near_rejected_def rejected_10_12_def cut_10_12_def init_review_def new_video_def
      onLoadedMetadata_def v_loadedmetadata_def onClickPlayPause_def onPlay_def v_play_def
      v_ended_def v_advance_def checkTime_def currentCut_def upcomingCut_def Let_def)

lemma near_rejected_enabled:
  "enabled_run [LoadedMetadata 100, ClickPlayPause True, OnPlay, Advance 9, Tick]
     (init_review timeline_800 [rejected_10_12])"
  by (simp add: init_review_def new_video_def onLoadedMetadata_def v_loadedmetadata_def
      onClickPlayPause_def onPlay_def v_play_def v_ended_def)

text \<open>C37: The badge \<open>Skipping Cut...\<close> is drawn when nothing is skipped. On a tick
  during playback outside a preview, when no accepted cut contains the position, the
  position of the media is left alone, and the badge is drawn exactly when some cut of the
  list, accepted or rejected, starts less than two seconds from the position: the
  look-ahead highlight raises it.\<close>

theorem skipping_badge_without_skip:
  assumes "playing s v" and "previewEndTimeRef s = None"
    and "\<forall>c\<in>set (cuts s). cut_id c \<noteq> []"
    and "\<forall>c\<in>set (cuts s). status c = accepted \<longrightarrow> \<not> (start c \<le> v_currentTime v \<and> v_currentTime v < cut_end c)"
  shows "videoRef (checkTime s) = Some v
    \<and> overlays (checkTime s)
        = (if \<exists>c\<in>set (cuts s). \<bar>start c - v_currentTime v\<bar> < 2 then [SkippingBadge] else [])"
proof -
  from assms(4) have nc: "currentCut (cuts s) (v_currentTime v) = None"
    by (auto simp: currentCut_def find_None_iff)
  note ct = checkTime_no_skip [OF assms(1,2) nc]
  from assms(1) have ns: "\<not> isScrubbing s" and vr: "videoRef s = Some v"
    by (simp_all add: playing_def)
  show ?thesis
  proof (cases "upcomingCut (cuts s) (v_currentTime v)")
    case None
    then have "\<not> (\<exists>c\<in>set (cuts s). \<bar>start c - v_currentTime v\<bar> < 2)"
      by (simp add: upcomingCut_def find_None_iff)
    with None ns vr assms(2) show ?thesis
      by (simp add: ct overlays_cases truthy_def)
  next
    case (Some c)
    from upcomingCut_SomeD [OF Some] assms(3)
    have "cut_id c \<noteq> []" and "\<exists>c\<in>set (cuts s). \<bar>start c - v_currentTime v\<bar> < 2" by auto
    with Some ns vr assms(2) show ?thesis
      by (simp add: ct overlays_cases truthy_def)
  qed
qed

theorem skipping_badge_without_skip_witness:
  "reachable near_rejected
   \<and> (\<exists>v. playing near_rejected v \<and> previewEndTimeRef near_rejected = None
     \<and> filter is_accepted (cuts near_rejected) = []
     \<and> videoRef (checkTime near_rejected) = Some v
     \<and> overlays (checkTime near_rejected) = [SkippingBadge])"
proof -
  from reachable.init near_rejected_enabled near_rejected_run have "reachable near_rejected"
    by (rule reachable_run)
  with skipping_badge_without_skip
    [of near_rejected "\<lparr>paused = False, v_currentTime = 9, v_duration = Some 100\<rparr>"]
  show ?thesis
    by (simp add: near_rejected_def playing_def init_review_def rejected_10_12_def cut_10_12_def
        is_accepted_def)
qed

text \<open>The bars of the waveform: 100 of them, each between 6 and 60 percent of the height of
  the track, whatever the random draws are.\<close>

lemma waveformBars_bounds:
  "length (waveformBars rnd) = 100
   \<and> (\<forall>h\<in>set (waveformBars rnd). 6 \<le> bar_height h \<and> bar_height h \<le> 60)"
proof -
  have "6 \<le> bar_height h \<and> bar_height h \<le> 60" if "h \<in> set (waveformBars rnd)" for h
  proof -
    from that have "1 / 10 \<le> h \<and> h \<le> 1"
      unfolding waveformBars_def by (rule waveform_loop_bounds)
    then show ?thesis by (simp add: bar_height_def)
  qed
  then show ?thesis by (simp add: waveformBars_def)
qed

lemma waveformBars_example: "bar_height (waveformBars half_rng ! 0) = 24"
proof -
  have "waveformBars half_rng = map (\<lambda>j. bar_value j (1 / 2) (3 / 20)) [0..<0 + 100]"
    unfolding waveformBars_def using waveform_loop_half [of 100 0 0] by simp
  then show ?thesis by (simp add: bar_value_def bar_height_def)
qed

end
