(* ===== verification/Gemini_Service.thy ===== *)
theory Gemini_Service
  imports CC_Types
begin

text \<open>
  The analysis service (\<^verbatim>\<open>src/services/geminiService.ts\<close>).

  \<^item> \<open>analyzeVideoMock\<close> generates the cut list. Its calls of \<open>Math.random()\<close> are the
    successive values of a function \<open>rnd :: nat \<Rightarrow> real\<close>; the loop threads the index of
    the next unused value, so a silence (which draws no word) consumes three values and
    every other cut four, as in the source. The delay of 2.5 s before the loop is the
    gap between the two events of the analysis in theory \<open>App\<close>.
  \<^item> \<open>generateEditingReport\<close> builds the report text. The remote model is a parameter: a
    function from the statistics that enter the prompt to the outcome of the call. The
    wording of the prompt is not modelled, the fallback text is.
\<close>

section \<open>Mock analysis\<close>

definition fillers :: "string list" where
  "fillers = [''Um'', ''Uh'', ''Like'', ''You know'', ''Er'']"

definition cliches :: "string list" where
  "cliches = [''At the end of the day'', ''To be honest'', ''Hallelujah'', ''Literally'',
     ''Basically'']"

definition reps :: "string list" where
  "reps = [''I mean, I mean'', ''You know, you know'', ''It'' @ [CHR 0x27] @ ''s just, it''
       @ [CHR 0x27] @ ''s just'', ''I was, I was'', ''Basically, basically'']"

definition stutters :: "string list" where
  "stutters = [''Th-th-the'', ''P-p-please'', ''W-w-what'', ''B-b-but'', ''I-I'', ''We-we'']"

lemmas word_lists = fillers_def cliches_def reps_def stutters_def

definition numberOfCuts :: "seconds \<Rightarrow> nat" where
  "numberOfCuts duration = nat (max 5 \<lfloor>duration / 10\<rfloor>)"

definition pick :: "string list \<Rightarrow> real \<Rightarrow> string option" where
  "pick ws r = js_index ws \<lfloor>r * real (length ws)\<rfloor>"

definition classify :: "real \<Rightarrow> rng \<Rightarrow> nat \<Rightarrow> CutType \<times> string option \<times> seconds \<times> nat" where
  "classify typeRoll rnd k =
     (if typeRoll < 0.35 then (filler, pick fillers (rnd k), 0.4, Suc k)
      else if typeRoll < 0.55 then (cliche, pick cliches (rnd k), 1.2, Suc k)
      else if typeRoll < 0.70 then (repetition, pick reps (rnd k), 1.0, Suc k)
      else if typeRoll < 0.85 then (stutter, pick stutters (rnd k), 0.5, Suc k)
      else (silence, Some ''(Silence)'', 2.0, k))"

definition mock_cut :: "seconds \<Rightarrow> rng \<Rightarrow> nat \<Rightarrow> nat \<Rightarrow> CutEvent \<times> nat" where
  "mock_cut duration rnd i k =
     (let start0 = rnd k * (duration - 5);
          typeRoll = rnd (k + 1)
      in case classify typeRoll rnd (k + 2) of
           (ty, w, len, k') \<Rightarrow>
             (\<lparr>cut_id = ''cut-'' @ nat_toString i, cut_type = ty, word = w,
               start = toFixed_num 2 start0, cut_end = toFixed_num 2 (start0 + len),
               confidence = 0.8 + rnd k' * 0.19, status = accepted\<rparr>, Suc k'))"

fun mock_loop :: "seconds \<Rightarrow> rng \<Rightarrow> nat \<Rightarrow> nat \<Rightarrow> nat \<Rightarrow> CutEvent list" where
  "mock_loop duration rnd 0 i k = []"
| "mock_loop duration rnd (Suc n) i k =
     (case mock_cut duration rnd i k of
        (c, k') \<Rightarrow> c # mock_loop duration rnd n (Suc i) k')"

definition analyzeVideoMock :: "seconds \<Rightarrow> rng \<Rightarrow> CutEvent list" where
  "analyzeVideoMock duration rnd =
     sort_key start (mock_loop duration rnd (numberOfCuts duration) 0 0)"

section \<open>Report\<close>

datatype ai_result = Generated "string option" | Failed

record prompt_stats =
  p_duration :: string
  p_fillers :: nat
  p_cliches :: nat
  p_silences :: nat
  p_repetitions :: nat
  p_stutters :: nat

definition getAI :: "string option \<Rightarrow> string option" where
  "getAI api_key = (case api_key of None \<Rightarrow> None | Some k \<Rightarrow> if k = [] then None else Some k)"

definition count_type :: "CutType \<Rightarrow> CutEvent list \<Rightarrow> nat" where
  "count_type ty cs = length (filter (\<lambda>c. cut_type c = ty) cs)"

definition concise_percent :: "CutEvent list \<Rightarrow> seconds \<Rightarrow> jsnum" where
  "concise_percent cs duration =
     js_mul (js_div (foldl (\<lambda>acc c. acc + (cut_end c - start c)) 0 cs) duration) 100"

definition generateEditingReport ::
  "string option \<Rightarrow> (prompt_stats \<Rightarrow> ai_result) \<Rightarrow> CutEvent list \<Rightarrow> seconds \<Rightarrow> string" where
  "generateEditingReport api_key generateContent cs duration =
     (let ai = getAI api_key;
          n_fillers = count_type filler cs;
          n_cliches = count_type cliche cs;
          n_silences = count_type silence cs;
          n_repetitions = count_type repetition cs;
          n_stutters = count_type stutter cs;
          prompt = \<lparr>p_duration = toFixed 0 duration, p_fillers = n_fillers,
            p_cliches = n_cliches, p_silences = n_silences, p_repetitions = n_repetitions,
            p_stutters = n_stutters\<rparr>
      in case ai of
           None \<Rightarrow>
             ''Analysis complete! We removed '' @ nat_toString n_fillers @ '' fillers, ''
               @ nat_toString n_cliches @ '' clich'' @ [CHR 0xE9] @ ''s, ''
               @ nat_toString n_repetitions @ '' repetitions, and ''
               @ nat_toString n_stutters @ '' stutters to make your video ''
               @ jsnum_toFixed 1 (concise_percent cs duration) @ ''% more concise.''
         | Some _ \<Rightarrow>
             (case generateContent prompt of
                Generated (Some txt) \<Rightarrow>
                  if txt = [] then ''Video optimization complete.'' else txt
              | Generated None \<Rightarrow> ''Video optimization complete.''
              | Failed \<Rightarrow>
                  ''Video processed successfully. Your content is now more concise and engaging.''))"

section \<open>The generated cuts, one at a time\<close>

lemma numberOfCuts_ge: "5 \<le> numberOfCuts d"
  by (simp add: numberOfCuts_def)

lemma pick_defined:
  "0 \<le> r \<Longrightarrow> r < 1 \<Longrightarrow> ws \<noteq> [] \<Longrightarrow> \<exists>w\<in>set ws. pick ws r = Some w"
  unfolding pick_def by (rule js_index_scaled)

lemma classify_cases:
  obtains (filler) "r < 0.35" "classify r rnd k = (filler, pick fillers (rnd k), 0.4, Suc k)"
  | (cliche) "0.35 \<le> r" "r < 0.55" "classify r rnd k = (cliche, pick cliches (rnd k), 1.2, Suc k)"
  | (repetition) "0.55 \<le> r" "r < 0.70"
      "classify r rnd k = (repetition, pick reps (rnd k), 1.0, Suc k)"
  | (stutter) "0.70 \<le> r" "r < 0.85" "classify r rnd k = (stutter, pick stutters (rnd k), 0.5, Suc k)"
  | (silence) "0.85 \<le> r" "classify r rnd k = (silence, Some ''(Silence)'', 2.0, k)"
  by (cases "r < 0.35"; cases "r < 0.55"; cases "r < 0.70"; cases "r < 0.85")
    (auto simp: classify_def)

lemma classify_length:
  "classify r rnd k = (ty, w, len, k') \<Longrightarrow> 0.4 \<le> len \<and> len \<le> 2 \<and> k \<le> k' \<and> k' \<le> Suc k"
  by (rule classify_cases [of r rnd k]) auto

lemma classify_length_indep:
  "classify r rnd k = (ty, w, len, k2) \<Longrightarrow> classify r rnd' k' = (ty', w', len', k2')
     \<Longrightarrow> len' = len"
  by (auto simp: classify_def split: if_splits)

lemma classify_word:
  assumes "unit_rng rnd" and "classify r rnd k = (ty, w, len, k')"
  shows "w \<noteq> None"
proof (rule classify_cases [of r rnd k])
  note u = unit_rngD [OF assms(1), of k]
  { assume "classify r rnd k = (filler, pick fillers (rnd k), 0.4, Suc k)"
    with assms(2) pick_defined [of "rnd k" fillers] u show ?thesis
      by (auto simp: fillers_def) }
  { assume "classify r rnd k = (cliche, pick cliches (rnd k), 1.2, Suc k)"
    with assms(2) pick_defined [of "rnd k" cliches] u show ?thesis
      by (auto simp: cliches_def) }
  { assume "classify r rnd k = (repetition, pick reps (rnd k), 1.0, Suc k)"
    with assms(2) pick_defined [of "rnd k" reps] u show ?thesis
      by (auto simp: reps_def) }
  { assume "classify r rnd k = (stutter, pick stutters (rnd k), 0.5, Suc k)"
    with assms(2) pick_defined [of "rnd k" stutters] u show ?thesis
      by (auto simp: stutters_def) }
  { assume "classify r rnd k = (silence, Some ''(Silence)'', 2.0, k)"
    with assms(2) show ?thesis by auto }
qed

lemma mock_cut_fields:
  assumes "mock_cut d rnd i k = (c, k')"
  shows "cut_id c = ''cut-'' @ nat_toString i" and "status c = accepted"
    and "start c = toFixed_num 2 (rnd k * (d - 5))"
  using assms by (auto simp: mock_cut_def Let_def split: prod.splits)

lemma mock_cut_end:
  assumes "mock_cut d rnd i k = (c, k')"
  obtains len where "0.4 \<le> len" and "len \<le> 2"
    and "cut_end c = toFixed_num 2 (rnd k * (d - 5) + len)"
proof -
  obtain ty w len k2 where cl: "classify (rnd (k + 1)) rnd (k + 2) = (ty, w, len, k2)"
    by (cases "classify (rnd (k + 1)) rnd (k + 2)") auto
  with assms have "cut_end c = toFixed_num 2 (rnd k * (d - 5) + len)"
    by (auto simp: mock_cut_def Let_def)
  moreover from classify_length [OF cl] have "0.4 \<le> len" "len \<le> 2" by simp_all
  ultimately show thesis using that by blast
qed

lemma mock_cut_word_confidence:
  assumes "unit_rng rnd" and "mock_cut d rnd i k = (c, k')"
  shows "word c \<noteq> None" and "0.8 \<le> confidence c" and "confidence c < 0.99"
proof -
  obtain ty w len k2 where cl: "classify (rnd (k + 1)) rnd (k + 2) = (ty, w, len, k2)"
    by (cases "classify (rnd (k + 1)) rnd (k + 2)") auto
  with assms(2) have c: "word c = w" "confidence c = 0.8 + rnd k2 * 0.19"
    by (auto simp: mock_cut_def Let_def)
  from classify_word [OF assms(1) cl] c show "word c \<noteq> None" by simp
  from unit_rngD [OF assms(1), of k2] c show "0.8 \<le> confidence c" "confidence c < 0.99"
    by simp_all
qed

lemma mock_cut_range:
  assumes "unit_rng rnd" and "5 \<le> d" and "mock_cut d rnd i k = (c, k')"
  shows "0 \<le> start c" and "start c < cut_end c" and "cut_end c \<le> d"
proof -
  define x where "x = rnd k * (d - 5)"
  from unit_rngD [OF assms(1), of k] assms(2) have x: "0 \<le> x" "x \<le> d - 5"
    by (simp_all add: x_def mult_left_le_one_le mult.commute)
  from mock_cut_end [OF assms(3)] obtain len where len: "0.4 \<le> len" "len \<le> 2"
    and e: "cut_end c = toFixed_num 2 (x + len)" unfolding x_def by blast
  from mock_cut_fields(3) [OF assms(3)] have s: "start c = toFixed_num 2 x" by (simp add: x_def)
  from x s show "0 \<le> start c" by (simp add: toFixed_num_nonneg)
  from len have "1 / 10 ^ 2 \<le> len" by simp
  with x(1) s e show "start c < cut_end c" by (simp add: toFixed_num_strict_mono)
  from x len toFixed_num_upper [of "x + len" 2] e show "cut_end c \<le> d" by simp
qed

lemma mock_cut_wf:
  "unit_rng rnd \<Longrightarrow> 5 \<le> d \<Longrightarrow> mock_cut d rnd i k = (c, k') \<Longrightarrow> wf_cut c"
  using mock_cut_range [of rnd d i k c k'] mock_cut_word_confidence [of rnd d i k c k']
  by (simp add: wf_cut_def)

section \<open>The loop and the sort\<close>

lemma length_mock_loop [simp]: "length (mock_loop d rnd n i k) = n"
  by (induction n arbitrary: i k) (auto split: prod.splits)

lemma mock_loop_ids:
  "map cut_id (mock_loop d rnd n i k) = map (\<lambda>j. ''cut-'' @ nat_toString j) [i..<i + n]"
proof (induction n arbitrary: i k)
  case 0
  show ?case by simp
next
  case (Suc n)
  obtain c k' where c: "mock_cut d rnd i k = (c, k')" by (cases "mock_cut d rnd i k") auto
  have "[i..<i + Suc n] = i # [Suc i..<Suc i + n]" by (simp add: upt_conv_Cons)
  with Suc [of "Suc i" k'] mock_cut_fields(1) [OF c] c show ?case by simp
qed

lemma mock_loop_distinct: "distinct (map cut_id (mock_loop d rnd n i k))"
  by (simp add: mock_loop_ids distinct_map inj_on_def)

lemma mock_loop_all:
  assumes "\<And>i k c k'. mock_cut d rnd i k = (c, k') \<Longrightarrow> P c"
  shows "c \<in> set (mock_loop d rnd n i k) \<Longrightarrow> P c"
proof (induction n arbitrary: i k)
  case 0
  then show ?case by simp
next
  case (Suc n)
  obtain c0 k' where c0: "mock_cut d rnd i k = (c0, k')" by (cases "mock_cut d rnd i k") auto
  with Suc.prems have "c = c0 \<or> c \<in> set (mock_loop d rnd n (Suc i) k')" by simp
  with assms [OF c0] Suc.IH show ?case by auto
qed

lemma set_analyzeVideoMock:
  "set (analyzeVideoMock d rnd) = set (mock_loop d rnd (numberOfCuts d) 0 0)"
  by (simp add: analyzeVideoMock_def)

lemma length_analyzeVideoMock [simp]: "length (analyzeVideoMock d rnd) = numberOfCuts d"
  by (simp add: analyzeVideoMock_def)

lemma sorted_analyzeVideoMock: "sorted (map start (analyzeVideoMock d rnd))"
  by (simp add: analyzeVideoMock_def)

lemma distinct_ids_analyzeVideoMock: "distinct (map cut_id (analyzeVideoMock d rnd))"
  using mock_loop_distinct [of d rnd "numberOfCuts d" 0 0]
  by (simp add: analyzeVideoMock_def distinct_map)

lemma analyzeVideoMock_all:
  assumes "\<And>i k c k'. mock_cut d rnd i k = (c, k') \<Longrightarrow> P c"
  shows "\<forall>c\<in>set (analyzeVideoMock d rnd). P c"
  using mock_loop_all [of d rnd P] assms by (auto simp: set_analyzeVideoMock)

lemma generated_cuts_accepted:
  assumes "unit_rng rnd" and "5 \<le> d"
  shows "\<forall>c\<in>set (analyzeVideoMock d rnd). status c = accepted \<and> start c < cut_end c"
  by (rule analyzeVideoMock_all) (use assms in \<open>auto dest: mock_cut_fields(2) mock_cut_range(2)\<close>)

lemma analyzeVideoMock_first:
  "\<exists>c\<in>set (analyzeVideoMock d rnd). start c = toFixed_num 2 (rnd 0 * (d - 5))"
proof -
  obtain n where n: "numberOfCuts d = Suc n"
    using numberOfCuts_ge [of d] by (cases "numberOfCuts d") auto
  obtain c k' where c: "mock_cut d rnd 0 0 = (c, k')" by (cases "mock_cut d rnd 0 0") auto
  with n have "c \<in> set (analyzeVideoMock d rnd)" by (simp add: set_analyzeVideoMock)
  with mock_cut_fields(3) [OF c] show ?thesis by auto
qed

section \<open>Report counts\<close>

lemma count_type_Cons:
  "count_type ty (c # cs) = (if cut_type c = ty then 1 else 0) + count_type ty cs"
  by (simp add: count_type_def)

lemma count_type_total:
  "count_type filler cs + count_type cliche cs + count_type silence cs
     + count_type repetition cs + count_type stutter cs = length cs"
proof (induction cs)
  case Nil
  show ?case by (simp add: count_type_def)
next
  case (Cons c cs)
  then show ?case by (cases "cut_type c") (simp_all add: count_type_Cons)
qed

lemma concise_percent_Finite:
  "d \<noteq> 0 \<Longrightarrow> concise_percent cs d = Finite (sum_list (map cut_length cs) / d * 100)"
  by (simp add: concise_percent_def foldl_add_sum_list cut_length_fun)

section \<open>Properties\<close>

definition hallelujah :: "nat \<Rightarrow> CutEvent" where
  "hallelujah i = \<lparr>cut_id = ''cut-'' @ nat_toString i, cut_type = cliche,
     word = Some ''Hallelujah'', start = 27.5, cut_end = 28.7, confidence = 0.895,
     status = accepted\<rparr>"

lemma mock_cut_half: "mock_cut 60 half_rng i k = (hallelujah i, k + 4)"
  by (simp add: mock_cut_def half_rng_def classify_def pick_def cliches_def js_index_def
      toFixed_num_def toFixed_int_def hallelujah_def)

lemma mock_loop_half: "mock_loop 60 half_rng n i k = map hallelujah [i..<i + n]"
proof (induction n arbitrary: i k)
  case 0
  show ?case by simp
next
  case (Suc n)
  have "[i..<i + Suc n] = i # [Suc i..<Suc i + n]" by (simp add: upt_conv_Cons)
  with Suc [of "Suc i" "k + 4"] show ?case by (simp add: mock_cut_half)
qed

lemma analyzeVideoMock_half: "analyzeVideoMock 60 half_rng = map hallelujah [0..<6]"
proof -
  have "sort_key start (map hallelujah [0..<6]) = map hallelujah [0..<6]"
    by (rule sort_key_id_if_sorted) (simp add: hallelujah_def sorted_map)
  then show ?thesis by (simp add: analyzeVideoMock_def numberOfCuts_def mock_loop_half)
qed

lemma hallelujah_lengths:
  "sum_list (map (\<lambda>c. cut_end c - start c) (map hallelujah is)) = 1.2 * real (length is)"
  by (induction "is") (simp_all add: hallelujah_def algebra_simps)

lemma hallelujah_accepted [simp]: "status (hallelujah i) = accepted"
  by (simp add: hallelujah_def)

text \<open>C12: For a duration of at least five seconds and random draws in \<open>[0, 1)\<close>,
  \<open>analyzeVideoMock\<close> returns \<open>max(5, floor(duration / 10))\<close> cuts, sorted by start, with
  pairwise distinct ids, every one accepted, with a word, with \<open>0 \<le> start < end \<le> duration\<close>
  and a confidence in \<open>[0.8, 0.99)\<close>.\<close>

theorem analyzeVideoMock_well_formed:
  assumes "unit_rng rnd" and "5 \<le> d"
  shows "wf_cuts (analyzeVideoMock d rnd)
    \<and> sorted (map start (analyzeVideoMock d rnd))
    \<and> length (analyzeVideoMock d rnd) = numberOfCuts d
    \<and> (\<forall>c\<in>set (analyzeVideoMock d rnd).
          status c = accepted \<and> cut_end c \<le> d \<and> word c \<noteq> None
          \<and> 0.8 \<le> confidence c \<and> confidence c < 0.99)"
proof -
  have "\<forall>c\<in>set (analyzeVideoMock d rnd). wf_cut c"
    by (rule analyzeVideoMock_all) (rule mock_cut_wf [OF assms])
  then have "wf_cuts (analyzeVideoMock d rnd)"
    by (simp add: wf_cuts_def list_all_iff distinct_ids_analyzeVideoMock)
  moreover have "\<forall>c\<in>set (analyzeVideoMock d rnd).
      status c = accepted \<and> cut_end c \<le> d \<and> word c \<noteq> None
      \<and> 0.8 \<le> confidence c \<and> confidence c < 0.99"
  proof (rule analyzeVideoMock_all)
    fix i k c k' assume m: "mock_cut d rnd i k = (c, k')"
    from mock_cut_fields(2) [OF m] mock_cut_range(3) [OF assms m]
      mock_cut_word_confidence [OF assms(1) m]
    show "status c = accepted \<and> cut_end c \<le> d \<and> word c \<noteq> None
      \<and> 0.8 \<le> confidence c \<and> confidence c < 0.99" by simp
  qed
  ultimately show ?thesis by (simp add: sorted_analyzeVideoMock)
qed

theorem analyzeVideoMock_well_formed_witness:
  "unit_rng half_rng \<and> wf_cuts (analyzeVideoMock 60 half_rng)
   \<and> length (analyzeVideoMock 60 half_rng) = 6"
  using analyzeVideoMock_well_formed [of half_rng 60] by (simp add: numberOfCuts_def)

text \<open>C34: For a video shorter than five seconds the factor \<open>duration - 5\<close> is negative:
  unless the first draw is (nearly) zero, the generated list holds a cut that starts before
  the beginning of the video, so the list is not well formed.\<close>

theorem analyzeVideoMock_short_video:
  assumes "d < 5" and "1 / 200 \<le> rnd 0 * (5 - d)"
  shows "\<exists>c\<in>set (analyzeVideoMock d rnd). start c < 0 \<and> \<not> wf_cut c"
proof -
  define x where "x = rnd 0 * (d - 5)"
  from assms(2) have x: "x < 0" "1 / 2 \<le> \<bar>x\<bar> * 10 ^ 2"
    by (simp_all add: x_def algebra_simps)
  then have "1 \<le> \<bar>x\<bar> * 10 ^ 2 + 1 / 2" by simp
  then have "1 \<le> toFixed_int 2 x" unfolding toFixed_int_def by (simp add: le_floor_iff)
  with x(1) have neg: "toFixed_num 2 x < 0" by (simp add: toFixed_num_def)
  from analyzeVideoMock_first [of d rnd] obtain c
    where c: "c \<in> set (analyzeVideoMock d rnd)" "start c = toFixed_num 2 x"
    unfolding x_def by blast
  with neg have "start c < 0" "\<not> wf_cut c" by (simp_all add: wf_cut_def)
  with c(1) show ?thesis by blast
qed

theorem analyzeVideoMock_short_video_witness:
  "\<exists>c\<in>set (analyzeVideoMock 3 half_rng). start c < 0 \<and> \<not> wf_cut c"
  using analyzeVideoMock_short_video [of 3 half_rng] by (simp add: half_rng_def)

text \<open>Sorting by start does not separate the generated cuts: when the draws repeat,
  all cuts of the list cover the same interval, and there are at least five of them.\<close>

lemma analyzeVideoMock_can_overlap:
  "(\<forall>c\<in>set (analyzeVideoMock d (\<lambda>k. r)). \<forall>c'\<in>set (analyzeVideoMock d (\<lambda>k. r)).
      start c = start c' \<and> cut_end c = cut_end c')
   \<and> 5 \<le> length (analyzeVideoMock d (\<lambda>k. r))"
proof -
  obtain ty w len k' where cl: "classify r (\<lambda>k. r) 0 = (ty, w, len, k')"
    by (cases "classify r (\<lambda>k. r) 0") auto
  note len = classify_length_indep [OF cl]
  have "\<forall>c\<in>set (analyzeVideoMock d (\<lambda>k. r)).
      start c = toFixed_num 2 (r * (d - 5)) \<and> cut_end c = toFixed_num 2 (r * (d - 5) + len)"
    by (rule analyzeVideoMock_all) (auto simp: mock_cut_def Let_def split: prod.splits dest: len)
  then show ?thesis using numberOfCuts_ge [of d] by simp
qed

lemma analyzeVideoMock_can_overlap_example:
  "start (analyzeVideoMock 60 half_rng ! 0) = start (analyzeVideoMock 60 half_rng ! 1)
   \<and> cut_end (analyzeVideoMock 60 half_rng ! 0) = cut_end (analyzeVideoMock 60 half_rng ! 1)"
proof -
  have "length (analyzeVideoMock 60 half_rng) = 6" by (simp add: numberOfCuts_def)
  then have "analyzeVideoMock 60 half_rng ! 0 \<in> set (analyzeVideoMock 60 half_rng)"
    and "analyzeVideoMock 60 half_rng ! 1 \<in> set (analyzeVideoMock 60 half_rng)"
    by (simp_all only: nth_mem)
  with analyzeVideoMock_can_overlap [of 60 "1 / 2"] show ?thesis
    unfolding half_rng_def by blast
qed

text \<open>The report is never empty, whatever the remote model answers, and the five counts
  that enter it add up to the number of cuts it was given; without an API key the remote
  model is not consulted.\<close>

lemma generateEditingReport_total:
  "generateEditingReport key g cs d \<noteq> []
   \<and> count_type filler cs + count_type cliche cs + count_type silence cs
       + count_type repetition cs + count_type stutter cs = length cs
   \<and> generateEditingReport None g cs d = generateEditingReport None g' cs d"
  by (simp add: count_type_total generateEditingReport_def getAI_def
      split: option.splits ai_result.splits)

end
