(* ===== verification/Upload_Phase.thy ===== *)
theory Upload_Phase
  imports CC_Types
begin

text \<open>
  The upload form (\<^verbatim>\<open>src/components/UploadPhase.tsx\<close>).

  \<^item> \<open>upload_state\<close> holds the six \<open>useState\<close> cells of the component. The configuration
    and the saved phrase lists belong to the parent: a handler that reads them takes them
    as arguments, one that calls \<open>setConfig\<close> returns the new configuration, and one that
    calls a callback of the parent (or \<open>alert\<close>) returns the calls as a list of
    \<open>upload_effect\<close>, in the order the source makes them.
  \<^item> The named handlers keep their names; the inline arrow functions of the markup are
    named after what they do (\<open>removeFile\<close>, \<open>deleteSelectedList\<close>, \<open>clickAnalyze\<close>, ...).
  \<^item> \<open>upload_event\<close> lists the user actions, \<open>upload_step\<close> dispatches them, and
    \<open>upload_enabled\<close> states when the markup offers the control (the \<open>disabled\<close>
    attributes and the conditional rendering).
\<close>

section \<open>State and interface\<close>

record js_file =
  file_name :: string
  file_size :: nat
  file_type :: string

datatype drag_type = dragenter | dragover | dragleave | drag_other

datatype setting_key =
  k_removeCliches | k_removeFillers | k_removeRepetition | k_removeStuttering | k_removeSilence

datatype upload_effect =
  onFileSelect js_file
  | onSaveList string "string list"
  | onDeleteList string
  | onStartAnalysis
  | alert string

record upload_state =
  dragActive :: bool
  selectedFile :: "js_file option"
  newPhrase :: string
  selectedListId :: string
  isNamingList :: bool
  newListName :: string

definition init_upload :: upload_state where
  "init_upload = \<lparr>dragActive = False, selectedFile = None, newPhrase = [], selectedListId = [],
     isNamingList = False, newListName = []\<rparr>"

section \<open>Handlers\<close>

definition handleDrag :: "drag_type \<Rightarrow> upload_state \<Rightarrow> upload_state" where
  "handleDrag ty u =
     (if ty = dragenter \<or> ty = dragover then u\<lparr>dragActive := True\<rparr>
      else if ty = dragleave then u\<lparr>dragActive := False\<rparr>
      else u)"

definition validateAndSetFile :: "js_file \<Rightarrow> upload_state \<Rightarrow> upload_state \<times> upload_effect list" where
  "validateAndSetFile f u =
     (if file_size f > 2 * 1024 * 1024 * 1024 then (u, [alert ''File size exceeds 2GB limit.''])
      else if \<not> startsWith (file_type f) ''video/''
      then (u, [alert ''Please upload a valid video file.''])
      else (u\<lparr>selectedFile := Some f\<rparr>, [onFileSelect f]))"

definition handleDrop :: "js_file list \<Rightarrow> upload_state \<Rightarrow> upload_state \<times> upload_effect list" where
  "handleDrop files u =
     (let u1 = u\<lparr>dragActive := False\<rparr>
      in case files of [] \<Rightarrow> (u1, []) | f # _ \<Rightarrow> validateAndSetFile f u1)"

definition handleChange :: "js_file list \<Rightarrow> upload_state \<Rightarrow> upload_state \<times> upload_effect list" where
  "handleChange files u = (case files of [] \<Rightarrow> (u, []) | f # _ \<Rightarrow> validateAndSetFile f u)"

definition toggleSetting :: "setting_key \<Rightarrow> VideoConfig \<Rightarrow> VideoConfig" where
  "toggleSetting key prev =
     (case key of
        k_removeCliches \<Rightarrow> prev\<lparr>removeCliches := \<not> removeCliches prev\<rparr>
      | k_removeFillers \<Rightarrow> prev\<lparr>removeFillers := \<not> removeFillers prev\<rparr>
      | k_removeRepetition \<Rightarrow> prev\<lparr>removeRepetition := \<not> removeRepetition prev\<rparr>
      | k_removeStuttering \<Rightarrow> prev\<lparr>removeStuttering := \<not> removeStuttering prev\<rparr>
      | k_removeSilence \<Rightarrow> prev\<lparr>removeSilence := \<not> removeSilence prev\<rparr>)"

definition addCustomPhrase :: "VideoConfig \<Rightarrow> upload_state \<Rightarrow> upload_state \<times> VideoConfig" where
  "addCustomPhrase cfg u =
     (if trim (newPhrase u) \<noteq> [] \<and> length (customPhrases cfg) < 10
      then (u\<lparr>newPhrase := []\<rparr>,
            cfg\<lparr>customPhrases := customPhrases cfg @ [trim (newPhrase u)]\<rparr>)
      else (u, cfg))"

definition removeCustomPhrase :: "nat \<Rightarrow> VideoConfig \<Rightarrow> VideoConfig" where
  "removeCustomPhrase index prev =
     prev\<lparr>customPhrases :=
       map snd (filter (\<lambda>(i, _). i \<noteq> index) (enumerate 0 (customPhrases prev)))\<rparr>"

definition handleLoadList ::
  "string \<Rightarrow> PhraseList list \<Rightarrow> VideoConfig \<Rightarrow> upload_state \<Rightarrow> upload_state \<times> VideoConfig" where
  "handleLoadList listId saved cfg u =
     (let u1 = u\<lparr>selectedListId := listId\<rparr>
      in case find (\<lambda>l. list_id l = listId) saved of
           Some l \<Rightarrow> (u1, cfg\<lparr>customPhrases := phrases l\<rparr>)
         | None \<Rightarrow> (u1, cfg))"

definition saveCurrentList :: "VideoConfig \<Rightarrow> upload_state \<Rightarrow> upload_state \<times> upload_effect list" where
  "saveCurrentList cfg u =
     (if trim (newListName u) \<noteq> [] \<and> length (customPhrases cfg) > 0
      then (u\<lparr>isNamingList := False, newListName := []\<rparr>,
            [onSaveList (trim (newListName u)) (customPhrases cfg)])
      else (u, []))"

definition removeFile :: "upload_state \<Rightarrow> upload_state" where
  "removeFile u = u\<lparr>selectedFile := None\<rparr>"

definition deleteSelectedList :: "bool \<Rightarrow> upload_state \<Rightarrow> upload_state \<times> upload_effect list" where
  "deleteSelectedList confirmed u =
     (if confirmed then (u\<lparr>selectedListId := []\<rparr>, [onDeleteList (selectedListId u)])
      else (u, []))"

definition clickAnalyze :: "upload_state \<Rightarrow> upload_effect list" where
  "clickAnalyze u = (if selectedFile u = None then [] else [onStartAnalysis])"

section \<open>Events\<close>

datatype upload_event =
  Drag drag_type
  | Drop "js_file list"
  | Change "js_file list"
  | RemoveFile
  | ToggleSetting setting_key
  | SetSilenceThreshold real
  | LoadList string
  | DeleteSelectedList bool
  | SetNewPhrase string
  | AddCustomPhrase
  | RemoveCustomPhrase nat
  | StartNaming
  | SetNewListName string
  | SaveCurrentList
  | CancelNaming
  | SetOutputFormat OutputFormat
  | SetOutputQuality OutputQuality
  | ClickAnalyze

type_synonym upload_world = "upload_state \<times> VideoConfig"

fun upload_step ::
  "upload_event \<Rightarrow> PhraseList list \<Rightarrow> upload_world \<Rightarrow> upload_world \<times> upload_effect list" where
  "upload_step (Drag ty) saved (u, cfg) = ((handleDrag ty u, cfg), [])"
| "upload_step (Drop files) saved (u, cfg) =
     (case handleDrop files u of (u', out) \<Rightarrow> ((u', cfg), out))"
| "upload_step (Change files) saved (u, cfg) =
     (case handleChange files u of (u', out) \<Rightarrow> ((u', cfg), out))"
| "upload_step RemoveFile saved (u, cfg) = ((removeFile u, cfg), [])"
| "upload_step (ToggleSetting key) saved (u, cfg) = ((u, toggleSetting key cfg), [])"
| "upload_step (SetSilenceThreshold v) saved (u, cfg) = ((u, cfg\<lparr>silenceThreshold := v\<rparr>), [])"
| "upload_step (LoadList listId) saved (u, cfg) = (handleLoadList listId saved cfg u, [])"
| "upload_step (DeleteSelectedList confirmed) saved (u, cfg) =
     (case deleteSelectedList confirmed u of (u', out) \<Rightarrow> ((u', cfg), out))"
| "upload_step (SetNewPhrase v) saved (u, cfg) = ((u\<lparr>newPhrase := v\<rparr>, cfg), [])"
| "upload_step AddCustomPhrase saved (u, cfg) = (addCustomPhrase cfg u, [])"
| "upload_step (RemoveCustomPhrase index) saved (u, cfg) = ((u, removeCustomPhrase index cfg), [])"
| "upload_step StartNaming saved (u, cfg) = ((u\<lparr>isNamingList := True\<rparr>, cfg), [])"
| "upload_step (SetNewListName v) saved (u, cfg) = ((u\<lparr>newListName := v\<rparr>, cfg), [])"
| "upload_step SaveCurrentList saved (u, cfg) =
     (case saveCurrentList cfg u of (u', out) \<Rightarrow> ((u', cfg), out))"
| "upload_step CancelNaming saved (u, cfg) =
     ((u\<lparr>isNamingList := False, newListName := []\<rparr>, cfg), [])"
| "upload_step (SetOutputFormat f) saved (u, cfg) = ((u, cfg\<lparr>outputFormat := f\<rparr>), [])"
| "upload_step (SetOutputQuality q) saved (u, cfg) = ((u, cfg\<lparr>outputQuality := q\<rparr>), [])"
| "upload_step ClickAnalyze saved (u, cfg) = ((u, cfg), clickAnalyze u)"

fun upload_enabled :: "upload_event \<Rightarrow> PhraseList list \<Rightarrow> upload_world \<Rightarrow> bool" where
  "upload_enabled (Drag ty) saved (u, cfg) \<longleftrightarrow> ty \<noteq> drag_other"
| "upload_enabled RemoveFile saved (u, cfg) \<longleftrightarrow> selectedFile u \<noteq> None"
| "upload_enabled (SetSilenceThreshold v) saved (u, cfg) \<longleftrightarrow>
     removeSilence cfg \<and> 0.2 \<le> v \<and> v \<le> 5"
| "upload_enabled (LoadList listId) saved (u, cfg) \<longleftrightarrow>
     listId = [] \<or> listId \<in> set (map list_id saved)"
| "upload_enabled (DeleteSelectedList confirmed) saved (u, cfg) \<longleftrightarrow> selectedListId u \<noteq> []"
| "upload_enabled (SetNewPhrase v) saved (u, cfg) \<longleftrightarrow> length (customPhrases cfg) < 10"
| "upload_enabled AddCustomPhrase saved (u, cfg) \<longleftrightarrow> length (customPhrases cfg) < 10"
| "upload_enabled (RemoveCustomPhrase index) saved (u, cfg) \<longleftrightarrow>
     index < length (customPhrases cfg)"
| "upload_enabled StartNaming saved (u, cfg) \<longleftrightarrow>
     customPhrases cfg \<noteq> [] \<and> \<not> isNamingList u"
| "upload_enabled (SetNewListName v) saved (u, cfg) \<longleftrightarrow>
     customPhrases cfg \<noteq> [] \<and> isNamingList u"
| "upload_enabled SaveCurrentList saved (u, cfg) \<longleftrightarrow>
     customPhrases cfg \<noteq> [] \<and> isNamingList u \<and> trim (newListName u) \<noteq> []"
| "upload_enabled CancelNaming saved (u, cfg) \<longleftrightarrow>
     customPhrases cfg \<noteq> [] \<and> isNamingList u"
| "upload_enabled ClickAnalyze saved (u, cfg) \<longleftrightarrow> selectedFile u \<noteq> None"
| "upload_enabled _ saved (u, cfg) \<longleftrightarrow> True"

section \<open>Validity of what the form holds and hands over\<close>

definition file_ok :: "js_file \<Rightarrow> bool" where
  "file_ok f \<longleftrightarrow> file_size f \<le> 2 ^ 31 \<and> startsWith (file_type f) ''video/''"

definition phrases_ok :: "string list \<Rightarrow> bool" where
  "phrases_ok ps \<longleftrightarrow> length ps \<le> 10 \<and> list_all trimmed ps"

definition saved_ok :: "PhraseList list \<Rightarrow> bool" where
  "saved_ok saved \<longleftrightarrow> list_all (\<lambda>l. phrases_ok (phrases l)) saved"

fun effect_ok :: "upload_state \<Rightarrow> upload_effect \<Rightarrow> bool" where
  "effect_ok u (onFileSelect f) \<longleftrightarrow> file_ok f \<and> selectedFile u = Some f"
| "effect_ok u (onSaveList name ps) \<longleftrightarrow> trimmed name \<and> phrases_ok ps \<and> ps \<noteq> []"
| "effect_ok u onStartAnalysis \<longleftrightarrow> selectedFile u \<noteq> None"
| "effect_ok u _ \<longleftrightarrow> True"

definition upload_inv :: "upload_world \<Rightarrow> bool" where
  "upload_inv w \<longleftrightarrow>
     (case selectedFile (fst w) of None \<Rightarrow> True | Some f \<Rightarrow> file_ok f)
     \<and> phrases_ok (customPhrases (snd w))"

lemmas upload_handler_defs [cc_defs] =
  handleDrag_def validateAndSetFile_def handleDrop_def handleChange_def toggleSetting_def
  addCustomPhrase_def removeCustomPhrase_def handleLoadList_def saveCurrentList_def
  removeFile_def deleteSelectedList_def clickAnalyze_def

lemma phrases_ok_Nil [simp]: "phrases_ok []"
  by (simp add: phrases_ok_def)

lemma phrases_ok_snoc:
  "phrases_ok ps \<Longrightarrow> length ps < 10 \<Longrightarrow> trimmed p \<Longrightarrow> phrases_ok (ps @ [p])"
  by (simp add: phrases_ok_def)

lemma phrases_ok_remove: "phrases_ok ps \<Longrightarrow> phrases_ok (take i ps @ drop (Suc i) ps)"
  by (auto simp: phrases_ok_def list_all_iff dest: in_set_takeD in_set_dropD)

lemma saved_okD: "saved_ok saved \<Longrightarrow> find P saved = Some l \<Longrightarrow> phrases_ok (phrases l)"
  by (auto simp: saved_ok_def list_all_iff dest: find_SomeD)

lemma saved_ok_append [simp]:
  "saved_ok (saved @ [l]) \<longleftrightarrow> saved_ok saved \<and> phrases_ok (phrases l)"
  by (auto simp: saved_ok_def)

lemma saved_ok_filter: "saved_ok saved \<Longrightarrow> saved_ok (filter P saved)"
  by (simp add: saved_ok_def list_all_iff)

lemma customPhrases_removeCustomPhrase:
  "customPhrases (removeCustomPhrase i cfg) = take i (customPhrases cfg) @ drop (Suc i) (customPhrases cfg)"
  by (simp add: removeCustomPhrase_def remove_index_conv)

lemma validateAndSetFile_ok:
  "file_ok f \<Longrightarrow> validateAndSetFile f u = (u\<lparr>selectedFile := Some f\<rparr>, [onFileSelect f])"
  by (simp add: validateAndSetFile_def file_ok_def)

lemma validateAndSetFile_not_ok:
  "\<not> file_ok f \<Longrightarrow> \<exists>msg. validateAndSetFile f u = (u, [alert msg])"
  by (auto simp: validateAndSetFile_def file_ok_def)

lemma validateAndSetFile_inv:
  assumes "validateAndSetFile f u = (u', out)"
    and "case selectedFile u of None \<Rightarrow> True | Some f \<Rightarrow> file_ok f"
  shows "(case selectedFile u' of None \<Rightarrow> True | Some f \<Rightarrow> file_ok f) \<and> list_all (effect_ok u') out"
proof (cases "file_ok f")
  case True
  with assms show ?thesis by (auto simp: validateAndSetFile_ok)
next
  case False
  with assms validateAndSetFile_not_ok [of f u] show ?thesis by auto
qed

lemma addCustomPhrase_inv:
  assumes "addCustomPhrase cfg u = (u', cfg')" and "phrases_ok (customPhrases cfg)"
  shows "phrases_ok (customPhrases cfg')" and "selectedFile u' = selectedFile u"
  using assms
  by (auto simp: addCustomPhrase_def phrases_ok_def trim_trimmed split: if_splits)

lemma handleLoadList_inv:
  assumes "handleLoadList listId saved cfg u = (u', cfg')" and "phrases_ok (customPhrases cfg)"
    and "saved_ok saved"
  shows "phrases_ok (customPhrases cfg')" and "selectedFile u' = selectedFile u"
  using assms
  by (auto simp: handleLoadList_def Let_def dest: saved_okD split: option.splits)

lemma saveCurrentList_inv:
  assumes "saveCurrentList cfg u = (u', out)" and "phrases_ok (customPhrases cfg)"
  shows "list_all (effect_ok u') out" and "selectedFile u' = selectedFile u"
  using assms by (auto simp: saveCurrentList_def trim_trimmed split: if_splits)

lemma upload_step_inv:
  assumes "upload_inv (u, cfg)" and "saved_ok saved"
    and "upload_step e saved (u, cfg) = ((u', cfg'), out)"
  shows "upload_inv (u', cfg')" and "list_all (effect_ok u') out"
proof -
  from assms(1) have f: "case selectedFile u of None \<Rightarrow> True | Some f \<Rightarrow> file_ok f"
    and p: "phrases_ok (customPhrases cfg)" by (simp_all add: upload_inv_def)
  have "upload_inv (u', cfg') \<and> list_all (effect_ok u') out"
  proof (cases e)
    case (Drop files)
    with assms(3) f p validateAndSetFile_inv [of _ "u\<lparr>dragActive := False\<rparr>" u' out]
    show ?thesis
      by (cases files) (auto simp: handleDrop_def Let_def upload_inv_def split: prod.splits)
  next
    case (Change files)
    with assms(3) f p validateAndSetFile_inv [of _ u u' out] show ?thesis
      by (cases files) (auto simp: handleChange_def upload_inv_def split: prod.splits)
  next
    case (LoadList listId)
    with assms(3) f p handleLoadList_inv [OF _ p assms(2), of listId u u' cfg'] show ?thesis
      by (simp add: upload_inv_def)
  next
    case AddCustomPhrase
    with assms(3) f p addCustomPhrase_inv [OF _ p, of u u' cfg'] show ?thesis
      by (simp add: upload_inv_def)
  next
    case SaveCurrentList
    with assms(3) f p saveCurrentList_inv [OF _ p, of u u' out] show ?thesis
      by (auto simp: upload_inv_def split: prod.splits)
  next
    case (RemoveCustomPhrase i)
    with assms(3) f p show ?thesis
      by (auto simp: upload_inv_def customPhrases_removeCustomPhrase phrases_ok_remove)
  next
    case (ToggleSetting key)
    with assms(3) f p show ?thesis
      by (cases key) (auto simp: upload_inv_def toggleSetting_def)
  qed (use assms(3) f p in \<open>auto simp: upload_inv_def handleDrag_def removeFile_def
        deleteSelectedList_def clickAnalyze_def split: if_splits option.splits\<close>)
  then show "upload_inv (u', cfg')" and "list_all (effect_ok u') out" by simp_all
qed

lemma upload_step_link:
  assumes "upload_step e saved (u, cfg) = ((u', cfg'), out)"
  shows "length out \<le> 1"
    and "selectedFile u' = Some f \<Longrightarrow> selectedFile u = Some f \<or> out = [onFileSelect f]"
proof -
  have "length out \<le> 1 \<and> (selectedFile u' = Some f \<longrightarrow> selectedFile u = Some f \<or> out = [onFileSelect f])"
  proof (cases e)
    case (Drop files)
    with assms show ?thesis
      by (cases files)
        (auto simp: handleDrop_def validateAndSetFile_def Let_def split: if_splits)
  next
    case (Change files)
    with assms show ?thesis
      by (cases files) (auto simp: handleChange_def validateAndSetFile_def split: if_splits)
  next
    case (ToggleSetting key)
    with assms show ?thesis by auto
  qed (use assms in \<open>auto simp: handleDrag_def removeFile_def deleteSelectedList_def
        clickAnalyze_def addCustomPhrase_def handleLoadList_def saveCurrentList_def Let_def
        split: if_splits option.splits\<close>)
  then show "length out \<le> 1"
    and "selectedFile u' = Some f \<Longrightarrow> selectedFile u = Some f \<or> out = [onFileSelect f]"
    by simp_all
qed

section \<open>Properties\<close>

definition clip_mp4 :: js_file where
  "clip_mp4 = \<lparr>file_name = ''clip.mp4'', file_size = 1000, file_type = ''video/mp4''\<rparr>"

definition example_config :: VideoConfig where
  "example_config = \<lparr>removeCliches = True, removeFillers = True, removeSilence = True,
     removeRepetition = True, removeStuttering = True, silenceThreshold = 1,
     customPhrases = [''sort of'', ''you see''], outputFormat = mp4, outputQuality = q1080p\<rparr>"

text \<open>\<open>validateAndSetFile\<close> selects the file and hands it to the parent exactly when its
  size is at most 2 GiB and its MIME type starts with \<open>video/\<close>; otherwise it changes
  nothing and shows one alert.\<close>

lemma validateAndSetFile_accepts_iff:
  "(validateAndSetFile f u = (u\<lparr>selectedFile := Some f\<rparr>, [onFileSelect f])
      \<longleftrightarrow> file_size f \<le> 2 * 1024 * 1024 * 1024 \<and> startsWith (file_type f) ''video/'')
   \<and> (\<not> (file_size f \<le> 2 * 1024 * 1024 * 1024 \<and> startsWith (file_type f) ''video/'')
      \<longrightarrow> (\<exists>msg. validateAndSetFile f u = (u, [alert msg])))"
  by (auto simp: validateAndSetFile_def)

lemma validateAndSetFile_example:
  "validateAndSetFile clip_mp4 init_upload
     = (init_upload\<lparr>selectedFile := Some clip_mp4\<rparr>, [onFileSelect clip_mp4])
   \<and> (\<exists>msg. validateAndSetFile (clip_mp4\<lparr>file_type := ''image/png''\<rparr>) init_upload
         = (init_upload, [alert msg]))"
  using validateAndSetFile_accepts_iff [of clip_mp4 init_upload]
    validateAndSetFile_accepts_iff [of "clip_mp4\<lparr>file_type := ''image/png''\<rparr>" init_upload]
  by (simp add: clip_mp4_def startsWith_def)

text \<open>C14: Every action on the form keeps the form valid, provided the saved lists are:
  the selected file, if any, is a video of at most 2 GiB; there are at most ten custom
  phrases, each non-empty and without white space at its ends; the parent is handed only
  such a file, is asked to save only a non-empty valid phrase list under a trimmed
  non-empty name, and is asked to start the analysis only while a file is selected.\<close>

theorem upload_step_keeps_form_valid:
  assumes "upload_inv (u, cfg)" and "saved_ok saved"
    and "upload_step e saved (u, cfg) = ((u', cfg'), out)"
  shows "upload_inv (u', cfg') \<and> list_all (effect_ok u') out"
  using upload_step_inv [OF assms] by simp

theorem upload_step_keeps_form_valid_witness:
  "upload_inv (init_upload\<lparr>newPhrase := ''  kind of ''\<rparr>, example_config)
   \<and> upload_step AddCustomPhrase [] (init_upload\<lparr>newPhrase := ''  kind of ''\<rparr>, example_config)
       = ((init_upload, example_config\<lparr>customPhrases := [''sort of'', ''you see'', ''kind of'']\<rparr>), [])
   \<and> upload_inv (init_upload, example_config\<lparr>customPhrases := [''sort of'', ''you see'', ''kind of'']\<rparr>)"
proof -
  let ?u = "init_upload\<lparr>newPhrase := ''  kind of ''\<rparr>"
  have inv: "upload_inv (?u, example_config)"
    by (simp add: upload_inv_def init_upload_def example_config_def phrases_ok_def trimmed_def
        is_whitespace_def)
  have st: "upload_step AddCustomPhrase [] (?u, example_config)
      = ((init_upload, example_config\<lparr>customPhrases := [''sort of'', ''you see'', ''kind of'']\<rparr>), [])"
    by (simp add: addCustomPhrase_def init_upload_def example_config_def trim_def trimEnd_def
        is_whitespace_def)
  from upload_step_keeps_form_valid [OF inv _ st] inv st show ?thesis
    by (simp add: saved_ok_def)
qed

text \<open>\<open>removeCustomPhrase\<close> removes the phrase at the given index and keeps the others in
  order; an index outside the list changes nothing.\<close>

lemma removeCustomPhrase_removes_index:
  "customPhrases (removeCustomPhrase i cfg)
     = take i (customPhrases cfg) @ drop (Suc i) (customPhrases cfg)
   \<and> (i < length (customPhrases cfg) \<longrightarrow>
        length (customPhrases (removeCustomPhrase i cfg)) = length (customPhrases cfg) - 1)
   \<and> (length (customPhrases cfg) \<le> i \<longrightarrow> removeCustomPhrase i cfg = cfg)"
  by (simp add: customPhrases_removeCustomPhrase) (simp add: removeCustomPhrase_def remove_index_conv)

lemma removeCustomPhrase_example:
  "customPhrases (removeCustomPhrase 0 example_config) = [''you see'']
   \<and> removeCustomPhrase 2 example_config = example_config"
  using removeCustomPhrase_removes_index [of 0 example_config]
    removeCustomPhrase_removes_index [of 2 example_config]
  by (simp add: example_config_def)

end
