(* ===== verification/Upload_View.thy ===== *)
theory Upload_View
  imports Upload_Phase
begin

text \<open>
  What the upload form draws (\<^verbatim>\<open>src/components/UploadPhase.tsx\<close>, the JSX returned by the
  component): every expression of the markup that depends on the state or the properties
  is a field of \<open>upload_view\<close>, computed by \<open>upload_render\<close>. \<open>offered\<close> reads off the view
  whether the control that raises an event is drawn and not disabled; it agrees with
  \<open>upload_enabled\<close>, which theory \<open>Upload_Phase\<close> states on the state.
\<close>

section \<open>View\<close>

record file_card =
  fc_name :: string
  fc_size :: string

datatype toggle_desc = Text string | LongerThan real

record toggle_card =
  tc_key :: setting_key
  tc_label :: string
  tc_desc :: toggle_desc
  tc_on :: bool
  tc_wide :: bool
  tc_slider :: "real option"

datatype save_action = SaveHidden | SavePrompt | SaveNaming string bool

record upload_view =
  uv_zone_active :: bool
  uv_file :: "file_card option"
  uv_toggles :: "toggle_card list"
  uv_list_value :: string
  uv_list_options :: "(string \<times> string) list"
  uv_delete_shown :: bool
  uv_phrases_label :: string
  uv_phrase_value :: string
  uv_phrase_disabled :: bool
  uv_add_disabled :: bool
  uv_no_phrases :: bool
  uv_chips :: "(nat \<times> string) list"
  uv_save :: save_action
  uv_format :: OutputFormat
  uv_quality :: OutputQuality
  uv_analyze_disabled :: bool

definition file_card :: "js_file \<Rightarrow> file_card" where
  "file_card f =
     \<lparr>fc_name = file_name f,
      fc_size = toFixed 1 (real (file_size f) / (1024 * 1024)) @ '' MB''\<rparr>"

definition config_flag :: "setting_key \<Rightarrow> VideoConfig \<Rightarrow> bool" where
  "config_flag key cfg =
     (case key of
        k_removeCliches \<Rightarrow> removeCliches cfg
      | k_removeFillers \<Rightarrow> removeFillers cfg
      | k_removeRepetition \<Rightarrow> removeRepetition cfg
      | k_removeStuttering \<Rightarrow> removeStuttering cfg
      | k_removeSilence \<Rightarrow> removeSilence cfg)"

definition toggle_items :: "VideoConfig \<Rightarrow> (setting_key \<times> string \<times> toggle_desc) list" where
  "toggle_items cfg =
     [(k_removeCliches, ''Remove Clich'' @ [CHR 0xE9] @ ''s'', Text ''e.g., \"Praise the Lord\"''),
      (k_removeFillers, ''Remove Filler Words'', Text ''e.g., \"Um\", \"Uh\"''),
      (k_removeRepetition, ''Remove Repetitions'', Text ''e.g., \"I mean, I mean\"''),
      (k_removeStuttering, ''Remove Stuttering'', Text ''e.g., \"Th-th-the\"''),
      (k_removeSilence, ''Truncate Silence'',
         if removeSilence cfg then LongerThan (silenceThreshold cfg)
         else Text ''Remove silent gaps'')]"

definition toggle_card :: "VideoConfig \<Rightarrow> setting_key \<times> string \<times> toggle_desc \<Rightarrow> toggle_card" where
  "toggle_card cfg item =
     (case item of (key, label, desc) \<Rightarrow>
        \<lparr>tc_key = key, tc_label = label, tc_desc = desc, tc_on = config_flag key cfg,
         tc_wide = (key = k_removeSilence),
         tc_slider = (if key = k_removeSilence \<and> removeSilence cfg
                      then Some (silenceThreshold cfg) else None)\<rparr>)"

definition list_option :: "PhraseList \<Rightarrow> string \<times> string" where
  "list_option l =
     (list_id l, list_name l @ '' ('' @ nat_toString (length (phrases l)) @ '')'')"

definition save_action :: "VideoConfig \<Rightarrow> upload_state \<Rightarrow> save_action" where
  "save_action cfg u =
     (if length (customPhrases cfg) > 0
      then (if \<not> isNamingList u then SavePrompt
            else SaveNaming (newListName u) (trim (newListName u) = []))
      else SaveHidden)"

definition upload_render :: "PhraseList list \<Rightarrow> VideoConfig \<Rightarrow> upload_state \<Rightarrow> upload_view" where
  "upload_render saved cfg u =
     \<lparr>uv_zone_active = dragActive u,
      uv_file = map_option file_card (selectedFile u),
      uv_toggles = map (toggle_card cfg) (toggle_items cfg),
      uv_list_value = selectedListId u,
      uv_list_options = ([], ''Select a list...'') # map list_option saved,
      uv_delete_shown = (selectedListId u \<noteq> []),
      uv_phrases_label =
        ''Active Custom Phrases ('' @ nat_toString (length (customPhrases cfg)) @ ''/10)'',
      uv_phrase_value = newPhrase u,
      uv_phrase_disabled = (length (customPhrases cfg) \<ge> 10),
      uv_add_disabled = (newPhrase u = [] \<or> length (customPhrases cfg) \<ge> 10),
      uv_no_phrases = (length (customPhrases cfg) = 0),
      uv_chips = enumerate 0 (customPhrases cfg),
      uv_save = save_action cfg u,
      uv_format = outputFormat cfg,
      uv_quality = outputQuality cfg,
      uv_analyze_disabled = (selectedFile u = None)\<rparr>"

section \<open>What the view offers\<close>

fun offered :: "upload_view \<Rightarrow> upload_event \<Rightarrow> bool" where
  "offered v (Drag ty) \<longleftrightarrow> ty \<noteq> drag_other"
| "offered v RemoveFile \<longleftrightarrow> uv_file v \<noteq> None"
| "offered v (SetSilenceThreshold x) \<longleftrightarrow>
     list_ex (\<lambda>c. tc_slider c \<noteq> None) (uv_toggles v) \<and> 0.2 \<le> x \<and> x \<le> 5"
| "offered v (LoadList listId) \<longleftrightarrow> listId \<in> fst ` set (uv_list_options v)"
| "offered v (DeleteSelectedList confirmed) \<longleftrightarrow> uv_delete_shown v"
| "offered v (SetNewPhrase x) \<longleftrightarrow> \<not> uv_phrase_disabled v"
| "offered v AddCustomPhrase \<longleftrightarrow> \<not> uv_add_disabled v \<or> \<not> uv_phrase_disabled v"
| "offered v (RemoveCustomPhrase index) \<longleftrightarrow> index \<in> fst ` set (uv_chips v)"
| "offered v StartNaming \<longleftrightarrow> uv_save v = SavePrompt"
| "offered v (SetNewListName x) \<longleftrightarrow> (\<exists>n d. uv_save v = SaveNaming n d)"
| "offered v SaveCurrentList \<longleftrightarrow> (\<exists>n. uv_save v = SaveNaming n False)"
| "offered v CancelNaming \<longleftrightarrow> (\<exists>n d. uv_save v = SaveNaming n d)"
| "offered v ClickAnalyze \<longleftrightarrow> \<not> uv_analyze_disabled v"
| "offered v _ \<longleftrightarrow> True"

lemmas upload_view_defs [cc_defs] =
  file_card_def config_flag_def toggle_items_def toggle_card_def list_option_def
  save_action_def upload_render_def

section \<open>Lemmas\<close>

lemma slider_drawn_iff:
  "list_ex (\<lambda>c. tc_slider c \<noteq> None) (uv_toggles (upload_render saved cfg u)) \<longleftrightarrow> removeSilence cfg"
  by (simp add: upload_render_def toggle_items_def toggle_card_def)

lemma list_options_ids:
  "fst ` set (uv_list_options (upload_render saved cfg u)) = insert [] (set (map list_id saved))"
  by (auto simp: upload_render_def list_option_def image_iff)

lemma chips_indices:
  "fst ` set (uv_chips (upload_render saved cfg u)) = {..<length (customPhrases cfg)}"
proof -
  let ?ps = "customPhrases cfg"
  have "fst ` set (enumerate 0 ?ps) = set (map fst (enumerate 0 ?ps))" by (simp only: set_map)
  also have "\<dots> = set [0..<0 + length ?ps]" by (simp only: map_fst_enumerate)
  also have "\<dots> = {..<length ?ps}" by (simp add: atLeast0LessThan)
  finally show ?thesis by (simp add: upload_render_def)
qed

lemma toggles_show_config:
  "map (\<lambda>c. (tc_key c, tc_on c)) (uv_toggles (upload_render saved cfg u))
     = map (\<lambda>k. (k, config_flag k cfg))
         [k_removeCliches, k_removeFillers, k_removeRepetition, k_removeStuttering, k_removeSilence]"
  by (simp add: upload_render_def toggle_items_def toggle_card_def)

lemma config_flag_toggleSetting:
  "config_flag k (toggleSetting key cfg) = (if k = key then \<not> config_flag k cfg else config_flag k cfg)"
  by (cases k; cases key) (simp_all add: config_flag_def toggleSetting_def)

lemma save_action_cases:
  "uv_save (upload_render saved cfg u) = SavePrompt \<longleftrightarrow> customPhrases cfg \<noteq> [] \<and> \<not> isNamingList u"
  "uv_save (upload_render saved cfg u) = SaveNaming n d \<longleftrightarrow>
     customPhrases cfg \<noteq> [] \<and> isNamingList u \<and> n = newListName u \<and> d = (trim (newListName u) = [])"
  by (auto simp: upload_render_def save_action_def)

lemma file_card_size:
  assumes "file_ok f"
  shows "toFixed_num 1 (real (file_size f) / (1024 * 1024)) \<le> 2048"
proof -
  from assms have "real (file_size f) \<le> 2 ^ 31" 
    by (simp add: file_ok_def)
  then have "real (file_size f) / (1024 * 1024) \<le> 2048" by simp
  then have "toFixed_num 1 (real (file_size f) / (1024 * 1024)) \<le> toFixed_num 1 2048"
    by (intro toFixed_num_mono_nonneg) simp_all
  also have "toFixed_num 1 2048 = 2048" by (simp add: toFixed_num_def toFixed_int_def)
  finally show ?thesis .
qed

section \<open>Properties\<close>

text \<open>C24: The form offers exactly the events that are enabled. For every event of the
  form, the control that raises it is drawn and not disabled in the view of a state
  exactly when \<open>upload_enabled\<close> holds in that state: the delete button needs a selected
  list, the slider the silence switch, a chip its index, the naming controls a non-empty
  list of phrases, \<open>Save\<close> a name that is not blank, \<open>Analyze\<close> a selected file.\<close>

theorem offered_iff_enabled:
  "offered (upload_render saved cfg u) e \<longleftrightarrow> upload_enabled e saved (u, cfg)"
proof (cases e)
  case (SetSilenceThreshold x)
  then show ?thesis using slider_drawn_iff [of saved cfg u] by simp
next
  case (LoadList listId)
  then show ?thesis using list_options_ids [of saved cfg u] by auto
next
  case (RemoveCustomPhrase index)
  then show ?thesis using chips_indices [of saved cfg u] by simp
next
  case StartNaming
  then show ?thesis by (simp add: save_action_cases)
next
  case (SetNewListName x)
  then show ?thesis by (simp add: save_action_cases)
next
  case SaveCurrentList
  then show ?thesis by (simp add: save_action_cases)
next
  case CancelNaming
  then show ?thesis by (simp add: save_action_cases)
qed (auto simp: upload_render_def)

theorem offered_iff_enabled_witness:
  "\<not> offered (upload_render [] example_config init_upload) ClickAnalyze
   \<and> offered (upload_render [] example_config (init_upload\<lparr>selectedFile := Some clip_mp4\<rparr>)) ClickAnalyze
   \<and> offered (upload_render [] example_config init_upload) (LoadList [])"
  using offered_iff_enabled [of "[]" example_config init_upload ClickAnalyze]
    offered_iff_enabled [of "[]" example_config "init_upload\<lparr>selectedFile := Some clip_mp4\<rparr>" ClickAnalyze]
    offered_iff_enabled [of "[]" example_config init_upload "LoadList []"]
  by (simp add: init_upload_def)

end
