(* ===== verification/Process_Phase.thy ===== *)
theory Process_Phase
  imports Skip_Policy Media Metrics Gemini_Service Upload_Phase
begin

text \<open>
  The render simulation and the result player (\<^verbatim>\<open>src/components/ProcessPhase.tsx\<close>). The
  file holds three successive revisions of the component, one after the other: the first
  (lines 1 to 150) has the progress simulation and the report only, the second (151 to
  416) adds the result player and the download, the third (417 to 743) adds the stages
  and a progress that slows down between 60 and 80. The definitions translate the third
  revision; the progress effect of the first revision, which differs, carries the suffix
  \<open>_v1\<close>. The second revision combines the progress effect of the first with the player
  of the third and has no definition of its own.

  \<^item> \<open>process_state\<close> holds the \<open>useState\<close> cells and the reference to the media element,
    which exists only once the result view is rendered (\<open>isComplete\<close>). The fields that
    the review component names too carry the prefix \<open>pp_\<close>.
  \<^item> The \<open>useEffect\<close> of the progress is split at its asynchronous boundary:
    \<open>progress_effect\<close> is the part that runs after a render, \<open>progress_timeout\<close> the
    callback of the timer it sets; \<open>progress_tick\<close> is a timer firing followed by the
    effect of the render it causes. The draws of \<open>Math.random()\<close> are arguments.
  \<^item> \<open>pp_checkTime\<close> is the frame callback of the result player, \<open>activeCut\<close> its query,
    \<open>result_jump\<close> the position it forces.
  \<^item> \<open>handleDownload\<close> returns the link it clicks, or nothing.
\<close>

section \<open>State\<close>

record process_state =
  progress :: int
  isComplete :: bool
  aiReport :: string
  loadingReport :: bool
  pp_isPlaying :: bool
  pp_videoRef :: "video option"

definition init_process :: process_state where
  "init_process = \<lparr>progress = 0, isComplete = False, aiReport = [], loadingReport = False,
     pp_isPlaying = False, pp_videoRef = None\<rparr>"

section \<open>Stages\<close>

datatype icon = Cpu | Sparkles | Scissors | Layers | Film

record stage_info =
  label :: string
  stage_icon :: icon
  detail :: string

definition getStageInfo :: "CutEvent list \<Rightarrow> VideoConfig \<Rightarrow> int \<Rightarrow> stage_info" where
  "getStageInfo cs cfg p =
     (if p < 20 then \<lparr>label = ''Initializing Engine'', stage_icon = Cpu,
        detail = ''Loading video into processing buffer...''\<rparr>
      else if p < 45 then \<lparr>label = ''Analyzing Audio'', stage_icon = Sparkles,
        detail = ''Identifying filler words and silences...''\<rparr>
      else if p < 70 then \<lparr>label = ''Trimming Segments'', stage_icon = Scissors,
        detail = ''Removing '' @ nat_toString (length (filter (\<lambda>c. status c = accepted) cs))
          @ '' detected events...''\<rparr>
      else if p < 90 then \<lparr>label = ''Stitching & Encoding'', stage_icon = Layers,
        detail = ''Reassembling as '' @ toUpperCase (OutputFormat_string (outputFormat cfg))
          @ ''...''\<rparr>
      else \<lparr>label = ''Finalizing'', stage_icon = Film, detail = ''Preparing download...''\<rparr>)"

section \<open>Progress simulation\<close>

definition increment_v1 :: "real \<Rightarrow> int" where
  "increment_v1 r = max 1 \<lfloor>r * 10\<rfloor>"

definition progress_effect_v1 :: "process_state \<Rightarrow> process_state" where
  "progress_effect_v1 s = (if progress s \<ge> 100 then s\<lparr>isComplete := True\<rparr> else s)"

definition progress_timeout_v1 :: "real \<Rightarrow> process_state \<Rightarrow> process_state" where
  "progress_timeout_v1 r s = s\<lparr>progress := min 100 (progress s + increment_v1 r)\<rparr>"

definition progress_tick_v1 :: "real \<Rightarrow> process_state \<Rightarrow> process_state" where
  "progress_tick_v1 r s = progress_effect_v1 (progress_timeout_v1 r s)"

definition increment :: "real \<Rightarrow> real \<Rightarrow> int \<Rightarrow> int" where
  "increment r1 r2 p =
     (if p > 60 \<and> p < 80 then max 1 \<lfloor>r2 * 3\<rfloor> else max 1 \<lfloor>r1 * 5\<rfloor>)"

definition delay :: "int \<Rightarrow> nat" where
  "delay p = (if p > 60 \<and> p < 80 then 500 else 300)"

definition progress_effect :: "process_state \<Rightarrow> process_state" where
  "progress_effect s =
     (if progress s \<ge> 100
      then (if \<not> isComplete s then s\<lparr>isComplete := True, pp_videoRef := Some new_video\<rparr> else s)
      else s)"

definition progress_timeout :: "real \<Rightarrow> real \<Rightarrow> process_state \<Rightarrow> process_state" where
  "progress_timeout r1 r2 s = s\<lparr>progress := min 100 (progress s + increment r1 r2 (progress s))\<rparr>"

definition progress_tick :: "real \<Rightarrow> real \<Rightarrow> process_state \<Rightarrow> process_state" where
  "progress_tick r1 r2 s = progress_effect (progress_timeout r1 r2 s)"

section \<open>Report\<close>

definition report_effect :: "process_state \<Rightarrow> process_state" where
  "report_effect s = (if isComplete s then s\<lparr>loadingReport := True\<rparr> else s)"

definition report_resolved :: "string \<Rightarrow> process_state \<Rightarrow> process_state" where
  "report_resolved report s = s\<lparr>aiReport := report, loadingReport := False\<rparr>"

section \<open>Result player\<close>

definition activeCut :: "CutEvent list \<Rightarrow> seconds \<Rightarrow> CutEvent option" where
  "activeCut cs t = find (\<lambda>c. status c = accepted \<and> t \<ge> start c \<and> t < cut_end c - 0.1) cs"

definition result_jump :: "CutEvent list \<Rightarrow> seconds \<Rightarrow> seconds" where
  "result_jump cs t = (case activeCut cs t of None \<Rightarrow> t | Some c \<Rightarrow> cut_end c + 0.05)"

definition pp_checkTime :: "CutEvent list \<Rightarrow> process_state \<Rightarrow> process_state" where
  "pp_checkTime cs s =
     (case pp_videoRef s of
        None \<Rightarrow> s
      | Some v \<Rightarrow>
          if \<not> paused v then
            (case activeCut cs (v_currentTime v) of
               Some c \<Rightarrow> s\<lparr>pp_videoRef := Some (v_seek (cut_end c + 0.05) v)\<rparr>
             | None \<Rightarrow> s)
          else s)"

definition handlePlayPreview :: "bool \<Rightarrow> process_state \<Rightarrow> process_state" where
  "handlePlayPreview allowed s =
     (case pp_videoRef s of
        None \<Rightarrow> s
      | Some v \<Rightarrow> if paused v then s\<lparr>pp_videoRef := Some (v_play allowed v)\<rparr> else s)"

section \<open>Download\<close>

datatype link_target = ObjectUrl js_file | Url string

record download_link =
  href :: link_target
  download :: string

definition handleDownload ::
  "js_file option \<Rightarrow> string option \<Rightarrow> VideoConfig \<Rightarrow> download_link option" where
  "handleDownload file fileUrl cfg =
     (case file of
        Some f \<Rightarrow>
          Some \<lparr>href = ObjectUrl f,
                download = ''clarity_cut_optimized.'' @ OutputFormat_string (outputFormat cfg)\<rparr>
      | None \<Rightarrow>
          (case fileUrl of
             None \<Rightarrow> None
           | Some url \<Rightarrow>
               if url = [] then None
               else Some \<lparr>href = Url url,
                 download = ''clarity_cut_optimized.'' @ OutputFormat_string (outputFormat cfg)\<rparr>))"

section \<open>Result view\<close>

definition metricCards :: "ProcessingMetrics \<Rightarrow> VideoConfig \<Rightarrow> (string \<times> string) list" where
  "metricCards metrics cfg =
     [(''Time Saved'', toFixed 1 (timeSaved metrics) @ ''s''),
      (''Cuts Made'', nat_toString (cutsCount metrics)),
      (''New Duration'', toFixed 1 (finalDuration metrics / 60) @ ''m''),
      (''Format'', toUpperCase (OutputFormat_string (outputFormat cfg)))]"

definition lookup_card :: "string \<Rightarrow> (string \<times> string) list \<Rightarrow> string option" where
  "lookup_card l cards = map_of cards l"

section \<open>Events\<close>

datatype process_event =
  Timeout real real
  | ReportRequested
  | ReportResolved string
  | Frame
  | PlayPreview bool
  | VideoPlay
  | VideoPause
  | VideoAdvance seconds
  | VideoLoadedMetadata seconds

fun process_step :: "CutEvent list \<Rightarrow> process_event \<Rightarrow> process_state \<Rightarrow> process_state" where
  "process_step cs (Timeout r1 r2) s = progress_tick r1 r2 s"
| "process_step cs ReportRequested s = report_effect s"
| "process_step cs (ReportResolved report) s = report_resolved report s"
| "process_step cs Frame s = (if isComplete s then pp_checkTime cs s else s)"
| "process_step cs (PlayPreview allowed) s = handlePlayPreview allowed s"
| "process_step cs VideoPlay s = s\<lparr>pp_isPlaying := True\<rparr>"
| "process_step cs VideoPause s = s\<lparr>pp_isPlaying := False\<rparr>"
| "process_step cs (VideoAdvance dt) s = s\<lparr>pp_videoRef := map_option (v_advance dt) (pp_videoRef s)\<rparr>"
| "process_step cs (VideoLoadedMetadata d) s =
     s\<lparr>pp_videoRef := map_option (v_loadedmetadata d) (pp_videoRef s)\<rparr>"

fun process_enabled :: "process_event \<Rightarrow> process_state \<Rightarrow> bool" where
  "process_enabled (Timeout r1 r2) s \<longleftrightarrow> progress s < 100 \<and> 0 \<le> r1 \<and> r1 < 1 \<and> 0 \<le> r2 \<and> r2 < 1"
| "process_enabled ReportRequested s \<longleftrightarrow> isComplete s"
| "process_enabled (ReportResolved report) s \<longleftrightarrow> loadingReport s"
| "process_enabled (PlayPreview allowed) s \<longleftrightarrow> isComplete s"
| "process_enabled (VideoAdvance dt) s \<longleftrightarrow> 0 \<le> dt"
| "process_enabled (VideoLoadedMetadata d) s \<longleftrightarrow> 0 \<le> d"
| "process_enabled _ s \<longleftrightarrow> True"

fun process_run :: "CutEvent list \<Rightarrow> process_event list \<Rightarrow> process_state \<Rightarrow> process_state" where
  "process_run cs [] s = s"
| "process_run cs (e # es) s = process_run cs es (process_step cs e s)"

section \<open>Progress: bounds and completion\<close>

lemma increment_bounds: "1 \<le> increment r1 r2 p"
  and increment_v1_bounds: "1 \<le> increment_v1 r"
  by (simp_all add: increment_def increment_v1_def)

lemma increment_upper:
  "0 \<le> r1 \<Longrightarrow> r1 < 1 \<Longrightarrow> 0 \<le> r2 \<Longrightarrow> r2 < 1 \<Longrightarrow> increment r1 r2 p \<le> 4"
  by (auto simp: increment_def floor_le_iff)

lemma increment_v1_upper: "0 \<le> r \<Longrightarrow> r < 1 \<Longrightarrow> increment_v1 r \<le> 9"
  by (auto simp: increment_v1_def floor_le_iff)

lemma progress_tick_progress:
  "progress (progress_tick r1 r2 s) = min 100 (progress s + increment r1 r2 (progress s))"
  by (simp add: progress_tick_def progress_effect_def progress_timeout_def)

lemma progress_tick_isComplete:
  "isComplete (progress_tick r1 r2 s) \<longleftrightarrow> isComplete s \<or> 100 \<le> progress (progress_tick r1 r2 s)"
  by (auto simp: progress_tick_def progress_effect_def progress_timeout_def)

lemma progress_tick_v1_progress:
  "progress (progress_tick_v1 r s) = min 100 (progress s + increment_v1 r)"
  by (simp add: progress_tick_v1_def progress_effect_v1_def progress_timeout_v1_def)

lemma progress_tick_v1_isComplete:
  "isComplete (progress_tick_v1 r s) \<longleftrightarrow> isComplete s \<or> 100 \<le> progress (progress_tick_v1 r s)"
  by (auto simp: progress_tick_v1_def progress_effect_v1_def progress_timeout_v1_def)

fun timeouts :: "(real \<times> real) list \<Rightarrow> process_state \<Rightarrow> process_state" where
  "timeouts [] s = s"
| "timeouts ((r1, r2) # rs) s = timeouts rs (progress_tick r1 r2 s)"

fun timeouts_v1 :: "real list \<Rightarrow> process_state \<Rightarrow> process_state" where
  "timeouts_v1 [] s = s"
| "timeouts_v1 (r # rs) s = timeouts_v1 rs (progress_tick_v1 r s)"

lemma timeouts_process_run:
  "timeouts rs s = process_run cs (map (\<lambda>(r1, r2). Timeout r1 r2) rs) s"
  by (induction rs s rule: timeouts.induct) simp_all

lemma timeouts_lower:
  "min 100 (progress s + int (length rs)) \<le> progress (timeouts rs s)"
proof (induction rs s rule: timeouts.induct)
  case (1 s)
  show ?case by simp
next
  case (2 r1 r2 rs s)
  with increment_bounds [of r1 r2 "progress s"] show ?case
    by (simp add: progress_tick_progress)
qed

lemma timeouts_upper: "progress s \<le> 100 \<Longrightarrow> progress (timeouts rs s) \<le> 100"
  by (induction rs s rule: timeouts.induct) (simp_all add: progress_tick_progress)

lemma timeouts_slow:
  "\<forall>(r1, r2)\<in>set rs. 0 \<le> r1 \<and> r1 < 1 \<and> 0 \<le> r2 \<and> r2 < 1
     \<Longrightarrow> progress (timeouts rs s) \<le> progress s + 4 * int (length rs)"
proof (induction rs s rule: timeouts.induct)
  case (1 s)
  show ?case by simp
next
  case (2 r1 r2 rs s)
  then have "progress (timeouts rs (progress_tick r1 r2 s))
      \<le> progress (progress_tick r1 r2 s) + 4 * int (length rs)" by simp
  moreover from 2 have "progress (progress_tick r1 r2 s) \<le> progress s + 4"
    using increment_upper [of r1 r2 "progress s"] by (simp add: progress_tick_progress)
  ultimately show ?case by simp
qed

lemma timeouts_isComplete:
  "isComplete (timeouts rs s) \<longleftrightarrow> isComplete s \<or> (rs \<noteq> [] \<and> 100 \<le> progress (timeouts rs s))"
proof (induction rs s rule: timeouts.induct)
  case (1 s)
  show ?case by simp
next
  case (2 r1 r2 rs s)
  have "100 \<le> progress (progress_tick r1 r2 s) \<Longrightarrow> 100 \<le> progress (timeouts rs (progress_tick r1 r2 s))"
    using timeouts_lower [of "progress_tick r1 r2 s" rs] by simp
  with 2 show ?case by (auto simp: progress_tick_isComplete)
qed

lemma timeouts_v1_lower:
  "min 100 (progress s + int (length rs)) \<le> progress (timeouts_v1 rs s)"
proof (induction rs s rule: timeouts_v1.induct)
  case (1 s)
  show ?case by simp
next
  case (2 r rs s)
  with increment_v1_bounds [of r] show ?case by (simp add: progress_tick_v1_progress)
qed

lemma timeouts_v1_upper: "progress s \<le> 100 \<Longrightarrow> progress (timeouts_v1 rs s) \<le> 100"
  by (induction rs s rule: timeouts_v1.induct) (simp_all add: progress_tick_v1_progress)

lemma timeouts_v1_isComplete:
  "isComplete (timeouts_v1 rs s)
     \<longleftrightarrow> isComplete s \<or> (rs \<noteq> [] \<and> 100 \<le> progress (timeouts_v1 rs s))"
proof (induction rs s rule: timeouts_v1.induct)
  case (1 s)
  show ?case by simp
next
  case (2 r rs s)
  have "100 \<le> progress (progress_tick_v1 r s) \<Longrightarrow> 100 \<le> progress (timeouts_v1 rs (progress_tick_v1 r s))"
    using timeouts_v1_lower [of "progress_tick_v1 r s" rs] by simp
  with 2 show ?case by (auto simp: progress_tick_v1_isComplete)
qed

section \<open>Result player: the query and the jump\<close>

definition result_pending :: "CutEvent list \<Rightarrow> seconds \<Rightarrow> nat" where
  "result_pending cs t = length (filter (\<lambda>c. is_accepted c \<and> t < cut_end c - 0.1) cs)"

lemma activeCut_SomeD:
  "activeCut cs t = Some c \<Longrightarrow>
     c \<in> set cs \<and> is_accepted c \<and> start c \<le> t \<and> t < cut_end c - 0.1"
  by (auto simp: activeCut_def is_accepted_def dest: find_SomeD)

lemma activeCut_None_iff:
  "activeCut cs t = None \<longleftrightarrow>
     \<not> (\<exists>c\<in>set cs. is_accepted c \<and> start c \<le> t \<and> t < cut_end c - 0.1)"
  by (auto simp: activeCut_def is_accepted_def find_None_iff)

lemma activeCut_currentCut: "activeCut cs t = Some c \<Longrightarrow> covered cs t"
  by (auto dest!: activeCut_SomeD simp: covered_iff contains_def)

lemma result_jump_settle_step:
  "result_jump cs = settle_step (\<lambda>t. map_option (\<lambda>c. cut_end c + 0.05) (activeCut cs t))"
  by (rule ext) (simp add: result_jump_def settle_step_def split: option.splits)

lemma result_pending_le: "result_pending cs t \<le> length (filter is_accepted cs)"
proof -
  have "filter (\<lambda>c. is_accepted c \<and> t < cut_end c - 0.1) cs
      = filter (\<lambda>c. t < cut_end c - 0.1) (filter is_accepted cs)"
    by (simp add: conj_commute)
  then show ?thesis by (simp add: result_pending_def del: filter_filter)
qed

lemma result_pending_decreases:
  assumes "activeCut cs t = Some c"
  shows "result_pending cs (cut_end c + 0.05) < result_pending cs t"
proof -
  let ?P = "\<lambda>c. is_accepted c \<and> t < cut_end c - 0.1"
  let ?u = "cut_end c + 0.05"
  from activeCut_SomeD [OF assms] have c: "c \<in> set cs" "is_accepted c" "t < cut_end c - 0.1"
    by simp_all
  then have "filter (\<lambda>c. is_accepted c \<and> ?u < cut_end c - 0.1) cs
      = filter (\<lambda>c. ?u < cut_end c - 0.1) (filter ?P cs)"
    by (auto intro: filter_cong)
  moreover from c have "c \<in> set (filter ?P cs)" and "\<not> ?u < cut_end c - 0.1" by auto
  then have "length (filter (\<lambda>c. ?u < cut_end c - 0.1) (filter ?P cs)) < length (filter ?P cs)"
    by (rule length_filter_less)
  ultimately show ?thesis by (simp add: result_pending_def del: filter_filter)
qed

lemma pp_checkTime_seeks:
  assumes "pp_videoRef s = Some v" and "\<not> paused v"
  shows "pp_checkTime cs s =
    (case activeCut cs (v_currentTime v) of
       None \<Rightarrow> s
     | Some c \<Rightarrow> s\<lparr>pp_videoRef := Some (v_seek (result_jump cs (v_currentTime v)) v)\<rparr>)"
  using assms by (simp add: pp_checkTime_def result_jump_def split: option.splits)

lemma pp_checkTime_idle:
  "pp_videoRef s = None \<or> (\<exists>v. pp_videoRef s = Some v \<and> paused v) \<Longrightarrow> pp_checkTime cs s = s"
  by (auto simp: pp_checkTime_def)

section \<open>Invariant\<close>

definition process_inv :: "process_state \<Rightarrow> bool" where
  "process_inv s \<longleftrightarrow>
     0 \<le> progress s \<and> progress s \<le> 100
     \<and> (isComplete s \<longrightarrow> progress s = 100)
     \<and> (pp_videoRef s \<noteq> None \<longleftrightarrow> isComplete s)
     \<and> (loadingReport s \<longrightarrow> isComplete s)
     \<and> (case pp_videoRef s of None \<Rightarrow> True | Some v \<Rightarrow> video_ok v)"

lemma process_inv_init [simp, cc_inv]: "process_inv init_process"
  by (simp add: process_inv_def init_process_def)

lemma process_inv_progress_tick [cc_inv]:
  "process_inv s \<Longrightarrow> process_inv (progress_tick r1 r2 s)"
  using increment_bounds [of r1 r2 "progress s"]
  by (auto simp: process_inv_def progress_tick_def progress_effect_def progress_timeout_def)

lemma process_inv_pp_checkTime [cc_inv]:
  assumes "process_inv s"
  shows "process_inv (pp_checkTime cs s)"
proof (cases "\<exists>v c. pp_videoRef s = Some v \<and> \<not> paused v \<and> activeCut cs (v_currentTime v) = Some c")
  case True
  then obtain v c where v: "pp_videoRef s = Some v" "\<not> paused v"
    and c: "activeCut cs (v_currentTime v) = Some c" by blast
  from assms v have ok: "video_ok v" by (simp add: process_inv_def)
  from activeCut_SomeD [OF c] video_okD(1) [OF ok] have "0 \<le> cut_end c + 0.05" by simp
  with ok have "video_ok (v_seek (cut_end c + 0.05) v)" by (rule video_ok_seek)
  with assms v c show ?thesis by (simp add: process_inv_def pp_checkTime_def)
next
  case False
  then have "pp_checkTime cs s = s"
    by (auto simp: pp_checkTime_def split: option.splits)
  with assms show ?thesis by simp
qed

lemma process_inv_handlePlayPreview [cc_inv]:
  "process_inv s \<Longrightarrow> process_inv (handlePlayPreview a s)"
  by (auto simp: process_inv_def handlePlayPreview_def video_ok_play split: option.splits)

lemma process_step_inv:
  assumes "process_inv s" and "process_enabled e s"
  shows "process_inv (process_step cs e s)"
proof (cases e)
  case (Timeout r1 r2)
  with assms show ?thesis by (simp add: process_inv_progress_tick)
next
  case Frame
  with assms show ?thesis by (simp add: process_inv_pp_checkTime)
next
  case (PlayPreview a)
  with assms show ?thesis by (simp add: process_inv_handlePlayPreview)
next
  case (VideoAdvance dt)
  with assms show ?thesis
    by (auto simp: process_inv_def video_ok_advance split: option.splits)
next
  case (VideoLoadedMetadata d)
  with assms show ?thesis
    by (auto simp: process_inv_def video_ok_loadedmetadata split: option.splits)
qed (use assms in \<open>auto simp: process_inv_def report_effect_def report_resolved_def\<close>)

section \<open>Reachable states\<close>

text \<open>
  The states of the component over a fixed list of cuts: from the initial state by enabled
  events. The cuts are a property that the parent does not change while the component is
  rendered.
\<close>

inductive process_reachable :: "CutEvent list \<Rightarrow> process_state \<Rightarrow> bool" for cs where
  init: "process_reachable cs init_process"
| step: "process_reachable cs s \<Longrightarrow> process_enabled e s \<Longrightarrow> process_reachable cs (process_step cs e s)"

lemma process_reachable_inv: "process_reachable cs s \<Longrightarrow> process_inv s"
  by (induction rule: process_reachable.induct) (simp_all add: process_step_inv)

section \<open>Properties\<close>

definition removed_10_12 :: CutEvent where
  "removed_10_12 = \<lparr>cut_id = ''cut-0'', cut_type = silence, word = Some ''(Silence)'',
     start = 10, cut_end = 12, confidence = 0.9, status = accepted\<rparr>"

text \<open>C23: The render simulation completes. From any progress of at most 100, as many timer
  ticks as there are points left (at least one) bring the progress to exactly 100 and set
  \<open>isComplete\<close>, whatever numbers \<open>Math.random()\<close> returns; the progress never exceeds 100;
  with draws in \<open>[0, 1)\<close> the latest revision needs at least 25 ticks from 0. The first
  revision completes in the same way.\<close>

theorem progress_completes:
  assumes "progress s \<le> 100" and "100 - progress s \<le> int (length rs)" and "rs \<noteq> []"
  shows "progress (timeouts rs s) = 100 \<and> isComplete (timeouts rs s)
    \<and> (\<forall>rs'. progress (timeouts rs' s) \<le> 100)
    \<and> progress (timeouts_v1 (map fst rs) s) = 100 \<and> isComplete (timeouts_v1 (map fst rs) s)
    \<and> (\<forall>rs'. (\<forall>(r1, r2)\<in>set rs'. 0 \<le> r1 \<and> r1 < 1 \<and> 0 \<le> r2 \<and> r2 < 1) \<and> length rs' < 25
          \<longrightarrow> \<not> isComplete (timeouts rs' init_process))"
proof -
  from assms(2) timeouts_lower [of s rs] timeouts_upper [OF assms(1), of rs]
  have p: "progress (timeouts rs s) = 100" by simp
  from assms(2) timeouts_v1_lower [of s "map fst rs"] timeouts_v1_upper [OF assms(1), of "map fst rs"]
  have p1: "progress (timeouts_v1 (map fst rs) s) = 100" by simp
  from p assms(3) have c: "isComplete (timeouts rs s)" by (simp add: timeouts_isComplete)
  from p1 assms(3) have c1: "isComplete (timeouts_v1 (map fst rs) s)"
    by (simp add: timeouts_v1_isComplete)
  have slow: "\<not> isComplete (timeouts rs' init_process)"
    if "\<forall>(r1, r2)\<in>set rs'. 0 \<le> r1 \<and> r1 < 1 \<and> 0 \<le> r2 \<and> r2 < 1" and "length rs' < 25" for rs'
    using timeouts_slow [OF that(1), of init_process] that(2)
    by (simp add: timeouts_isComplete init_process_def)
  from p c p1 c1 timeouts_upper [OF assms(1)] slow show ?thesis by blast
qed

theorem progress_completes_witness:
  "progress (timeouts (replicate 100 (0, 0)) init_process) = 100
   \<and> isComplete (timeouts (replicate 100 (0, 0)) init_process)"
  using progress_completes [of init_process "replicate 100 (0, 0)"]
  by (simp add: init_process_def)

text \<open>C11: The skip loop of the result player converges: iterating its jump from any
  position reaches, within as many jumps as there are accepted cuts, a position at which
  the loop finds no cut to skip.\<close>

theorem result_skip_converges:
  "\<exists>n\<le>length (filter is_accepted cs). activeCut cs ((result_jump cs ^^ n) t) = None"
proof -
  let ?jump = "\<lambda>t. map_option (\<lambda>c. cut_end c + 0.05) (activeCut cs t)"
  have "\<exists>n\<le>result_pending cs t. ?jump ((settle_step ?jump ^^ n) t) = None"
  proof (rule iterate_settles)
    fix x y assume "?jump x = Some y"
    then obtain c where "activeCut cs x = Some c" and "y = cut_end c + 0.05" by auto
    with result_pending_decreases [of cs x c] show "result_pending cs y < result_pending cs x"
      by simp
  qed
  then obtain n where "n \<le> result_pending cs t"
    and "activeCut cs ((result_jump cs ^^ n) t) = None"
    by (auto simp: result_jump_settle_step)
  with result_pending_le [of cs t] show ?thesis
    by (meson order_trans)
qed

text \<open>C35: The result player does not play what the review player plays. For an accepted
  cut \<open>[10, 12)\<close>: entered at 10 the review player resumes at 12 and the result player at
  12.05; entered at 11.95 the review player resumes at 12 and the result player plays the
  cut to its end. An accepted cut of at most a tenth of a second is never skipped by the
  result player, though the metrics count it as removed.\<close>

theorem result_player_differs_from_review:
  "skip_jump [removed_10_12] 10 = 12 \<and> result_jump [removed_10_12] 10 = 12.05
   \<and> skip_jump [removed_10_12] 11.95 = 12 \<and> result_jump [removed_10_12] 11.95 = 11.95
   \<and> (\<forall>c t. c \<in> set cs \<and> cut_end c - start c \<le> 0.1 \<longrightarrow> activeCut cs t \<noteq> Some c)"
proof -
  have "activeCut cs t \<noteq> Some c" if "cut_end c - start c \<le> 0.1" for c t
    using that activeCut_SomeD [of cs t c] by auto
  then show ?thesis
    by (simp add: skip_jump_def currentCut_def result_jump_def activeCut_def removed_10_12_def)
qed

theorem result_player_differs_from_review_witness:
  "activeCut [removed_10_12\<lparr>cut_end := 10.1\<rparr>] 10 \<noteq> Some (removed_10_12\<lparr>cut_end := 10.1\<rparr>)
   \<and> timeSaved (calculateMetrics [removed_10_12\<lparr>cut_end := 10.1\<rparr>] 60) = 0.1"
  using result_player_differs_from_review [of "[removed_10_12\<lparr>cut_end := 10.1\<rparr>]"]
  by (simp add: removed_10_12_def calculateMetrics_def Let_def)

end
