(* ===== verification/Process_View.thy ===== *)
theory Process_View
  imports Process_Phase
begin

text \<open>
  What the processing component draws (\<^verbatim>\<open>src/components/ProcessPhase.tsx\<close>, the two \<open>return\<close>
  statements of the last revision): the rendering screen while \<open>isComplete\<close> is false, the
  result screen afterwards. Every expression of the markup that depends on the state or
  the properties is a field of the view.
\<close>

section \<open>View\<close>

record rendering_view =
  rn_stage :: stage_info
  rn_percent :: string
  rn_format :: string
  rn_quality :: string

record result_view =
  rs_playing_badge :: bool
  rs_play_overlay :: bool
  rs_cards :: "(string \<times> string) list"
  rs_report :: "string option"
  rs_download_label :: string

datatype process_view = RenderingView rendering_view | ResultView result_view

definition process_render ::
  "ProcessingMetrics \<Rightarrow> CutEvent list \<Rightarrow> VideoConfig \<Rightarrow> process_state \<Rightarrow> process_view" where
  "process_render metrics cs cfg s =
     (if \<not> isComplete s
      then RenderingView
        \<lparr>rn_stage = getStageInfo cs cfg (progress s),
         rn_percent = int_toString (progress s) @ ''%'',
         rn_format = OutputFormat_string (outputFormat cfg),
         rn_quality = OutputQuality_string (outputQuality cfg)\<rparr>
      else ResultView
        \<lparr>rs_playing_badge = pp_isPlaying s,
         rs_play_overlay = (\<not> pp_isPlaying s),
         rs_cards = metricCards metrics cfg,
         rs_report = (if loadingReport s then None else Some (aiReport s)),
         rs_download_label =
           ''Download .'' @ toUpperCase (OutputFormat_string (outputFormat cfg))\<rparr>)"

fun stage_rank :: "icon \<Rightarrow> nat" where
  "stage_rank Cpu = 0"
| "stage_rank Sparkles = 1"
| "stage_rank Scissors = 2"
| "stage_rank Layers = 3"
| "stage_rank Film = 4"

section \<open>Stages come in order\<close>

lemma stage_rank_getStageInfo:
  "stage_rank (stage_icon (getStageInfo cs cfg p))
     = (if p < 20 then 0 else if p < 45 then 1 else if p < 70 then 2 else if p < 90 then 3 else 4)"
  by (simp add: getStageInfo_def)

lemma stage_rank_mono:
  "p \<le> q \<Longrightarrow> stage_rank (stage_icon (getStageInfo cs cfg p))
                \<le> stage_rank (stage_icon (getStageInfo cs cfg q))"
  by (simp add: stage_rank_getStageInfo)

lemma progress_tick_mono: "progress s \<le> 100 \<Longrightarrow> progress s \<le> progress (progress_tick r1 r2 s)"
  using increment_bounds [of r1 r2 "progress s"] by (simp add: progress_tick_progress)

lemma stage_never_goes_back:
  assumes "process_inv s" and "process_enabled e s"
  shows "stage_rank (stage_icon (getStageInfo cs cfg (progress s)))
           \<le> stage_rank (stage_icon (getStageInfo cs cfg (progress (process_step cs e s))))"
proof -
  from assms(1) have "progress s \<le> 100" by (simp add: process_inv_def)
  then have "progress s \<le> progress (process_step cs e s)"
    by (cases e)
      (simp_all add: progress_tick_mono report_effect_def report_resolved_def pp_checkTime_def
        handlePlayPreview_def split: option.splits)
  then show ?thesis by (rule stage_rank_mono)
qed

section \<open>Which screen is drawn\<close>

lemma process_render_rendering_iff:
  "(\<exists>v. process_render m cs cfg s = RenderingView v) \<longleftrightarrow> \<not> isComplete s"
  by (simp add: process_render_def)

lemma process_render_init:
  "process_render m cs cfg init_process
     = RenderingView \<lparr>rn_stage = getStageInfo cs cfg 0, rn_percent = ''0%'',
         rn_format = OutputFormat_string (outputFormat cfg),
         rn_quality = OutputQuality_string (outputQuality cfg)\<rparr>"
  by (simp add: process_render_def init_process_def int_toString_def digit_char_def)

lemma process_render_result:
  assumes "process_inv s" and "process_render m cs cfg s = ResultView v"
  shows "progress s = 100" and "pp_videoRef s \<noteq> None"
    and "rs_playing_badge v \<noteq> rs_play_overlay v"
    and "rs_cards v = metricCards m cfg"
  using assms by (auto simp: process_render_def process_inv_def split: if_splits)

lemma process_render_report:
  assumes "isComplete s"
  shows "\<exists>v. process_render m cs cfg (report_effect s) = ResultView v \<and> rs_report v = None"
    and "\<exists>v. process_render m cs cfg (report_resolved r (report_effect s)) = ResultView v
           \<and> rs_report v = Some r"
  using assms by (simp_all add: process_render_def report_effect_def report_resolved_def)

end
