(* ===== verification/App.thy ===== *)
theory App
  imports Review_Phase Process_Phase
begin

text \<open>
  The application shell (\<^verbatim>\<open>src/unnamed/part_000\<close>, the component \<open>App\<close>): the phase of the
  workflow, the state the phases share, and the callbacks it hands to its children.

  \<^item> \<open>app_state\<close> holds the \<open>useState\<close> cells of \<open>App\<close>, the pending call of the analysis
    service (\<open>analysis\<close>: the promise that \<open>handleStartAnalysis\<close> awaits, with the values its
    closure captured), and the local state of whichever child is rendered. A child that
    is not rendered has no state; \<open>mount\<close> is the conditional rendering of the markup: it
    creates the state of a child when its phase begins and discards it when it ends.
  \<^item> \<open>handleStartAnalysis\<close> is split at its \<open>await\<close>: the part before it, the continuation
    (\<open>handleStartAnalysis_resolved\<close>) and the \<open>catch\<close> block (\<open>handleStartAnalysis_rejected\<close>).
  \<^item> \<open>file_effect\<close> is the effect that depends on \<open>file\<close>: it runs the cleanup of its
    previous run, creates an object URL and a detached video element that reads the
    duration (\<open>probes\<close>). \<open>blobStore\<close> holds the object URLs that resolve;
    \<open>createObjectURL\<close> and \<open>revokeObjectURL\<close> are the two operations of the platform on it.
    \<open>reviewSrc\<close> records whether \<open>fileUrl\<close> resolved when the player of the review was
    created: only then can the player receive metadata. The result view is given no URL,
    so its player never does (\<open>process_src\<close>).
  \<^item> \<open>app_event\<close> wraps the events of the children and adds those of the shell;
    \<open>app_step\<close> runs the child's handler, applies the callbacks it called, and renders.
    What the environment chooses (the object URL, the clock, the rectangle of the
    timeline, the random draws, the answer of the remote model) are arguments of the events.
\<close>

section \<open>State\<close>

record analysis_request =
  a_duration :: seconds
  a_config :: VideoConfig

record app_state =
  phase :: Phase
  app_file :: "js_file option"
  fileUrl :: string
  config :: VideoConfig
  savedLists :: "PhraseList list"
  app_cuts :: "CutEvent list"
  app_originalDuration :: seconds
  analysis :: "analysis_request option"
  uploadPhase :: "upload_state option"
  reviewPhase :: "review_state option"
  processPhase :: "process_state option"
  blobStore :: "string list"
  probes :: "string list"
  fileEffect :: "string option"
  reviewSrc :: bool

record env =
  env_url :: string
  env_now :: nat
  env_rect :: rect

definition init_config :: VideoConfig where
  "init_config = \<lparr>removeCliches = True, removeFillers = True, removeSilence = True,
     removeRepetition = True, removeStuttering = True, silenceThreshold = 1.0,
     customPhrases = [], outputFormat = mp4, outputQuality = q1080p\<rparr>"

definition init_savedLists :: "PhraseList list" where
  "init_savedLists =
     [\<lparr>list_id = ''default-1'', list_name = ''Church Service'',
       phrases = [''Hallelujah'', ''Amen'', ''Praise God'', ''Blessing'', ''Scripture'']\<rparr>,
      \<lparr>list_id = ''default-2'', list_name = ''Corporate Meeting'',
       phrases = [''Touch base'', ''Circle back'', ''Synergy'', ''Deep dive'', ''Offline'']\<rparr>,
      \<lparr>list_id = ''default-3'', list_name = ''Gen Z Slang'',
       phrases = [''Literally'', ''No cap'', ''Vibe'', ''Bet'', ''Lowkey'']\<rparr>]"

definition init_app :: app_state where
  "init_app = \<lparr>phase = upload, app_file = None, fileUrl = [], config = init_config,
     savedLists = init_savedLists, app_cuts = [], app_originalDuration = 0, analysis = None,
     uploadPhase = Some init_upload, reviewPhase = None, processPhase = None,
     blobStore = [], probes = [], fileEffect = None, reviewSrc = False\<rparr>"

section \<open>Handlers\<close>

definition createObjectURL :: "string \<Rightarrow> app_state \<Rightarrow> app_state" where
  "createObjectURL u s = s\<lparr>blobStore := u # blobStore s\<rparr>"

definition revokeObjectURL :: "string \<Rightarrow> app_state \<Rightarrow> app_state" where
  "revokeObjectURL u s = s\<lparr>blobStore := removeAll u (blobStore s)\<rparr>"

definition file_cleanup :: "app_state \<Rightarrow> app_state" where
  "file_cleanup s =
     (case fileEffect s of
        None \<Rightarrow> s
      | Some u \<Rightarrow> (revokeObjectURL u s)\<lparr>fileEffect := None\<rparr>)"

definition file_effect :: "string \<Rightarrow> app_state \<Rightarrow> app_state" where
  "file_effect url s =
     (let s0 = file_cleanup s
      in case app_file s0 of
           None \<Rightarrow> s0
         | Some f \<Rightarrow>
             (createObjectURL url s0)\<lparr>fileUrl := url, probes := probes s0 @ [url],
               fileEffect := Some url\<rparr>)"

definition selectFile :: "string \<Rightarrow> js_file \<Rightarrow> app_state \<Rightarrow> app_state" where
  "selectFile url f s = file_effect url (s\<lparr>app_file := Some f\<rparr>)"

definition probe_loadedmetadata :: "string \<Rightarrow> seconds \<Rightarrow> app_state \<Rightarrow> app_state" where
  "probe_loadedmetadata u d s =
     (revokeObjectURL u s)\<lparr>probes := remove1 u (probes s), app_originalDuration := d\<rparr>"

definition mockDuration :: "app_state \<Rightarrow> seconds" where
  "mockDuration s = (if app_originalDuration s = 0 then 60 else app_originalDuration s)"

definition handleStartAnalysis :: "app_state \<Rightarrow> app_state" where
  "handleStartAnalysis s =
     (if app_file s = None then s
      else s\<lparr>phase := analyzing,
             analysis := Some \<lparr>a_duration = mockDuration s, a_config = config s\<rparr>\<rparr>)"

definition keepCut :: "VideoConfig \<Rightarrow> CutEvent \<Rightarrow> bool" where
  "keepCut cfg c =
     (if cut_type c = cliche \<and> \<not> removeCliches cfg then False
      else if cut_type c = filler \<and> \<not> removeFillers cfg then False
      else if cut_type c = silence \<and> \<not> removeSilence cfg then False
      else if cut_type c = silence \<and> (cut_end c - start c) < silenceThreshold cfg then False
      else if cut_type c = repetition \<and> \<not> removeRepetition cfg then False
      else if cut_type c = stutter \<and> \<not> removeStuttering cfg then False
      else True)"

definition handleStartAnalysis_resolved :: "rng \<Rightarrow> app_state \<Rightarrow> app_state" where
  "handleStartAnalysis_resolved rnd s =
     (case analysis s of
        None \<Rightarrow> s
      | Some a \<Rightarrow>
          (let generatedCuts = analyzeVideoMock (a_duration a) rnd;
               filteredCuts = filter (keepCut (a_config a)) generatedCuts
           in s\<lparr>app_cuts := filteredCuts, phase := review, analysis := None\<rparr>))"

definition handleStartAnalysis_rejected :: "app_state \<Rightarrow> app_state" where
  "handleStartAnalysis_rejected s = s\<lparr>phase := upload, analysis := None\<rparr>"

definition handleConfirmCuts :: "app_state \<Rightarrow> app_state" where
  "handleConfirmCuts s = s\<lparr>phase := processing\<rparr>"

definition onCancel :: "app_state \<Rightarrow> app_state" where
  "onCancel s = s\<lparr>phase := upload\<rparr>"

definition handleReset :: "app_state \<Rightarrow> app_state" where
  "handleReset s =
     file_effect [] (s\<lparr>phase := upload, app_file := None, fileUrl := [], app_cuts := []\<rparr>)"

definition handleSaveList :: "nat \<Rightarrow> string \<Rightarrow> string list \<Rightarrow> app_state \<Rightarrow> app_state" where
  "handleSaveList now name ps s =
     s\<lparr>savedLists := savedLists s @ [\<lparr>list_id = nat_toString now, list_name = name, phrases = ps\<rparr>]\<rparr>"

definition handleDeleteList :: "string \<Rightarrow> app_state \<Rightarrow> app_state" where
  "handleDeleteList i s = s\<lparr>savedLists := filter (\<lambda>l. list_id l \<noteq> i) (savedLists s)\<rparr>"

definition app_metrics :: "app_state \<Rightarrow> ProcessingMetrics" where
  "app_metrics s = calculateMetrics (app_cuts s) (app_originalDuration s)"

section \<open>Rendering\<close>

definition header_label :: "Phase \<Rightarrow> string option" where
  "header_label p =
     (if p \<noteq> upload
      then Some (if p = analyzing then ''Analyzing...''
                 else if p = review then ''Review Mode''
                 else if p = processing then ''Rendering...'' else ''Complete'')
      else None)"

definition mount :: "env \<Rightarrow> app_state \<Rightarrow> app_state" where
  "mount ev s =
     s\<lparr>uploadPhase :=
         (if phase s = upload
          then (case uploadPhase s of None \<Rightarrow> Some init_upload | Some u \<Rightarrow> Some u)
          else None),
       reviewPhase :=
         (if phase s = review
          then (case reviewPhase s of
                  None \<Rightarrow> Some (init_review (env_rect ev) (app_cuts s))
                | Some r \<Rightarrow> Some (r\<lparr>cuts := app_cuts s\<rparr>))
          else None),
       processPhase :=
         (if phase s = processing \<or> phase s = completed
          then (case processPhase s of None \<Rightarrow> Some init_process | Some p \<Rightarrow> Some p)
          else None),
       reviewSrc :=
         (if phase s = review
          then (case reviewPhase s of
                  None \<Rightarrow> fileUrl s \<in> set (blobStore s)
                | Some r \<Rightarrow> reviewSrc s)
          else False)\<rparr>"

section \<open>What the result view receives\<close>

record process_props =
  pr_metrics :: ProcessingMetrics
  pr_cuts :: "CutEvent list"
  pr_config :: VideoConfig
  pr_fileUrl :: "string option"
  pr_file :: "js_file option"

definition process_props :: "app_state \<Rightarrow> process_props" where
  "process_props s = \<lparr>pr_metrics = app_metrics s, pr_cuts = app_cuts s, pr_config = config s,
     pr_fileUrl = None, pr_file = None\<rparr>"

definition process_src :: "app_state \<Rightarrow> bool" where
  "process_src s =
     (case pr_fileUrl (process_props s) of None \<Rightarrow> False | Some u \<Rightarrow> u \<in> set (blobStore s))"

section \<open>Events\<close>

datatype app_event =
  Upload upload_event
  | ProbeLoaded string seconds
  | AnalysisResolved rng
  | AnalysisRejected
  | Review event
  | ConfirmCuts
  | CancelReview
  | Process process_event
  | ReportArrives "string option" "prompt_stats \<Rightarrow> ai_result"
  | Reset

fun apply_effect :: "env \<Rightarrow> app_state \<Rightarrow> upload_effect \<Rightarrow> app_state" where
  "apply_effect ev s (onFileSelect f) = selectFile (env_url ev) f s"
| "apply_effect ev s (onSaveList name ps) = handleSaveList (env_now ev) name ps s"
| "apply_effect ev s (onDeleteList i) = handleDeleteList i s"
| "apply_effect ev s onStartAnalysis = handleStartAnalysis s"
| "apply_effect ev s (alert msg) = s"

definition upload_dispatch :: "env \<Rightarrow> upload_event \<Rightarrow> app_state \<Rightarrow> app_state" where
  "upload_dispatch ev e s =
     (case uploadPhase s of
        None \<Rightarrow> s
      | Some u \<Rightarrow>
          (case upload_step e (savedLists s) (u, config s) of
             ((u', cfg'), out) \<Rightarrow>
               foldl (apply_effect ev) (s\<lparr>uploadPhase := Some u', config := cfg'\<rparr>) out))"

definition review_dispatch :: "event \<Rightarrow> app_state \<Rightarrow> js_error + app_state" where
  "review_dispatch e s =
     (case reviewPhase s of
        None \<Rightarrow> Inr s
      | Some r \<Rightarrow>
          (case step e r of
             Inl err \<Rightarrow> Inl err
           | Inr r' \<Rightarrow> Inr (s\<lparr>reviewPhase := Some r', app_cuts := cuts r'\<rparr>)))"

definition process_dispatch :: "process_event \<Rightarrow> app_state \<Rightarrow> app_state" where
  "process_dispatch e s =
     (case processPhase s of
        None \<Rightarrow> s
      | Some p \<Rightarrow> s\<lparr>processPhase := Some (process_step (app_cuts s) e p)\<rparr>)"

definition app_report :: "string option \<Rightarrow> (prompt_stats \<Rightarrow> ai_result) \<Rightarrow> app_state \<Rightarrow> string" where
  "app_report key g s =
     generateEditingReport key g (app_cuts s) (originalDuration (app_metrics s))"

fun app_handler :: "env \<Rightarrow> app_event \<Rightarrow> app_state \<Rightarrow> js_error + app_state" where
  "app_handler ev (Upload e) s = Inr (upload_dispatch ev e s)"
| "app_handler ev (ProbeLoaded u d) s = Inr (probe_loadedmetadata u d s)"
| "app_handler ev (AnalysisResolved rnd) s = Inr (handleStartAnalysis_resolved rnd s)"
| "app_handler ev AnalysisRejected s = Inr (handleStartAnalysis_rejected s)"
| "app_handler ev (Review e) s = review_dispatch e s"
| "app_handler ev ConfirmCuts s = Inr (handleConfirmCuts s)"
| "app_handler ev CancelReview s = Inr (onCancel s)"
| "app_handler ev (Process e) s = Inr (process_dispatch e s)"
| "app_handler ev (ReportArrives key g) s =
     Inr (process_dispatch (ReportResolved (app_report key g s)) s)"
| "app_handler ev Reset s = Inr (handleReset s)"

definition app_step :: "env \<Rightarrow> app_event \<Rightarrow> app_state \<Rightarrow> js_error + app_state" where
  "app_step ev e s = map_sum id (mount ev) (app_handler ev e s)"

fun app_enabled :: "app_event \<Rightarrow> app_state \<Rightarrow> bool" where
  "app_enabled (Upload e) s \<longleftrightarrow>
     (case uploadPhase s of None \<Rightarrow> False | Some u \<Rightarrow> upload_enabled e (savedLists s) (u, config s))"
| "app_enabled (ProbeLoaded u d) s \<longleftrightarrow> u \<in> set (probes s) \<and> 0 \<le> d"
| "app_enabled (AnalysisResolved rnd) s \<longleftrightarrow> analysis s \<noteq> None"
| "app_enabled AnalysisRejected s \<longleftrightarrow> analysis s \<noteq> None"
| "app_enabled (Review e) s \<longleftrightarrow>
     (case reviewPhase s of
        None \<Rightarrow> False
      | Some r \<Rightarrow> enabled e r \<and> (case e of LoadedMetadata d \<Rightarrow> reviewSrc s | _ \<Rightarrow> True))"
| "app_enabled ConfirmCuts s \<longleftrightarrow> phase s = review"
| "app_enabled CancelReview s \<longleftrightarrow> phase s = review"
| "app_enabled (Process e) s \<longleftrightarrow>
     (case processPhase s of
        None \<Rightarrow> False
      | Some p \<Rightarrow> process_enabled e p
          \<and> (case e of VideoLoadedMetadata d \<Rightarrow> process_src s | _ \<Rightarrow> True))"
| "app_enabled (ReportArrives key g) s \<longleftrightarrow>
     (case processPhase s of None \<Rightarrow> False | Some p \<Rightarrow> loadingReport p)"
| "app_enabled Reset s \<longleftrightarrow>
     (case processPhase s of None \<Rightarrow> False | Some p \<Rightarrow> isComplete p)"

fun app_run :: "(env \<times> app_event) list \<Rightarrow> app_state \<Rightarrow> js_error + app_state" where
  "app_run [] s = Inr s"
| "app_run ((ev, e) # es) s = (case app_step ev e s of Inl err \<Rightarrow> Inl err | Inr s' \<Rightarrow> app_run es s')"

inductive app_reachable :: "app_state \<Rightarrow> bool" where
  init: "app_reachable init_app"
| step: "app_reachable s \<Longrightarrow> app_enabled e s \<Longrightarrow> app_step ev e s = Inr s' \<Longrightarrow> app_reachable s'"

section \<open>Invariant\<close>

text \<open>
  \<open>app_core\<close> constrains the cells of the shell, \<open>child_ok\<close> the local state of the rendered
  child, \<open>mounted\<close> says that exactly the child of the current phase is rendered and that
  the review component sees the cuts of the shell.
\<close>

definition app_core :: "app_state \<Rightarrow> bool" where
  "app_core s \<longleftrightarrow>
     phase s \<noteq> completed
     \<and> (analysis s \<noteq> None \<longleftrightarrow> phase s = analyzing)
     \<and> (case analysis s of None \<Rightarrow> True | Some a \<Rightarrow> a_config a = config s \<and> 0 < a_duration a)
     \<and> (phase s \<noteq> upload \<longrightarrow> app_file s \<noteq> None)
     \<and> (case app_file s of None \<Rightarrow> True | Some f \<Rightarrow> file_ok f)
     \<and> phrases_ok (customPhrases (config s)) \<and> saved_ok (savedLists s)
     \<and> 0 \<le> app_originalDuration s
     \<and> (phase s = review \<or> phase s = processing \<longrightarrow> list_all (keepCut (config s)) (app_cuts s))"

definition child_ok :: "app_state \<Rightarrow> bool" where
  "child_ok s \<longleftrightarrow>
     (case uploadPhase s of None \<Rightarrow> True
      | Some u \<Rightarrow> (case selectedFile u of None \<Rightarrow> True | Some f \<Rightarrow> app_file s = Some f))
     \<and> (case reviewPhase s of None \<Rightarrow> True | Some r \<Rightarrow> review_inv r)
     \<and> (case processPhase s of None \<Rightarrow> True | Some p \<Rightarrow> process_inv p)"

definition mounted :: "app_state \<Rightarrow> bool" where
  "mounted s \<longleftrightarrow>
     (uploadPhase s \<noteq> None \<longleftrightarrow> phase s = upload)
     \<and> (reviewPhase s \<noteq> None \<longleftrightarrow> phase s = review)
     \<and> (processPhase s \<noteq> None \<longleftrightarrow> phase s = processing \<or> phase s = completed)
     \<and> (case reviewPhase s of None \<Rightarrow> True | Some r \<Rightarrow> cuts r = app_cuts s)"

definition app_inv :: "app_state \<Rightarrow> bool" where
  "app_inv s \<longleftrightarrow> app_core s \<and> child_ok s \<and> mounted s"

lemmas app_handler_defs [cc_defs] =
  selectFile_def probe_loadedmetadata_def mockDuration_def handleStartAnalysis_def
  handleStartAnalysis_resolved_def handleStartAnalysis_rejected_def handleConfirmCuts_def
  onCancel_def handleReset_def handleSaveList_def handleDeleteList_def

lemmas object_url_defs =
  createObjectURL_def revokeObjectURL_def file_cleanup_def file_effect_def

text \<open>The file effect touches the object URLs and nothing else.\<close>

lemma file_effect_frame [simp, cc_frame]:
  "phase (file_effect url s) = phase s"
  "app_file (file_effect url s) = app_file s"
  "config (file_effect url s) = config s"
  "savedLists (file_effect url s) = savedLists s"
  "app_cuts (file_effect url s) = app_cuts s"
  "app_originalDuration (file_effect url s) = app_originalDuration s"
  "analysis (file_effect url s) = analysis s"
  "uploadPhase (file_effect url s) = uploadPhase s"
  "reviewPhase (file_effect url s) = reviewPhase s"
  "processPhase (file_effect url s) = processPhase s"
  "reviewSrc (file_effect url s) = reviewSrc s"
  by (simp_all add: object_url_defs Let_def split: option.splits)

lemma revokeObjectURL_frame [simp, cc_frame]:
  "phase (revokeObjectURL u s) = phase s"
  "app_file (revokeObjectURL u s) = app_file s"
  "config (revokeObjectURL u s) = config s"
  "savedLists (revokeObjectURL u s) = savedLists s"
  "app_cuts (revokeObjectURL u s) = app_cuts s"
  "app_originalDuration (revokeObjectURL u s) = app_originalDuration s"
  "analysis (revokeObjectURL u s) = analysis s"
  "uploadPhase (revokeObjectURL u s) = uploadPhase s"
  "reviewPhase (revokeObjectURL u s) = reviewPhase s"
  "processPhase (revokeObjectURL u s) = processPhase s"
  "reviewSrc (revokeObjectURL u s) = reviewSrc s"
  "fileUrl (revokeObjectURL u s) = fileUrl s"
  "probes (revokeObjectURL u s) = probes s"
  "fileEffect (revokeObjectURL u s) = fileEffect s"
  by (simp_all add: revokeObjectURL_def)

lemma app_inv_init [simp]: "app_inv init_app"
  by (simp add: app_inv_def app_core_def child_ok_def mounted_def init_app_def init_config_def
      init_savedLists_def init_upload_def saved_ok_def phrases_ok_def trimmed_def
      is_whitespace_def)

subsection \<open>Rendering\<close>

lemma review_inv_cuts_update [simp]: "review_inv (r\<lparr>cuts := cs\<rparr>) \<longleftrightarrow> review_inv r"
  by (simp add: review_inv_iff)

lemma app_core_iff:
  "app_core s \<longleftrightarrow>
     phase s \<noteq> completed
     \<and> (analysis s \<noteq> None \<longleftrightarrow> phase s = analyzing)
     \<and> (\<forall>a. analysis s = Some a \<longrightarrow> a_config a = config s \<and> 0 < a_duration a)
     \<and> (phase s \<noteq> upload \<longrightarrow> app_file s \<noteq> None)
     \<and> (\<forall>f. app_file s = Some f \<longrightarrow> file_ok f)
     \<and> phrases_ok (customPhrases (config s)) \<and> saved_ok (savedLists s)
     \<and> 0 \<le> app_originalDuration s
     \<and> (phase s = review \<or> phase s = processing \<longrightarrow> list_all (keepCut (config s)) (app_cuts s))"
  by (simp add: app_core_def split: option.splits)

lemma child_ok_iff:
  "child_ok s \<longleftrightarrow>
     (\<forall>u f. uploadPhase s = Some u \<and> selectedFile u = Some f \<longrightarrow> app_file s = Some f)
     \<and> (\<forall>r. reviewPhase s = Some r \<longrightarrow> review_inv r)
     \<and> (\<forall>p. processPhase s = Some p \<longrightarrow> process_inv p)"
  by (auto simp: child_ok_def split: option.splits)

lemma app_core_mount [simp]: "app_core (mount ev s) \<longleftrightarrow> app_core s"
  by (simp add: app_core_iff mount_def)

lemma mounted_mount [simp]: "mounted (mount ev s)"
  by (auto simp: mounted_def mount_def init_review_def split: option.splits)

lemma child_ok_mount: "child_ok s \<Longrightarrow> child_ok (mount ev s)"
  by (auto simp: child_ok_iff mount_def init_upload_def split: option.splits if_splits)

lemma app_inv_mount: "app_core s \<Longrightarrow> child_ok s \<Longrightarrow> app_inv (mount ev s)"
  by (simp add: app_inv_def child_ok_mount)

subsection \<open>The cuts under the events of the review\<close>

lemma step_cuts:
  "step e r = Inr r' \<Longrightarrow>
     cuts r' = (case e of ToggleCutStatus i st \<Rightarrow> toggleCutStatus i st (cuts r) | _ \<Rightarrow> cuts r)"
  by (cases e)
    (auto simp: handler_defs Let_def split: option.splits if_splits jsnum.splits)

lemma keepCut_status [simp]: "keepCut cfg (c\<lparr>status := st\<rparr>) = keepCut cfg c"
  by (simp add: keepCut_def)

lemma keepCut_toggleCutStatus [simp]:
  "list_all (keepCut cfg) (toggleCutStatus i st cs) \<longleftrightarrow> list_all (keepCut cfg) cs"
  by (induction cs) auto

lemma step_keepCut:
  assumes "step e r = Inr r'"
  shows "list_all (keepCut cfg) (cuts r') \<longleftrightarrow> list_all (keepCut cfg) (cuts r)"
  using step_cuts [OF assms] by (cases e) simp_all

subsection \<open>The handlers keep the invariant\<close>

lemma apply_effect_inv:
  assumes "app_core s" and "uploadPhase s = Some u" and "effect_ok u eff"
    and "\<And>f. selectedFile u = Some f \<Longrightarrow> app_file s = Some f \<or> eff = onFileSelect f"
    and "phase s = upload" and "reviewPhase s = None" and "processPhase s = None"
  shows "app_core (apply_effect ev s eff) \<and> child_ok (apply_effect ev s eff)"
proof (cases eff)
  case (onFileSelect f)
  with assms show ?thesis
    by (auto simp: app_core_iff child_ok_iff selectFile_def)
next
  case (onSaveList name ps)
  with assms show ?thesis
    by (auto simp: app_core_iff child_ok_iff handleSaveList_def)
next
  case (onDeleteList i)
  with assms show ?thesis
    by (auto simp: app_core_iff child_ok_iff handleDeleteList_def saved_ok_filter)
next
  case onStartAnalysis
  with assms show ?thesis
    by (auto simp: app_core_iff child_ok_iff handleStartAnalysis_def mockDuration_def)
next
  case (alert msg)
  with assms show ?thesis by (auto simp: app_core_iff child_ok_iff)
qed

lemma upload_dispatch_inv:
  assumes "app_inv s" and "app_enabled (Upload e) s"
  shows "app_core (upload_dispatch ev e s) \<and> child_ok (upload_dispatch ev e s)"
proof -
  from assms(2) obtain u where u: "uploadPhase s = Some u" by (auto split: option.splits)
  with assms(1) have ph: "phase s = upload" and core: "app_core s" and ch: "child_ok s"
    and no: "reviewPhase s = None" "processPhase s = None"
    by (auto simp: app_inv_def mounted_def)
  obtain u' cfg' out where st: "upload_step e (savedLists s) (u, config s) = ((u', cfg'), out)"
    by (metis surj_pair)
  let ?s1 = "s\<lparr>uploadPhase := Some u', config := cfg'\<rparr>"
  from core ch u have ui: "upload_inv (u, config s)"
    by (auto simp: upload_inv_def app_core_iff child_ok_iff split: option.splits)
  from core have so: "saved_ok (savedLists s)" by (simp add: app_core_iff)
  note inv = upload_step_inv [OF ui so st]
  from core ph inv(1) have core1: "app_core ?s1"
    by (simp add: app_core_iff upload_inv_def)
  have link: "app_file s = Some f \<or> out = [onFileSelect f]" if "selectedFile u' = Some f" for f
    using upload_step_link(2) [OF st that] ch u by (auto simp: child_ok_iff)
  from upload_step_link(1) [OF st] consider "out = []" | eff where "out = [eff]"
    by (cases out) auto
  then show ?thesis
  proof cases
    case 1
    with link core1 ch u st show ?thesis
      by (auto simp: upload_dispatch_def child_ok_iff)
  next
    case 2
    with inv(2) have "effect_ok u' eff" by simp
    moreover from link 2 have "app_file ?s1 = Some f \<or> eff = onFileSelect f"
      if "selectedFile u' = Some f" for f using that by auto
    ultimately have "app_core (apply_effect ev ?s1 eff) \<and> child_ok (apply_effect ev ?s1 eff)"
      using core1 ph no by (intro apply_effect_inv [of ?s1 u']) simp_all
    with 2 u st show ?thesis by (simp add: upload_dispatch_def)
  qed
qed

lemma review_dispatch_inv:
  assumes "app_inv s" and "app_enabled (Review e) s" and "review_dispatch e s = Inr s'"
  shows "app_core s' \<and> child_ok s'"
proof -
  from assms(2) obtain r where r: "reviewPhase s = Some r" and en: "enabled e r"
    by (auto split: option.splits)
  with assms(3) obtain r' where st: "step e r = Inr r'"
    and s': "s' = s\<lparr>reviewPhase := Some r', app_cuts := cuts r'\<rparr>"
    by (auto simp: review_dispatch_def split: sum.splits)
  from assms(1) r have ri: "review_inv r" and cs: "cuts r = app_cuts s"
    and core: "app_core s" and ch: "child_ok s"
    by (auto simp: app_inv_def child_ok_iff mounted_def)
  from step_preserves_review_inv [OF ri en st] ch have "child_ok s'"
    by (auto simp: s' child_ok_iff)
  moreover from core step_keepCut [OF st, of "config s"] cs have "app_core s'"
    by (simp add: s' app_core_iff)
  ultimately show ?thesis by simp
qed

lemma process_dispatch_inv:
  assumes "app_inv s" and "processPhase s = Some p" and "process_enabled e p"
  shows "app_core (process_dispatch e s) \<and> child_ok (process_dispatch e s)"
proof -
  from assms(1,2) have "process_inv p" and core: "app_core s" and ch: "child_ok s"
    by (auto simp: app_inv_def child_ok_iff)
  with assms(3) have "process_inv (process_step (app_cuts s) e p)" by (simp add: process_step_inv)
  with core ch assms(2) show ?thesis
    by (auto simp: process_dispatch_def app_core_iff child_ok_iff)
qed

lemma app_invD:
  assumes "app_inv s"
  shows "app_core s" and "child_ok s" and "mounted s"
  using assms by (simp_all add: app_inv_def)

lemma child_ok_shell [simp]:
  "child_ok (probe_loadedmetadata url d s) \<longleftrightarrow> child_ok s"
  "child_ok (handleConfirmCuts s) \<longleftrightarrow> child_ok s"
  "child_ok (onCancel s) \<longleftrightarrow> child_ok s"
  "child_ok (handleStartAnalysis_resolved rnd s) \<longleftrightarrow> child_ok s"
  "child_ok (handleStartAnalysis_rejected s) \<longleftrightarrow> child_ok s"
  by (simp_all add: child_ok_iff probe_loadedmetadata_def
      handleConfirmCuts_def onCancel_def handleStartAnalysis_resolved_def
      handleStartAnalysis_rejected_def Let_def split: option.splits)

lemma app_core_probe: "app_core s \<Longrightarrow> 0 \<le> d \<Longrightarrow> app_core (probe_loadedmetadata url d s)"
  by (simp add: app_core_iff probe_loadedmetadata_def)

lemma app_core_confirm: "app_core s \<Longrightarrow> phase s = review \<Longrightarrow> app_core (handleConfirmCuts s)"
  by (simp add: app_core_iff handleConfirmCuts_def)

lemma app_core_cancel: "app_core s \<Longrightarrow> phase s = review \<Longrightarrow> app_core (onCancel s)"
  by (simp add: app_core_iff onCancel_def)

lemma app_core_rejected:
  "app_core s \<Longrightarrow> analysis s \<noteq> None \<Longrightarrow> app_core (handleStartAnalysis_rejected s)"
  by (auto simp: app_core_iff handleStartAnalysis_rejected_def)

lemma app_core_resolved:
  assumes "app_core s" and "analysis s = Some a"
  shows "app_core (handleStartAnalysis_resolved rnd s)"
proof -
  from assms have "a_config a = config s" and "phase s = analyzing" by (auto simp: app_core_iff)
  with assms show ?thesis
    by (simp add: app_core_iff handleStartAnalysis_resolved_def Let_def list_all_iff)
qed

lemma app_inv_reset:
  assumes "app_inv s" and "processPhase s = Some p"
  shows "app_core (handleReset s)" and "child_ok (handleReset s)"
proof -
  from assms have ph: "phase s = processing" and up: "uploadPhase s = None"
    by (auto simp: app_inv_def mounted_def app_core_iff)
  with app_invD(1) [OF assms(1)] show "app_core (handleReset s)"
    by (simp add: app_core_iff handleReset_def)
  from app_invD(2) [OF assms(1)] up show "child_ok (handleReset s)"
    by (simp add: child_ok_iff handleReset_def)
qed

lemma app_handler_inv:
  assumes "app_inv s" and "app_enabled e s" and "app_handler ev e s = Inr s'"
  shows "app_core s' \<and> child_ok s'"
proof (cases e)
  case (Upload e')
  with assms upload_dispatch_inv [of s e' ev] show ?thesis by auto
next
  case (ProbeLoaded url d)
  with assms app_invD [OF assms(1)] show ?thesis by (auto simp: app_core_probe)
next
  case (AnalysisResolved rnd)
  with assms app_invD [OF assms(1)] show ?thesis by (auto simp: app_core_resolved)
next
  case AnalysisRejected
  with assms app_invD [OF assms(1)] show ?thesis by (auto simp: app_core_rejected)
next
  case (Review e')
  with assms review_dispatch_inv [of s e' s'] show ?thesis by simp
next
  case ConfirmCuts
  with assms app_invD [OF assms(1)] show ?thesis by (auto simp: app_core_confirm)
next
  case CancelReview
  with assms app_invD [OF assms(1)] show ?thesis by (auto simp: app_core_cancel)
next
  case (Process e')
  with assms process_dispatch_inv [of s _ e'] show ?thesis by (auto split: option.splits)
next
  case (ReportArrives key g)
  with assms process_dispatch_inv [of s _ "ReportResolved (app_report key g s)"] show ?thesis
    by (auto split: option.splits)
next
  case Reset
  with assms app_inv_reset [OF assms(1)] show ?thesis by (auto split: option.splits)
qed

lemma app_step_inv:
  assumes "app_inv s" and "app_enabled e s" and "app_step ev e s = Inr s'"
  shows "app_inv s'"
proof -
  from assms(3) obtain s1 where h: "app_handler ev e s = Inr s1" and s': "s' = mount ev s1"
    by (cases "app_handler ev e s") (auto simp: app_step_def)
  from app_handler_inv [OF assms(1,2) h] show ?thesis
    unfolding s' by (simp add: app_inv_mount)
qed

lemma app_reachable_app_inv: "app_reachable s \<Longrightarrow> app_inv s"
  by (induction rule: app_reachable.induct) (auto intro: app_step_inv)

section \<open>Runs\<close>

fun app_enabled_run :: "(env \<times> app_event) list \<Rightarrow> app_state \<Rightarrow> bool" where
  "app_enabled_run [] s \<longleftrightarrow> True"
| "app_enabled_run ((ev, e) # es) s \<longleftrightarrow>
     app_enabled e s \<and> (case app_step ev e s of Inl err \<Rightarrow> True | Inr s' \<Rightarrow> app_enabled_run es s')"

lemma app_reachable_run:
  "app_reachable s \<Longrightarrow> app_enabled_run es s \<Longrightarrow> app_run es s = Inr s' \<Longrightarrow> app_reachable s'"
proof (induction es arbitrary: s)
  case Nil
  then show ?case by simp
next
  case (Cons x es)
  obtain ev e where x: "x = (ev, e)" by (cases x)
  with Cons.prems obtain s1 where s1: "app_step ev e s = Inr s1" and r: "app_run es s1 = Inr s'"
    by (auto split: sum.splits)
  with Cons.prems x have "app_reachable s1" "app_enabled_run es s1"
    by (auto intro: app_reachable.step)
  with r show ?case by (auto intro: Cons.IH)
qed

definition env0 :: env where
  "env0 = \<lparr>env_url = ''blob:clip'', env_now = 1700000000000, env_rect = timeline_800\<rparr>"

definition app_selected :: app_state where
  "app_selected = init_app\<lparr>app_file := Some clip_mp4, fileUrl := ''blob:clip'',
     uploadPhase := Some (init_upload\<lparr>selectedFile := Some clip_mp4\<rparr>),
     blobStore := [''blob:clip''], probes := [''blob:clip''], fileEffect := Some ''blob:clip''\<rparr>"

definition app_analyzing :: app_state where
  "app_analyzing = app_selected\<lparr>phase := analyzing, uploadPhase := None,
     analysis := Some \<lparr>a_duration = 60, a_config = init_config\<rparr>\<rparr>"

definition app_review :: app_state where
  "app_review = app_analyzing\<lparr>phase := review, analysis := None,
     app_cuts := map hallelujah [0..<6],
     reviewPhase := Some (init_review timeline_800 (map hallelujah [0..<6])),
     reviewSrc := True\<rparr>"

definition app_processing :: app_state where
  "app_processing = app_review\<lparr>phase := processing, reviewPhase := None,
     processPhase := Some init_process, reviewSrc := False\<rparr>"

lemmas app_examples = app_selected_def app_analyzing_def app_review_def app_processing_def

lemma step_select: "app_step env0 (Upload (Change [clip_mp4])) init_app = Inr app_selected"
  by (simp add: app_step_def upload_dispatch_def init_app_def handleChange_def
      validateAndSetFile_def clip_mp4_def startsWith_def selectFile_def object_url_defs
      mount_def env0_def app_selected_def)

lemma step_analyze: "app_step env0 (Upload ClickAnalyze) app_selected = Inr app_analyzing"
  by (simp add: app_step_def upload_dispatch_def init_app_def clickAnalyze_def
      handleStartAnalysis_def mockDuration_def mount_def app_examples init_upload_def)

lemma step_resolved: "app_step env0 (AnalysisResolved half_rng) app_analyzing = Inr app_review"
proof -
  have "filter (keepCut init_config) (map hallelujah [0..<6]) = map hallelujah [0..<6]"
    by (simp add: filter_map o_def keepCut_def init_config_def hallelujah_def)
  then show ?thesis
    by (simp add: app_step_def handleStartAnalysis_resolved_def analyzeVideoMock_half mount_def
        app_examples init_app_def env0_def)
qed

lemma step_confirm: "app_step env0 ConfirmCuts app_review = Inr app_processing"
  by (simp add: app_step_def handleConfirmCuts_def mount_def app_examples init_app_def)

definition to_processing :: "(env \<times> app_event) list" where
  "to_processing = [(env0, Upload (Change [clip_mp4])), (env0, Upload ClickAnalyze),
     (env0, AnalysisResolved half_rng), (env0, ConfirmCuts)]"

lemma run_to_processing: "app_run to_processing init_app = Inr app_processing"
  by (simp add: to_processing_def step_select step_analyze step_resolved step_confirm)

lemma enabled_to_processing: "app_enabled_run to_processing init_app"
  by (simp add: to_processing_def step_select step_analyze step_resolved step_confirm)
    (simp add: app_examples init_app_def init_upload_def)

lemma reachable_processing: "app_reachable app_processing"
  using app_reachable.init enabled_to_processing run_to_processing by (rule app_reachable_run)

section \<open>What the analysis hands over\<close>

lemma keepCut_iff:
  "keepCut cfg c \<longleftrightarrow>
     (cut_type c = cliche \<longrightarrow> removeCliches cfg)
     \<and> (cut_type c = filler \<longrightarrow> removeFillers cfg)
     \<and> (cut_type c = silence \<longrightarrow> removeSilence cfg \<and> \<not> cut_end c - start c < silenceThreshold cfg)
     \<and> (cut_type c = repetition \<longrightarrow> removeRepetition cfg)
     \<and> (cut_type c = stutter \<longrightarrow> removeStuttering cfg)"
  by (cases "cut_type c") (auto simp: keepCut_def)

lemma resolved_cuts:
  assumes "app_file s \<noteq> None"
  shows "app_cuts (handleStartAnalysis_resolved rnd (handleStartAnalysis s))
      = filter (keepCut (config s)) (analyzeVideoMock (mockDuration s) rnd)"
    and "phase (handleStartAnalysis_resolved rnd (handleStartAnalysis s)) = review"
    and "app_originalDuration (handleStartAnalysis_resolved rnd (handleStartAnalysis s))
      = app_originalDuration s"
  using assms
  by (auto simp: handleStartAnalysis_resolved_def handleStartAnalysis_def Let_def)

section \<open>Properties\<close>

text \<open>C8: In every reachable state of the application exactly the child of the current
  phase is rendered; the phase is never \<open>completed\<close>; outside the upload phase a file is
  selected, and a selected file is a video of at most 2 GiB; there are at most ten custom
  phrases; during analysis exactly one request is pending; the review component sees the
  cuts of the shell and its own invariant holds; the progress of the render is within
  \<open>[0, 100]\<close>.\<close>

theorem app_reachable_inv:
  assumes "app_reachable s"
  shows "app_inv s \<and> phase s \<noteq> completed
    \<and> (uploadPhase s \<noteq> None \<longleftrightarrow> phase s = upload)
    \<and> (reviewPhase s \<noteq> None \<longleftrightarrow> phase s = review)
    \<and> (processPhase s \<noteq> None \<longleftrightarrow> phase s = processing)
    \<and> (analysis s \<noteq> None \<longleftrightarrow> phase s = analyzing)
    \<and> (phase s \<noteq> upload \<longrightarrow> app_file s \<noteq> None)
    \<and> length (customPhrases (config s)) \<le> 10"
  using app_reachable_app_inv [OF assms]
  by (auto simp: app_inv_def app_core_iff mounted_def phrases_ok_def)

theorem app_reachable_inv_witness:
  "app_reachable app_processing \<and> app_inv app_processing \<and> phase app_processing = processing"
proof -
  from app_reachable_inv [OF reachable_processing] have "app_inv app_processing" by blast
  moreover have "phase app_processing = processing" by (simp add: app_examples)
  ultimately show ?thesis using reachable_processing by blast
qed

text \<open>C13: The analysis hands to the review generated cuts only, and those the
  configuration asks for: a cut that is not a silence is handed over exactly when the
  removal of its type is switched on; a silence longer than the threshold exactly when the
  removal of silences is switched on; a silence shorter than the threshold never. The cuts
  stay sorted by start and keep distinct ids; the duration given to the generator is the
  duration of the video, or 60 when it is not known.\<close>

theorem analysis_result:
  assumes "app_file s \<noteq> None"
  shows "phase (handleStartAnalysis_resolved rnd (handleStartAnalysis s)) = review
    \<and> (\<forall>c \<in> set (analyzeVideoMock
                 (if app_originalDuration s = 0 then 60 else app_originalDuration s) rnd).
          (cut_type c = cliche \<longrightarrow>
             (c \<in> set (app_cuts (handleStartAnalysis_resolved rnd (handleStartAnalysis s)))
                \<longleftrightarrow> removeCliches (config s)))
          \<and> (cut_type c = filler \<longrightarrow>
             (c \<in> set (app_cuts (handleStartAnalysis_resolved rnd (handleStartAnalysis s)))
                \<longleftrightarrow> removeFillers (config s)))
          \<and> (cut_type c = repetition \<longrightarrow>
             (c \<in> set (app_cuts (handleStartAnalysis_resolved rnd (handleStartAnalysis s)))
                \<longleftrightarrow> removeRepetition (config s)))
          \<and> (cut_type c = stutter \<longrightarrow>
             (c \<in> set (app_cuts (handleStartAnalysis_resolved rnd (handleStartAnalysis s)))
                \<longleftrightarrow> removeStuttering (config s)))
          \<and> (cut_type c = silence \<and> silenceThreshold (config s) < cut_end c - start c \<longrightarrow>
             (c \<in> set (app_cuts (handleStartAnalysis_resolved rnd (handleStartAnalysis s)))
                \<longleftrightarrow> removeSilence (config s)))
          \<and> (cut_type c = silence \<and> cut_end c - start c < silenceThreshold (config s) \<longrightarrow>
             c \<notin> set (app_cuts (handleStartAnalysis_resolved rnd (handleStartAnalysis s)))))
    \<and> set (app_cuts (handleStartAnalysis_resolved rnd (handleStartAnalysis s)))
        \<subseteq> set (analyzeVideoMock
                 (if app_originalDuration s = 0 then 60 else app_originalDuration s) rnd)
    \<and> sorted (map start (app_cuts (handleStartAnalysis_resolved rnd (handleStartAnalysis s))))
    \<and> distinct (map cut_id (app_cuts (handleStartAnalysis_resolved rnd (handleStartAnalysis s))))"
proof -
  let ?d = "if app_originalDuration s = 0 then 60 else app_originalDuration s"
  have d: "mockDuration s = ?d" by (simp add: mockDuration_def)
  note c = resolved_cuts(1) [OF assms, of rnd, unfolded d]
  from sorted_analyzeVideoMock [of ?d rnd] distinct_ids_analyzeVideoMock [of ?d rnd]
  have "sorted (map start (filter (keepCut (config s)) (analyzeVideoMock ?d rnd)))"
    and "distinct (map cut_id (filter (keepCut (config s)) (analyzeVideoMock ?d rnd)))"
    by (simp_all add: sorted_filter distinct_map_filter)
  with resolved_cuts(2) [OF assms] show ?thesis
    unfolding c by (auto simp: keepCut_iff)
qed

theorem analysis_result_witness:
  "app_file app_selected \<noteq> None
   \<and> phase (handleStartAnalysis_resolved half_rng (handleStartAnalysis app_selected)) = review
   \<and> sorted (map start
        (app_cuts (handleStartAnalysis_resolved half_rng (handleStartAnalysis app_selected))))"
  using analysis_result [of app_selected half_rng] by (simp add: app_examples)

text \<open>At the boundary the comment and the code differ: the comment asks for a silence
  longer than the threshold, the filter keeps a silence of exactly the threshold.\<close>

lemma silence_of_threshold_length_kept:
  assumes "cut_type c = silence" and "removeSilence cfg"
    and "cut_end c - start c = silenceThreshold cfg"
  shows "keepCut cfg c"
  using assms by (simp add: keepCut_iff)

text \<open>C33: When the duration of the video is not known (\<open>originalDuration\<close> is 0) the
  generator is given 60 seconds, but the metrics and the report are computed with the
  duration 0: whatever the configuration and the draws, after the analysis and the
  confirmation the original duration of the metrics is 0 and the new duration is not
  positive; when at least one cut is handed over the new duration is negative and the
  share the report prints is \<open>Infinity\<close>.\<close>

theorem analysis_without_metadata:
  assumes "app_file s \<noteq> None" and "app_originalDuration s = 0" and "unit_rng rnd"
  shows "analysis (handleStartAnalysis s) = Some \<lparr>a_duration = 60, a_config = config s\<rparr>
    \<and> originalDuration (app_metrics
          (handleConfirmCuts (handleStartAnalysis_resolved rnd (handleStartAnalysis s)))) = 0
    \<and> finalDuration (app_metrics
          (handleConfirmCuts (handleStartAnalysis_resolved rnd (handleStartAnalysis s)))) \<le> 0
    \<and> (app_cuts (handleStartAnalysis_resolved rnd (handleStartAnalysis s)) \<noteq> [] \<longrightarrow>
         finalDuration (app_metrics
            (handleConfirmCuts (handleStartAnalysis_resolved rnd (handleStartAnalysis s)))) < 0
         \<and> concise_percent
              (app_cuts (handleConfirmCuts (handleStartAnalysis_resolved rnd (handleStartAnalysis s))))
              (originalDuration (app_metrics
                 (handleConfirmCuts (handleStartAnalysis_resolved rnd (handleStartAnalysis s)))))
            = PosInfinity)"
proof -
  let ?s' = "handleStartAnalysis_resolved rnd (handleStartAnalysis s)"
  let ?cs = "filter (keepCut (config s)) (analyzeVideoMock 60 rnd)"
  from assms(2) have d: "mockDuration s = 60" by (simp add: mockDuration_def)
  note c = resolved_cuts(1) [OF assms(1), of rnd, unfolded d]
  from generated_cuts_accepted [OF assms(3), of 60]
  have all: "\<forall>c\<in>set ?cs. status c = accepted \<and> start c < cut_end c" by simp
  have m: "app_metrics (handleConfirmCuts ?s') = calculateMetrics ?cs 0"
    using resolved_cuts(3) [OF assms(1), of rnd] assms(2)
    by (simp add: app_metrics_def handleConfirmCuts_def c)
  have le: "0 \<le> accepted_length ?cs"
    using all by (intro accepted_length_nonneg) (auto simp: list_all_iff less_imp_le)
  have a: "analysis (handleStartAnalysis s) = Some \<lparr>a_duration = 60, a_config = config s\<rparr>"
    using assms(1) d by (auto simp: handleStartAnalysis_def)
  have "concise_percent ?cs 0 = PosInfinity" and "0 < accepted_length ?cs" if "?cs \<noteq> []"
    using accepted_length_pos [OF all that]
    by (simp_all add: concise_percent_def js_div_def js_mul_def)
  moreover have "app_cuts (handleConfirmCuts ?s') = ?cs" by (simp add: handleConfirmCuts_def c)
  ultimately show ?thesis using a le by (simp add: m c)
qed


theorem analysis_without_metadata_witness:
  "app_file app_selected \<noteq> None \<and> app_originalDuration app_selected = 0 \<and> unit_rng half_rng
   \<and> app_run to_processing init_app = Inr app_processing
   \<and> app_reachable app_processing
   \<and> originalDuration (app_metrics app_processing) = 0
   \<and> finalDuration (app_metrics app_processing) = - 7.2
   \<and> lookup_card ''New Duration'' (metricCards (app_metrics app_processing) (config app_processing))
       = Some ''-0.1m''
   \<and> concise_percent (app_cuts app_processing) (originalDuration (app_metrics app_processing))
       = PosInfinity"
proof -
  let ?s = "handleConfirmCuts (handleStartAnalysis_resolved half_rng (handleStartAnalysis app_selected))"
  have h: "app_file app_selected \<noteq> None" "app_originalDuration app_selected = 0"
    by (simp_all add: app_selected_def init_app_def)
  have keep: "filter (keepCut init_config) (map hallelujah [0..<6]) = map hallelujah [0..<6]"
    by (simp add: filter_map o_def keepCut_def init_config_def hallelujah_def)
  have cs: "app_cuts ?s = map hallelujah [0..<6]" "app_cuts app_processing = map hallelujah [0..<6]"
    and m: "app_metrics ?s = app_metrics app_processing"
    by (simp_all add: handleConfirmCuts_def handleStartAnalysis_resolved_def
        handleStartAnalysis_def mockDuration_def analyzeVideoMock_half keep app_metrics_def
        app_examples init_app_def)
  have ne: "app_cuts (handleStartAnalysis_resolved half_rng (handleStartAnalysis app_selected)) \<noteq> []"
    by (simp add: handleStartAnalysis_resolved_def handleStartAnalysis_def mockDuration_def
        analyzeVideoMock_half keep app_selected_def init_app_def)
  from analysis_without_metadata [OF h unit_half_rng] ne
  have "concise_percent (app_cuts ?s) (originalDuration (app_metrics ?s)) = PosInfinity"
    and "originalDuration (app_metrics ?s) = 0"
    by blast+
  then have inf: "concise_percent (app_cuts app_processing)
      (originalDuration (app_metrics app_processing)) = PosInfinity"
    and od: "originalDuration (app_metrics app_processing) = 0"
    unfolding m cs by simp_all
  have len: "accepted_length (map hallelujah [0..<6]) = 7.2"
    using hallelujah_lengths [of "[0..<6]"]
    by (simp add: accepted_length_def is_accepted_fun cut_length_fun filter_map o_def)
  with cs(2) od have fd: "finalDuration (app_metrics app_processing) = - 7.2"
    by (simp add: app_metrics_def app_examples init_app_def)
  then have card: "lookup_card ''New Duration''
      (metricCards (app_metrics app_processing) (config app_processing)) = Some ''-0.1m''"
    by (simp add: metricCards_def lookup_card_def toFixed_def toFixed_int_def padStart_def
        digit_char_def)
  from h unit_half_rng run_to_processing reachable_processing inf od fd card show ?thesis
    by simp
qed


lemma timestamp_not_default: "nat_toString now \<notin> set (map list_id init_savedLists)"
proof
  assume "nat_toString now \<in> set (map list_id init_savedLists)"
  then have "CHR ''d'' \<in> set (nat_toString now)"
    by (auto simp: init_savedLists_def)
  then show False by (auto dest: is_digit_nat_toString)
qed

text \<open>C30: A saved phrase list can be loaded again. When the timestamp is not yet the id
  of a saved list (it never is one of the three default ids), saving the current phrases
  and loading the new list restores them, and deleting the new list restores the saved
  lists. Two lists saved within the same millisecond share their id: loading finds the
  first one only, and deleting removes both.\<close>

theorem saved_list_roundtrip:
  assumes "nat_toString now \<notin> set (map list_id (savedLists s))"
  shows "handleLoadList (nat_toString now) (savedLists (handleSaveList now name ps s)) cfg u
      = (u\<lparr>selectedListId := nat_toString now\<rparr>, cfg\<lparr>customPhrases := ps\<rparr>)
    \<and> savedLists (handleDeleteList (nat_toString now) (handleSaveList now name ps s)) = savedLists s
    \<and> handleLoadList (nat_toString now)
        (savedLists (handleSaveList now name' ps' (handleSaveList now name ps s))) cfg u
      = (u\<lparr>selectedListId := nat_toString now\<rparr>, cfg\<lparr>customPhrases := ps\<rparr>)
    \<and> savedLists (handleDeleteList (nat_toString now)
        (handleSaveList now name' ps' (handleSaveList now name ps s))) = savedLists s"
proof -
  let ?l = "\<lparr>list_id = nat_toString now, list_name = name, phrases = ps\<rparr>"
  let ?P = "\<lambda>l. list_id l = nat_toString now"
  from assms have fresh: "\<forall>l\<in>set (savedLists s). \<not> ?P l" by force
  then have f: "find ?P (savedLists s @ [?l]) = Some ?l" by (rule find_fresh_snoc) simp
  from fresh have d: "filter (\<lambda>l. list_id l \<noteq> nat_toString now) (savedLists s) = savedLists s"
    by (simp add: filter_id_conv)
  from f find_snoc_present [OF f] d show ?thesis
    by (simp add: handleLoadList_def handleSaveList_def handleDeleteList_def)
qed

theorem saved_list_roundtrip_witness:
  "handleLoadList (nat_toString 1700000000000)
      (savedLists (handleSaveList 1700000000000 ''mine'' [''sort of''] init_app)) init_config init_upload
   = (init_upload\<lparr>selectedListId := nat_toString 1700000000000\<rparr>,
      init_config\<lparr>customPhrases := [''sort of'']\<rparr>)"
  using saved_list_roundtrip [of 1700000000000 init_app "''mine''" "[''sort of'']" init_config init_upload]
    timestamp_not_default [of 1700000000000]
  by (simp add: init_app_def)

text \<open>The shell hands neither the file nor its URL to the result view, so in every
  reachable state the download handler of the result view finds nothing to download and
  the player of the result view has no source and never receives metadata; and since the
  phase is never \<open>completed\<close>, the header never shows \<open>Complete\<close>.\<close>

lemma download_never_offered:
  assumes "app_reachable s"
  shows "handleDownload (pr_file (process_props s)) (pr_fileUrl (process_props s))
        (pr_config (process_props s)) = None
    \<and> \<not> process_src s \<and> \<not> app_enabled (Process (VideoLoadedMetadata d)) s
    \<and> header_label (phase s) \<noteq> Some ''Complete''"
proof -
  from app_reachable_app_inv [OF assms] have "phase s \<noteq> completed"
    by (simp add: app_inv_def app_core_iff)
  then have "header_label (phase s) \<noteq> Some ''Complete''"
    by (cases "phase s") (simp_all add: header_label_def)
  moreover have "\<not> process_src s" by (simp add: process_src_def process_props_def)
  ultimately show ?thesis
    by (simp add: handleDownload_def process_props_def split: option.splits)
qed

lemma download_never_offered_example:
  "handleDownload (pr_file (process_props app_processing))
      (pr_fileUrl (process_props app_processing)) (pr_config (process_props app_processing)) = None
   \<and> header_label (phase app_processing) = Some ''Rendering...''"
  using download_never_offered [OF reachable_processing]
  by (simp add: app_examples header_label_def)

end
