(* ===== verification/App_View.thy ===== *)
theory App_View
  imports App Review_View Upload_View Process_View
begin

text \<open>
  What the application draws (\<^verbatim>\<open>src/unnamed/part_000\<close>, the JSX returned by \<open>App\<close>): the label
  of the header and, below it, the screen of the current phase, which is the view of the
  rendered child with the properties the shell hands to it. \<open>NoScreen\<close> stands for a phase
  whose child has no state; no reachable state draws it.
\<close>

section \<open>View\<close>

datatype screen =
    UploadScreen upload_view
  | AnalyzingScreen
  | ReviewScreen review_view
  | ProcessScreen process_view
  | NoScreen

record app_view =
  av_label :: "string option"
  av_screen :: screen

definition app_render :: "app_state \<Rightarrow> app_view" where
  "app_render s =
     \<lparr>av_label = header_label (phase s),
      av_screen =
        (if phase s = upload
         then (case uploadPhase s of
                 Some u \<Rightarrow> UploadScreen (upload_render (savedLists s) (config s) u)
               | None \<Rightarrow> NoScreen)
         else if phase s = analyzing then AnalyzingScreen
         else if phase s = review
         then (case reviewPhase s of Some r \<Rightarrow> ReviewScreen (render r) | None \<Rightarrow> NoScreen)
         else (case processPhase s of
                 Some p \<Rightarrow> ProcessScreen (process_render (app_metrics s) (app_cuts s) (config s) p)
               | None \<Rightarrow> NoScreen))\<rparr>"

fun result_event :: "app_event \<Rightarrow> bool" where
  "result_event (Process e) \<longleftrightarrow> True"
| "result_event (ReportArrives key g) \<longleftrightarrow> True"
| "result_event _ \<longleftrightarrow> False"

section \<open>Every reachable state draws a screen\<close>

lemma app_render_screen:
  assumes "app_inv s"
  shows "av_screen (app_render s) \<noteq> NoScreen"
    and "av_label (app_render s) = None \<longleftrightarrow> (\<exists>v. av_screen (app_render s) = UploadScreen v)"
  using assms
  by (cases "phase s"; auto simp: app_inv_def mounted_def app_render_def header_label_def
      split: option.splits)+

lemma app_render_review:
  assumes "app_inv s" and "reviewPhase s = Some r"
  shows "av_screen (app_render s) = ReviewScreen (render r)" and "cuts r = app_cuts s"
  using assms by (auto simp: app_inv_def mounted_def app_render_def)

lemma app_render_result:
  assumes "phase s = processing" and "processPhase s = Some p" and "isComplete p"
  shows "\<exists>v. av_screen (app_render s) = ProcessScreen (ResultView v)
           \<and> rs_cards v = metricCards (app_metrics s) (config s)"
  using assms by (simp add: app_render_def process_render_def)

section \<open>The shell's data during the result phase\<close>

lemma mount_shell [simp, cc_frame]:
  "app_cuts (mount ev s) = app_cuts s" "config (mount ev s) = config s"
  "app_originalDuration (mount ev s) = app_originalDuration s" "phase (mount ev s) = phase s"
  by (simp_all add: mount_def)

lemma app_step_result_event:
  assumes "result_event e" and "app_step ev e s = Inr s'"
  shows "app_cuts s' = app_cuts s \<and> config s' = config s
    \<and> app_originalDuration s' = app_originalDuration s \<and> phase s' = phase s"
  using assms
  by (cases e) (auto simp: app_step_def process_dispatch_def split: option.splits)

lemma app_run_result_events:
  assumes "list_all (\<lambda>x. result_event (snd x)) es" and "app_run es s = Inr s'"
  shows "app_cuts s' = app_cuts s \<and> config s' = config s
    \<and> app_originalDuration s' = app_originalDuration s \<and> phase s' = phase s"
  using assms
proof (induction es arbitrary: s)
  case Nil
  then show ?case by simp
next
  case (Cons x es)
  obtain ev e where x: "x = (ev, e)" by (cases x)
  with Cons.prems obtain s1 where s1: "app_step ev e s = Inr s1" and r: "app_run es s1 = Inr s'"
    by (cases "app_step ev e s") auto
  from Cons.prems(1) x have "result_event e" "list_all (\<lambda>x. result_event (snd x)) es" by simp_all
  with app_step_result_event [OF _ s1] Cons.IH [OF _ r] show ?case by simp
qed

lemma app_step_confirm:
  "app_step ev ConfirmCuts s = Inr s' \<Longrightarrow>
     app_cuts s' = app_cuts s \<and> config s' = config s
     \<and> app_originalDuration s' = app_originalDuration s \<and> phase s' = processing"
  by (auto simp: app_step_def handleConfirmCuts_def)

lemma lookup_metricCards [simp]:
  "lookup_card ''Time Saved'' (metricCards m cfg) = Some (toFixed 1 (timeSaved m) @ ''s'')"
  "lookup_card ''Cuts Made'' (metricCards m cfg) = Some (nat_toString (cutsCount m))"
  by (simp_all add: lookup_card_def metricCards_def)

end
