(* ===== verification/App_Runs.thy ===== *)
theory App_Runs
  imports App_View
begin

text \<open>
  Runs of the application. The shell embeds its children: the state of a rendered child is
  a state that the child component reaches on its own, so what theories \<open>Review_Phase\<close>,
  \<open>Review_View\<close> and \<open>Process_Phase\<close> prove of reachable states holds inside the application.
  The workflow: which events occur in which phase (\<open>app_enabled_phase\<close>) and which phase
  each of them leads to (\<open>app_step_phase\<close>).
\<close>

section \<open>The children run as they do on their own\<close>

definition children_reachable :: "app_state \<Rightarrow> bool" where
  "children_reachable s \<longleftrightarrow>
     (case reviewPhase s of None \<Rightarrow> True | Some r \<Rightarrow> reachable r)
     \<and> (case processPhase s of None \<Rightarrow> True | Some p \<Rightarrow> process_reachable (app_cuts s) p)"

lemma children_reachable_iff:
  "children_reachable s \<longleftrightarrow>
     (\<forall>r. reviewPhase s = Some r \<longrightarrow> reachable r)
     \<and> (\<forall>p. processPhase s = Some p \<longrightarrow> process_reachable (app_cuts s) p)"
  by (simp add: children_reachable_def split: option.splits)

lemma children_reachable_init [simp]: "children_reachable init_app"
  by (simp add: children_reachable_def init_app_def)

lemma apply_effect_children [simp, cc_frame]:
  "reviewPhase (apply_effect ev s x) = reviewPhase s"
  "processPhase (apply_effect ev s x) = processPhase s"
  "reviewSrc (apply_effect ev s x) = reviewSrc s"
  by (cases x; simp add: app_handler_defs)+

lemma foldl_apply_effect_children [simp, cc_frame]:
  "reviewPhase (foldl (apply_effect ev) s out) = reviewPhase s"
  "processPhase (foldl (apply_effect ev) s out) = processPhase s"
  "reviewSrc (foldl (apply_effect ev) s out) = reviewSrc s"
  by (induction out arbitrary: s) simp_all

lemma upload_dispatch_children [simp, cc_frame]:
  "reviewPhase (upload_dispatch ev e s) = reviewPhase s"
  "processPhase (upload_dispatch ev e s) = processPhase s"
  "reviewSrc (upload_dispatch ev e s) = reviewSrc s"
  by (simp_all add: upload_dispatch_def split: option.splits prod.splits)

text \<open>What \<open>mount\<close> makes of a child: a fresh one, or the one that was there.\<close>

lemma mount_review:
  assumes "reviewPhase (mount ev s) = Some r'"
  shows "phase s = review"
    and "reviewPhase s = None \<Longrightarrow> r' = init_review (env_rect ev) (app_cuts s)"
    and "reviewPhase s = Some r \<Longrightarrow> r' = r\<lparr>cuts := app_cuts s\<rparr>"
  using assms by (auto simp: mount_def split: if_splits option.splits)

lemma mount_process:
  assumes "processPhase (mount ev s) = Some p'"
  shows "phase s = processing \<or> phase s = completed"
    and "reviewPhase (mount ev s) = None"
    and "processPhase s = None \<Longrightarrow> p' = init_process"
    and "processPhase s = Some p \<Longrightarrow> p' = p"
  using assms by (auto simp: mount_def split: if_splits option.splits)

definition children_kept :: "app_state \<Rightarrow> bool" where
  "children_kept s \<longleftrightarrow>
     (\<forall>r. reviewPhase s = Some r \<and> phase s = review \<longrightarrow> reachable r \<and> cuts r = app_cuts s)
     \<and> (\<forall>p. processPhase s = Some p \<and> (phase s = processing \<or> phase s = completed)
            \<longrightarrow> process_reachable (app_cuts s) p)"

lemma children_reachable_mount:
  assumes "children_kept s"
  shows "children_reachable (mount ev s)"
proof -
  have "reachable r'" if "reviewPhase (mount ev s) = Some r'" for r'
  proof (cases "reviewPhase s")
    case None
    with mount_review(2) [OF that] show ?thesis by (simp add: reachable.init)
  next
    case (Some r)
    with assms mount_review(1) [OF that] have r: "reachable r" and "app_cuts s = cuts r"
      by (simp_all add: children_kept_def)
    then have "r\<lparr>cuts := app_cuts s\<rparr> = r" by simp
    with mount_review(3) [OF that Some] r show ?thesis by simp
  qed
  moreover have "process_reachable (app_cuts (mount ev s)) p'"
    if "processPhase (mount ev s) = Some p'" for p'
  proof (cases "processPhase s")
    case None
    with mount_process(3) [OF that] show ?thesis by (simp add: process_reachable.init)
  next
    case (Some p)
    with assms mount_process(1) [OF that] mount_process(4) [OF that Some] show ?thesis
      by (simp add: children_kept_def)
  qed
  ultimately show ?thesis by (simp add: children_reachable_iff)
qed

lemma app_handler_children:
  assumes "app_inv s" and "children_reachable s" and "app_enabled e s"
    and "app_handler ev e s = Inr s1"
  shows "children_kept s1"
proof -
  from assms(1) have m: "mounted s" and core: "app_core s" by (simp_all add: app_inv_def)
  show ?thesis
  proof (cases e)
    case (Review e')
    with assms(3) obtain r where r: "reviewPhase s = Some r" and en: "enabled e' r"
      by (auto split: option.splits)
    with assms(4) Review obtain r' where st: "step e' r = Inr r'"
      and s1: "s1 = s\<lparr>reviewPhase := Some r', app_cuts := cuts r'\<rparr>"
      by (auto simp: review_dispatch_def split: sum.splits)
    from assms(2) r have "reachable r" by (simp add: children_reachable_iff)
    from reachable.step [OF this en st] m r show ?thesis
      by (auto simp: children_kept_def s1 mounted_def)
  next
    case (Process e')
    with assms(3) obtain p where p: "processPhase s = Some p" and en: "process_enabled e' p"
      by (auto split: option.splits)
    from assms(2) p have "process_reachable (app_cuts s) p" by (simp add: children_reachable_iff)
    from process_reachable.step [OF this en] assms(4) Process p m show ?thesis
      by (auto simp: children_kept_def process_dispatch_def mounted_def)
  next
    case (ReportArrives key g)
    with assms(3) obtain p where p: "processPhase s = Some p"
      and en: "process_enabled (ReportResolved (app_report key g s)) p"
      by (auto split: option.splits)
    from assms(2) p have "process_reachable (app_cuts s) p" by (simp add: children_reachable_iff)
    from process_reachable.step [OF this en] assms(4) ReportArrives p m show ?thesis
      by (auto simp: children_kept_def process_dispatch_def mounted_def)
  next
    case (Upload e')
    with assms(3) m have "reviewPhase s = None" "processPhase s = None"
      by (auto simp: mounted_def split: option.splits)
    with assms(4) Upload show ?thesis by (auto simp: children_kept_def)
  qed (use assms m core in \<open>auto simp: children_kept_def children_reachable_iff mounted_def
         app_core_iff app_handler_defs split: option.splits\<close>)
qed

lemma app_step_children:
  assumes "app_inv s" and "children_reachable s" and "app_enabled e s"
    and "app_step ev e s = Inr s'"
  shows "children_reachable s'"
proof -
  from assms(4) obtain s1 where h: "app_handler ev e s = Inr s1" and s': "s' = mount ev s1"
    by (cases "app_handler ev e s") (auto simp: app_step_def)
  from app_handler_children [OF assms(1-3) h] show ?thesis
    unfolding s' by (rule children_reachable_mount)
qed

lemma app_reachable_children: "app_reachable s \<Longrightarrow> children_reachable s"
proof (induction rule: app_reachable.induct)
  case init
  show ?case by simp
next
  case (step s e ev s')
  from app_reachable_app_inv [OF step.hyps(1)] step.IH step.hyps(2,3) show ?case
    by (rule app_step_children)
qed

section \<open>From the review to the result\<close>

lemma app_run_timeouts:
  assumes "phase s = processing" and "processPhase s = Some p"
    and "reviewPhase s = None" and "uploadPhase s = None" and "\<not> reviewSrc s"
  shows "app_run (map (\<lambda>(r1, r2). (ev, Process (Timeout r1 r2))) rs) s
           = Inr (s\<lparr>processPhase := Some (timeouts rs p)\<rparr>)"
  using assms
proof (induction rs arbitrary: s p)
  case Nil
  then show ?case by simp
next
  case (Cons x rs)
  obtain r1 r2 where x: "x = (r1, r2)" by (cases x)
  let ?s1 = "s\<lparr>processPhase := Some (progress_tick r1 r2 p)\<rparr>"
  from Cons.prems have "app_step ev (Process (Timeout r1 r2)) s = Inr ?s1"
    by (simp add: app_step_def process_dispatch_def mount_def)
  moreover from Cons.prems
  have "app_run (map (\<lambda>(r1, r2). (ev, Process (Timeout r1 r2))) rs) ?s1
          = Inr (?s1\<lparr>processPhase := Some (timeouts rs (progress_tick r1 r2 p))\<rparr>)"
    by (intro Cons.IH) simp_all
  ultimately show ?case by (simp add: x)
qed

definition app_result :: app_state where
  "app_result = app_processing\<lparr>processPhase := Some (timeouts (replicate 100 (0, 0)) init_process)\<rparr>"

definition render_run :: "(env \<times> app_event) list" where
  "render_run = map (\<lambda>(r1, r2). (env0, Process (Timeout r1 r2))) (replicate 100 (0, 0))"

lemma run_to_result: "app_run ((env0, ConfirmCuts) # render_run) app_review = Inr app_result"
proof -
  have "app_run render_run app_processing = Inr app_result"
    unfolding render_run_def app_result_def
    by (rule app_run_timeouts) (simp_all add: app_examples init_app_def)
  then show ?thesis by (simp add: step_confirm)
qed

lemma result_events_render_run: "list_all (\<lambda>x. result_event (snd x)) render_run"
  by (simp add: render_run_def list_all_iff)

lemma isComplete_app_result:
  "processPhase app_result = Some (timeouts (replicate 100 (0, 0)) init_process)"
  "isComplete (timeouts (replicate 100 (0, 0)) init_process)"
proof -
  show "processPhase app_result = Some (timeouts (replicate 100 (0, 0)) init_process)"
    by (simp add: app_result_def)
  from timeouts_lower [of init_process "replicate 100 (0, 0)"]
  have "100 \<le> progress (timeouts (replicate 100 (0, 0)) init_process)"
    by (simp add: init_process_def)
  then show "isComplete (timeouts (replicate 100 (0, 0)) init_process)"
    by (simp add: timeouts_isComplete)
qed

lemma reachable_review: "app_reachable app_review"
proof -
  have "app_enabled_run [(env0, Upload (Change [clip_mp4])), (env0, Upload ClickAnalyze),
      (env0, AnalysisResolved half_rng)] init_app"
    by (simp add: step_select step_analyze step_resolved)
      (simp add: app_examples init_app_def init_upload_def)
  moreover have "app_run [(env0, Upload (Change [clip_mp4])), (env0, Upload ClickAnalyze),
      (env0, AnalysisResolved half_rng)] init_app = Inr app_review"
    by (simp add: step_select step_analyze step_resolved)
  ultimately show ?thesis using app_reachable.init by (blast intro: app_reachable_run)
qed

section \<open>The workflow\<close>

lemma upload_step_start:
  assumes "upload_step e saved (u, cfg) = (w, out)"
  shows "onStartAnalysis \<in> set out \<longleftrightarrow> e = ClickAnalyze \<and> selectedFile u \<noteq> None"
proof (cases e)
  case (Drop files)
  with assms show ?thesis
    by (cases files) (auto simp: handleDrop_def validateAndSetFile_def Let_def split: if_splits)
next
  case (Change files)
  with assms show ?thesis
    by (cases files) (auto simp: handleChange_def validateAndSetFile_def split: if_splits)
qed (use assms in \<open>auto simp: deleteSelectedList_def clickAnalyze_def addCustomPhrase_def
      handleLoadList_def saveCurrentList_def Let_def split: if_splits option.splits\<close>)

lemma apply_effect_phase:
  "x \<noteq> onStartAnalysis \<Longrightarrow> phase (apply_effect ev s x) = phase s"
  by (cases x) (simp_all add: selectFile_def handleSaveList_def handleDeleteList_def)

lemma foldl_apply_effect_phase:
  "onStartAnalysis \<notin> set out \<Longrightarrow> phase (foldl (apply_effect ev) s out) = phase s"
  by (induction out arbitrary: s) (auto simp: apply_effect_phase)

lemma upload_dispatch_phase:
  assumes "uploadPhase s = Some u"
  shows "phase (upload_dispatch ev e s)
       = (if e = ClickAnalyze \<and> selectedFile u \<noteq> None \<and> app_file s \<noteq> None then analyzing
          else phase s)"
proof -
  obtain w out where st: "upload_step e (savedLists s) (u, config s) = (w, out)"
    by (metis surj_pair)
  obtain u' cfg' where w: "w = (u', cfg')" by (cases w)
  show ?thesis
  proof (cases "e = ClickAnalyze")
    case True
    with st w assms show ?thesis
      by (simp add: upload_dispatch_def clickAnalyze_def handleStartAnalysis_def)
  next
    case False
    with upload_step_start [OF st] have "onStartAnalysis \<notin> set out" by simp
    with st w assms False show ?thesis
      by (simp add: upload_dispatch_def foldl_apply_effect_phase)
  qed
qed

lemma mount_fresh_upload:
  assumes "phase s1 = upload" and "uploadPhase s1 = None"
  shows "uploadPhase (mount ev s1) = Some init_upload"
    and "app_file (mount ev s1) = app_file s1"
    and "\<not> app_enabled (Upload ClickAnalyze) (mount ev s1)"
  using assms by (simp_all add: mount_def init_upload_def)

lemma app_enabled_phase:
  assumes "app_inv s" and "app_enabled e s"
  shows "(case e of
            Upload ue \<Rightarrow> phase s = upload
          | ProbeLoaded u d \<Rightarrow> True
          | AnalysisResolved rnd \<Rightarrow> phase s = analyzing
          | AnalysisRejected \<Rightarrow> phase s = analyzing
          | Review re \<Rightarrow> phase s = review
          | ConfirmCuts \<Rightarrow> phase s = review
          | CancelReview \<Rightarrow> phase s = review
          | Process pe \<Rightarrow> phase s = processing
          | ReportArrives key g \<Rightarrow> phase s = processing
          | Reset \<Rightarrow> phase s = processing)"
  using assms
  by (cases e) (auto simp: app_inv_def mounted_def app_core_iff split: option.splits)

lemma app_step_phase:
  assumes "app_inv s" and "app_enabled e s" and "app_step ev e s = Inr s'"
  shows "phase s' =
      (case e of
         Upload ue \<Rightarrow> (if ue = ClickAnalyze then analyzing else upload)
       | ProbeLoaded u d \<Rightarrow> phase s
       | AnalysisResolved rnd \<Rightarrow> review
       | AnalysisRejected \<Rightarrow> upload
       | Review re \<Rightarrow> review
       | ConfirmCuts \<Rightarrow> processing
       | CancelReview \<Rightarrow> upload
       | Process pe \<Rightarrow> processing
       | ReportArrives key g \<Rightarrow> processing
       | Reset \<Rightarrow> upload)"
proof -
  from assms(1) have m: "mounted s" and core: "app_core s" and ch: "child_ok s"
    by (simp_all add: app_inv_def)
  from assms(3) obtain s1 where h: "app_handler ev e s = Inr s1" and s': "s' = mount ev s1"
    by (cases "app_handler ev e s") (auto simp: app_step_def)
  show ?thesis
  proof (cases e)
    case (Upload ue)
    with assms(2) obtain u where u: "uploadPhase s = Some u"
      and en: "upload_enabled ue (savedLists s) (u, config s)"
      by (auto split: option.splits)
    from u m have ph: "phase s = upload" by (auto simp: mounted_def)
    have "app_file s \<noteq> None" if "ue = ClickAnalyze"
      using that en ch u by (auto simp: child_ok_iff)
    with upload_dispatch_phase [OF u, of ev ue] en h Upload ph show ?thesis
      by (auto simp: s')
  next
    case (Review re)
    with assms(2) m have "phase s = review" by (auto simp: mounted_def split: option.splits)
    with h Review show ?thesis
      by (auto simp: s' review_dispatch_def split: option.splits sum.splits)
  next
    case (Process pe)
    with assms(2) m core have "phase s = processing"
      by (auto simp: mounted_def app_core_iff split: option.splits)
    with h Process show ?thesis by (auto simp: s' process_dispatch_def split: option.splits)
  next
    case (ReportArrives key g)
    with assms(2) m core have "phase s = processing"
      by (auto simp: mounted_def app_core_iff split: option.splits)
    with h ReportArrives show ?thesis
      by (auto simp: s' process_dispatch_def split: option.splits)
  next
    case (AnalysisResolved rnd)
    with assms(2) h show ?thesis
      by (auto simp: s' handleStartAnalysis_resolved_def Let_def)
  qed (use h in \<open>auto simp: s' app_handler_defs\<close>)
qed

lemma app_step_back_to_upload:
  assumes "app_inv s" and "app_enabled e s" and "app_step ev e s = Inr s'"
    and "e = CancelReview \<or> e = AnalysisRejected"
  shows "uploadPhase s' = Some init_upload \<and> app_file s' = app_file s \<and> app_file s \<noteq> None
    \<and> \<not> app_enabled (Upload ClickAnalyze) s'"
proof -
  from assms(1) have m: "mounted s" and core: "app_core s" by (simp_all add: app_inv_def)
  from assms(2,4) core have ph: "phase s = review \<or> phase s = analyzing"
    by (auto simp: app_core_iff)
  with m core have n: "uploadPhase s = None" and f: "app_file s \<noteq> None"
    by (auto simp: mounted_def app_core_iff)
  from assms(3,4) obtain s1 where s': "s' = mount ev s1" and s1: "phase s1 = upload"
    "uploadPhase s1 = uploadPhase s" "app_file s1 = app_file s"
    by (auto simp: app_step_def onCancel_def handleStartAnalysis_rejected_def)
  from mount_fresh_upload [of s1 ev] s1 n f show ?thesis by (simp add: s')
qed

section \<open>Properties\<close>

text \<open>C9: The shell embeds its children. In every reachable state of the application the
  state of the rendered review component is a state the review component reaches on its
  own from its initial state, it holds the cuts of the shell, and so its invariant holds
  and its highlight refers to one of these cuts; the state of the rendered result
  component is a state that component reaches on its own with the cuts of the shell.\<close>

theorem children_run_alone:
  assumes "app_reachable s"
  shows "(\<forall>r. reviewPhase s = Some r \<longrightarrow>
            reachable r \<and> cuts r = app_cuts s \<and> review_inv r \<and> active_ok r)
    \<and> (\<forall>p. processPhase s = Some p \<longrightarrow> process_reachable (app_cuts s) p \<and> process_inv p)"
proof -
  note ch = app_reachable_children [OF assms]
  have r: "reachable r" if "reviewPhase s = Some r" for r
    using ch that by (simp add: children_reachable_iff)
  have p: "process_reachable (app_cuts s) p" if "processPhase s = Some p" for p
    using ch that by (simp add: children_reachable_iff)
  from app_reachable_app_inv [OF assms]
  have "cuts r = app_cuts s \<and> review_inv r" if "reviewPhase s = Some r" for r
    using that by (simp add: app_inv_def mounted_def child_ok_iff)
  with r p show ?thesis
    by (auto intro: reachable_active_ok process_reachable_inv)
qed

theorem children_run_alone_witness:
  "reachable (init_review timeline_800 (map hallelujah [0..<6]))
   \<and> active_ok (init_review timeline_800 (map hallelujah [0..<6]))
   \<and> process_reachable (app_cuts app_processing) init_process"
proof -
  have "reviewPhase app_review = Some (init_review timeline_800 (map hallelujah [0..<6]))"
    and "processPhase app_processing = Some init_process"
    by (simp_all add: app_examples)
  with children_run_alone [OF reachable_review] children_run_alone [OF reachable_processing]
  show ?thesis by simp
qed

text \<open>C15: What the review announces is what the result reports. When the cuts are
  confirmed in a reachable state and the render has completed, whatever happened on the
  result screen in between, the card \<open>Time Saved\<close> shows the seconds that the header of the
  review showed as removed, and the card \<open>Cuts Made\<close> the number it showed as selected.\<close>

theorem review_and_result_agree:
  assumes "app_reachable s" and "reviewPhase s = Some r"
    and "app_run ((ev, ConfirmCuts) # es) s = Inr s'"
    and "list_all (\<lambda>x. result_event (snd x)) es"
    and "processPhase s' = Some p" and "isComplete p"
  shows "\<exists>v t n. av_screen (app_render s') = ProcessScreen (ResultView v)
      \<and> lookup_card ''Time Saved'' (rs_cards v) = Some t
      \<and> hd_removed (rv_header (render r)) = ''-'' @ t @ '' removed''
      \<and> lookup_card ''Cuts Made'' (rs_cards v) = Some n
      \<and> hd_selected (rv_header (render r)) = n @ '' cuts selected''"
proof -
  from assms(3) obtain s1 where c: "app_step ev ConfirmCuts s = Inr s1"
    and run: "app_run es s1 = Inr s'"
    by (cases "app_step ev ConfirmCuts s") auto
  from app_step_confirm [OF c] app_run_result_events [OF assms(4) run]
  have same: "app_cuts s' = app_cuts s" "config s' = config s"
    "app_originalDuration s' = app_originalDuration s" and ph: "phase s' = processing"
    by simp_all
  from app_reachable_app_inv [OF assms(1)] assms(2) have cs: "cuts r = app_cuts s"
    by (simp add: app_inv_def mounted_def)
  from app_render_result [OF ph assms(5,6)] obtain v
    where v: "av_screen (app_render s') = ProcessScreen (ResultView v)"
      and cards: "rs_cards v = metricCards (app_metrics s') (config s')" by blast
  let ?t = "toFixed 1 (stats_timeSaved (stats (cuts r))) @ ''s''"
  let ?n = "nat_toString (count (stats (cuts r)))"
  from cards same cs have "lookup_card ''Time Saved'' (rs_cards v) = Some ?t"
    "lookup_card ''Cuts Made'' (rs_cards v) = Some ?n"
    by (simp_all add: app_metrics_def)
  moreover have "hd_removed (rv_header (render r)) = ''-'' @ ?t @ '' removed''"
    "hd_selected (rv_header (render r)) = ?n @ '' cuts selected''"
    by (simp_all add: render_def header_def)
  ultimately show ?thesis using v by blast
qed

theorem review_and_result_agree_witness:
  "\<exists>v t n. av_screen (app_render app_result) = ProcessScreen (ResultView v)
      \<and> lookup_card ''Time Saved'' (rs_cards v) = Some t
      \<and> hd_removed (rv_header (render (init_review timeline_800 (map hallelujah [0..<6]))))
          = ''-'' @ t @ '' removed''
      \<and> lookup_card ''Cuts Made'' (rs_cards v) = Some n
      \<and> hd_selected (rv_header (render (init_review timeline_800 (map hallelujah [0..<6]))))
          = n @ '' cuts selected''"
proof -
  have "reviewPhase app_review = Some (init_review timeline_800 (map hallelujah [0..<6]))"
    by (simp add: app_examples)
  from review_and_result_agree [OF reachable_review this run_to_result
      result_events_render_run isComplete_app_result]
  show ?thesis .
qed

text \<open>C40: The workflow advances one phase at a time, and each phase has its events. From
  a reachable state, the Analyze button leads to the analysis and every other event of the
  upload form stays in the upload phase; a resolved analysis leads to the review, a
  rejected one back to the upload; the events of the review stay in the review, the
  confirmation leads to the render, the cancellation back to the upload; the events of the
  render and of the result stay there, the reset leads to the upload; the metadata of the
  probe keeps the phase. So the phase changes only along upload, analyzing, review,
  processing and back to upload. After a cancellation or a rejected analysis the upload
  form is a new one: it shows no file although the shell keeps its file, and its Analyze
  button is disabled.\<close>

theorem phase_changes_by_event:
  assumes "app_reachable s" and "app_enabled e s" and "app_step ev e s = Inr s'"
  shows "phase s' =
      (case e of
         Upload ue \<Rightarrow> (if ue = ClickAnalyze then analyzing else upload)
       | ProbeLoaded u d \<Rightarrow> phase s
       | AnalysisResolved rnd \<Rightarrow> review
       | AnalysisRejected \<Rightarrow> upload
       | Review re \<Rightarrow> review
       | ConfirmCuts \<Rightarrow> processing
       | CancelReview \<Rightarrow> upload
       | Process pe \<Rightarrow> processing
       | ReportArrives key g \<Rightarrow> processing
       | Reset \<Rightarrow> upload)
    \<and> (phase s' \<noteq> phase s \<longrightarrow>
         (phase s = upload \<and> phase s' = analyzing)
         \<or> (phase s = analyzing \<and> (phase s' = review \<or> phase s' = upload))
         \<or> (phase s = review \<and> (phase s' = processing \<or> phase s' = upload))
         \<or> (phase s = processing \<and> phase s' = upload))
    \<and> (e = CancelReview \<or> e = AnalysisRejected \<longrightarrow>
         uploadPhase s' = Some init_upload \<and> app_file s' = app_file s \<and> app_file s \<noteq> None
         \<and> \<not> app_enabled (Upload ClickAnalyze) s')"
proof -
  note inv = app_reachable_app_inv [OF assms(1)]
  note ph = app_step_phase [OF inv assms(2,3)]
  from app_enabled_phase [OF inv assms(2)] ph
  have "phase s' \<noteq> phase s \<longrightarrow>
         (phase s = upload \<and> phase s' = analyzing)
         \<or> (phase s = analyzing \<and> (phase s' = review \<or> phase s' = upload))
         \<or> (phase s = review \<and> (phase s' = processing \<or> phase s' = upload))
         \<or> (phase s = processing \<and> phase s' = upload)"
    by (cases e) (auto split: if_splits)
  with ph app_step_back_to_upload [OF inv assms(2,3)] show ?thesis by blast
qed

theorem phase_changes_by_event_witness:
  "app_reachable app_review \<and> app_enabled CancelReview app_review
   \<and> (\<exists>s'. app_step env0 CancelReview app_review = Inr s'
        \<and> phase s' = upload \<and> uploadPhase s' = Some init_upload
        \<and> app_file s' = Some clip_mp4 \<and> \<not> app_enabled (Upload ClickAnalyze) s')"
proof -
  let ?s' = "mount env0 (onCancel app_review)"
  have en: "app_enabled CancelReview app_review" by (simp add: app_examples)
  have st: "app_step env0 CancelReview app_review = Inr ?s'" by (simp add: app_step_def)
  have f: "app_file app_review = Some clip_mp4" by (simp add: app_examples)
  note t = phase_changes_by_event [OF reachable_review en st]
  from t have "phase ?s' = upload" by simp
  moreover from t have "uploadPhase ?s' = Some init_upload \<and> app_file ?s' = app_file app_review
      \<and> \<not> app_enabled (Upload ClickAnalyze) ?s'"
    by blast
  ultimately show ?thesis using reachable_review en st f by auto
qed

end
