(* ===== verification/Object_Urls.thy ===== *)
theory Object_Urls
  imports App_Runs
begin

text \<open>
  The object URLs of the selected file (\<^verbatim>\<open>src/unnamed/part_000\<close>, the effect of \<open>App\<close> that
  depends on \<open>file\<close>). The effect creates a URL for the file, stores it in \<open>fileUrl\<close>, and
  creates a detached video element that reads the duration; the handler of that element
  revokes the URL of the element, which is the same URL; the cleanup of the effect
  revokes it again. \<open>blobStore\<close> is the set of URLs that resolve, \<open>probes\<close> the elements
  whose metadata has not arrived, \<open>reviewSrc\<close> whether the URL resolved when the player of
  the review was created.

  \<^item> \<open>url_inv\<close>: at most the URL of the current effect resolves, and it does so only
    while its probe is pending.
  \<^item> A player whose URL did not resolve never learns the duration (\<open>dead_player\<close>).
  \<^item> The runs \<open>probed_run\<close> and \<open>stale_run\<close> show the two orders of events in which the
    shell works with a revoked URL or with the duration of another file.
\<close>

section \<open>Invariant of the store\<close>

definition url_inv :: "app_state \<Rightarrow> bool" where
  "url_inv s \<longleftrightarrow>
     set (blobStore s) \<subseteq> set_option (fileEffect s)
     \<and> (case fileEffect s of None \<Rightarrow> app_file s = None
         | Some u \<Rightarrow> fileUrl s = u \<and> app_file s \<noteq> None)
     \<and> (fileUrl s \<in> set (blobStore s) \<longrightarrow> fileUrl s \<in> set (probes s))"

definition dead_player :: "app_state \<Rightarrow> bool" where
  "dead_player s \<longleftrightarrow>
     (case reviewPhase s of
        None \<Rightarrow> True
      | Some r \<Rightarrow> reviewSrc s \<or> (case videoRef r of None \<Rightarrow> False | Some v \<Rightarrow> v_duration v = None))"

lemma url_inv_iff:
  "url_inv s \<longleftrightarrow>
     (\<forall>u \<in> set (blobStore s). fileEffect s = Some u)
     \<and> (fileEffect s = None \<longrightarrow> app_file s = None)
     \<and> (\<forall>u. fileEffect s = Some u \<longrightarrow> fileUrl s = u \<and> app_file s \<noteq> None)
     \<and> (fileUrl s \<in> set (blobStore s) \<longrightarrow> fileUrl s \<in> set (probes s))"
  by (cases "fileEffect s") (auto simp: url_inv_def)

lemma url_invD:
  assumes "url_inv s"
  shows "set (blobStore s) \<subseteq> set_option (fileEffect s)"
    and "fileEffect s = Some u \<Longrightarrow> fileUrl s = u"
    and "app_file s = None \<Longrightarrow> fileEffect s = None"
    and "fileUrl s \<in> set (blobStore s) \<Longrightarrow> fileUrl s \<in> set (probes s)"
  using assms by (auto simp: url_inv_def split: option.splits)

lemma dead_player_iff:
  "dead_player s \<longleftrightarrow>
     (\<forall>r. reviewPhase s = Some r \<and> \<not> reviewSrc s \<longrightarrow>
        (\<exists>v. videoRef r = Some v \<and> v_duration v = None))"
  by (auto simp: dead_player_def split: option.splits)

lemma url_inv_init [simp]: "url_inv init_app" "dead_player init_app"
  by (simp_all add: url_inv_def dead_player_def init_app_def)

subsection \<open>The effect and the probe\<close>

lemma blobStore_file_cleanup:
  assumes "set (blobStore s) \<subseteq> set_option (fileEffect s)"
  shows "blobStore (file_cleanup s) = []"
proof (cases "fileEffect s")
  case None
  with assms show ?thesis by (simp add: file_cleanup_def)
next
  case (Some u)
  with assms have "removeAll u (blobStore s) = []"
    by (auto simp: removeAll_filter_not_eq filter_empty_conv)
  with Some show ?thesis by (simp add: file_cleanup_def revokeObjectURL_def)
qed

lemma file_cleanup_frame [simp, cc_frame]:
  "app_file (file_cleanup s) = app_file s" "fileUrl (file_cleanup s) = fileUrl s"
  "probes (file_cleanup s) = probes s"
  by (simp_all add: file_cleanup_def split: option.splits)

lemma blobStore_file_effect:
  assumes "set (blobStore s) \<subseteq> set_option (fileEffect s)"
  shows "blobStore (file_effect url s) = (if app_file s = None then [] else [url])"
  using blobStore_file_cleanup [OF assms]
  by (simp add: file_effect_def createObjectURL_def Let_def split: option.splits)

lemma url_inv_file_effect:
  assumes "blobStore (file_cleanup s) = []"
  shows "url_inv (file_effect url s)"
  using assms
  by (auto simp: url_inv_iff file_effect_def createObjectURL_def file_cleanup_def Let_def
      split: option.splits)

lemma url_inv_selectFile: "url_inv s \<Longrightarrow> url_inv (selectFile url f s)"
  unfolding selectFile_def
  by (rule url_inv_file_effect)
    (auto simp: file_cleanup_def revokeObjectURL_def url_inv_iff removeAll_filter_not_eq
      filter_empty_conv split: option.splits)

lemma url_inv_handleReset: "url_inv s \<Longrightarrow> url_inv (handleReset s)"
  unfolding handleReset_def
  by (rule url_inv_file_effect)
    (auto simp: file_cleanup_def revokeObjectURL_def url_inv_iff removeAll_filter_not_eq
      filter_empty_conv split: option.splits)

lemma url_inv_probe: "url_inv s \<Longrightarrow> url_inv (probe_loadedmetadata u d s)"
  by (auto simp: url_inv_iff probe_loadedmetadata_def revokeObjectURL_def)

subsection \<open>The handlers and the rendering\<close>

lemma url_inv_cong:
  assumes "blobStore s' = blobStore s" and "fileEffect s' = fileEffect s"
    and "app_file s' = app_file s" and "fileUrl s' = fileUrl s" and "probes s' = probes s"
  shows "url_inv s' \<longleftrightarrow> url_inv s"
  unfolding url_inv_iff assms ..

lemma url_inv_update [simp]:
  "url_inv (s\<lparr>phase := ph\<rparr>) \<longleftrightarrow> url_inv s"
  "url_inv (s\<lparr>config := cfg\<rparr>) \<longleftrightarrow> url_inv s"
  "url_inv (s\<lparr>savedLists := ls\<rparr>) \<longleftrightarrow> url_inv s"
  "url_inv (s\<lparr>app_cuts := cs\<rparr>) \<longleftrightarrow> url_inv s"
  "url_inv (s\<lparr>app_originalDuration := d\<rparr>) \<longleftrightarrow> url_inv s"
  "url_inv (s\<lparr>analysis := a\<rparr>) \<longleftrightarrow> url_inv s"
  "url_inv (s\<lparr>uploadPhase := up\<rparr>) \<longleftrightarrow> url_inv s"
  "url_inv (s\<lparr>reviewPhase := rp\<rparr>) \<longleftrightarrow> url_inv s"
  "url_inv (s\<lparr>processPhase := pp\<rparr>) \<longleftrightarrow> url_inv s"
  "url_inv (s\<lparr>reviewSrc := b\<rparr>) \<longleftrightarrow> url_inv s"
  by (rule url_inv_cong; simp)+

lemma url_inv_apply_effect:
  assumes "url_inv s"
  shows "url_inv (apply_effect ev s x)"
proof (cases x)
  case (onFileSelect f)
  with assms show ?thesis by (simp add: url_inv_selectFile)
next
qed (use assms in \<open>simp_all add: handleSaveList_def handleDeleteList_def handleStartAnalysis_def\<close>)

lemma url_inv_foldl_apply_effect: "url_inv s \<Longrightarrow> url_inv (foldl (apply_effect ev) s out)"
  by (induction out arbitrary: s) (simp_all add: url_inv_apply_effect)

lemma url_inv_upload_dispatch:
  assumes "url_inv s"
  shows "url_inv (upload_dispatch ev e s)"
proof (cases "uploadPhase s")
  case None
  with assms show ?thesis by (simp add: upload_dispatch_def)
next
  case (Some u)
  obtain u' cfg' out where st: "upload_step e (savedLists s) (u, config s) = ((u', cfg'), out)"
    by (metis surj_pair)
  from assms show ?thesis by (simp add: upload_dispatch_def Some st url_inv_foldl_apply_effect)
qed

lemma url_inv_mount [simp]: "url_inv (mount ev s) \<longleftrightarrow> url_inv s"
  by (rule url_inv_cong) (simp_all add: mount_def)

lemma url_inv_shell [simp]:
  "url_inv (handleStartAnalysis_resolved rnd s) \<longleftrightarrow> url_inv s"
  "url_inv (handleStartAnalysis_rejected s) \<longleftrightarrow> url_inv s"
  "url_inv (handleConfirmCuts s) \<longleftrightarrow> url_inv s"
  "url_inv (onCancel s) \<longleftrightarrow> url_inv s"
  "url_inv (process_dispatch e' s) \<longleftrightarrow> url_inv s"
  by (simp_all add: handleStartAnalysis_resolved_def handleStartAnalysis_rejected_def
      handleConfirmCuts_def onCancel_def process_dispatch_def Let_def split: option.splits)

lemma url_inv_review_dispatch: "review_dispatch e' s = Inr s' \<Longrightarrow> url_inv s' \<longleftrightarrow> url_inv s"
  by (cases "reviewPhase s"; cases "step e' (the (reviewPhase s))")
    (auto simp: review_dispatch_def)

lemma url_inv_handler:
  assumes "url_inv s" and "app_handler ev e s = Inr s'"
  shows "url_inv s'"
proof (cases e)
  case (Review e')
  with assms show ?thesis by (simp add: url_inv_review_dispatch)
qed (use assms in \<open>auto simp: url_inv_upload_dispatch url_inv_probe url_inv_handleReset\<close>)

text \<open>Only the metadata sets the duration of the player.\<close>

lemma handler_v_duration [simp]:
  "map_option v_duration (videoRef (checkTime r)) = map_option v_duration (videoRef r)"
  "map_option v_duration (videoRef (previewCut c a r)) = map_option v_duration (videoRef r)"
  "map_option v_duration (videoRef (skip secs r)) = map_option v_duration (videoRef r)"
  "map_option v_duration (videoRef (handleScrubEnd a r)) = map_option v_duration (videoRef r)"
  "map_option v_duration (videoRef (onClickPlayPause a r)) = map_option v_duration (videoRef r)"
  "map_option v_duration (videoRef (onMouseMove x r)) = map_option v_duration (videoRef r)"
  by (simp_all add: checkTime_def previewCut_def skip_def handleScrubEnd_def
      onClickPlayPause_def onMouseMove_def Let_def split: option.splits)

lemma handleScrubMove_v_duration:
  assumes "handleScrubMove x r = Inr r'"
  shows "map_option v_duration (videoRef r') = map_option v_duration (videoRef r)"
proof (cases "timelineRef r")
  case None
  with assms show ?thesis by (simp add: handleScrubMove_def)
next
  case (Some rc)
  with assms show ?thesis
    by (cases "videoRef r"; cases "scrub_time rc x (duration r)")
      (auto simp: handleScrubMove_def split: if_splits)
qed

lemma handleScrubStart_v_duration:
  assumes "handleScrubStart x r = Inr r'"
  shows "map_option v_duration (videoRef r') = map_option v_duration (videoRef r)"
proof (cases "timelineRef r")
  case None
  with assms show ?thesis by (simp add: handleScrubStart_def)
next
  case (Some rc)
  show ?thesis
  proof (cases "videoRef r")
    case None
    with assms Some show ?thesis by (simp add: handleScrubStart_def)
  next
    case (Some v)
    with assms \<open>timelineRef r = Some rc\<close> show ?thesis
      by (auto simp: handleScrubStart_def dest!: handleScrubMove_v_duration)
  qed
qed

lemma step_v_duration:
  assumes "step e r = Inr r'" and "\<And>d. e \<noteq> LoadedMetadata d"
  shows "map_option v_duration (videoRef r') = map_option v_duration (videoRef r)"
proof (cases e)
  case (ScrubStart x)
  with assms(1) show ?thesis by (simp add: handleScrubStart_v_duration)
next
  case (ScrubMove x)
  with assms(1) show ?thesis by (auto simp: handleScrubMove_v_duration split: if_splits)
qed (use assms in \<open>auto simp: onPlay_def onPause_def previewCut_then_def onMouseLeave_def
       option.map_comp o_def\<close>)

subsection \<open>A player without a source\<close>

lemma dead_player_cong:
  assumes "reviewPhase s' = reviewPhase s" and "reviewSrc s' = reviewSrc s"
  shows "dead_player s' \<longleftrightarrow> dead_player s"
  unfolding dead_player_iff assms ..

lemma dead_player_mount: "dead_player s \<Longrightarrow> dead_player (mount ev s)"
  by (auto simp: dead_player_iff mount_def init_review_def new_video_def
      split: if_splits option.splits)

lemma dead_player_review_dispatch:
  assumes "dead_player s" and "app_enabled (Review e) s" and "review_dispatch e s = Inr s'"
  shows "dead_player s'"
proof -
  from assms(2) obtain r where r: "reviewPhase s = Some r"
    and c: "case e of LoadedMetadata d \<Rightarrow> reviewSrc s | _ \<Rightarrow> True"
    by (auto split: option.splits)
  then have src: "reviewSrc s" if "e = LoadedMetadata d" for d using that by simp
  from r assms(3) obtain r' where st: "step e r = Inr r'"
    and s': "s' = s\<lparr>reviewPhase := Some r', app_cuts := cuts r'\<rparr>"
    by (auto simp: review_dispatch_def split: sum.splits)
  show ?thesis
  proof (cases "reviewSrc s")
    case True
    then show ?thesis by (simp add: dead_player_def s')
  next
    case False
    with src have "\<And>d. e \<noteq> LoadedMetadata d" by blast
    from step_v_duration [OF st this] assms(1) r False show ?thesis
      by (cases "videoRef r'"; cases "videoRef r") (auto simp: dead_player_iff s')
  qed
qed

lemma dead_player_handler:
  assumes "dead_player s" and "app_enabled e s" and "app_handler ev e s = Inr s'"
  shows "dead_player s'"
proof (cases e)
  case (Review e')
  with assms show ?thesis by (simp add: dead_player_review_dispatch)
next
  case Reset
  have "dead_player (handleReset s) \<longleftrightarrow> dead_player s"
    by (rule dead_player_cong) (simp_all add: handleReset_def)
  with assms Reset show ?thesis by auto
qed (use assms in \<open>auto simp: dead_player_def probe_loadedmetadata_def
       handleStartAnalysis_resolved_def handleStartAnalysis_rejected_def handleConfirmCuts_def
       onCancel_def process_dispatch_def Let_def split: option.splits\<close>)

lemma app_reachable_store:
  assumes "app_reachable s"
  shows "url_inv s" and "dead_player s"
  using assms
proof (induction rule: app_reachable.induct)
  case init
  case 1 show ?case by simp
  case 2 show ?case by simp
next
  case (step s e ev s')
  from step.hyps(3) obtain s1 where h: "app_handler ev e s = Inr s1" and s': "s' = mount ev s1"
    by (cases "app_handler ev e s") (auto simp: app_step_def)
  case 1 from url_inv_handler [OF step.IH(1) h] show ?case by (simp add: s')
  case 2 from dead_player_handler [OF step.IH(2) step.hyps(2) h] show ?case
    by (simp add: s' dead_player_mount)
qed

section \<open>Two orders of events\<close>

definition talk_webm :: js_file where
  "talk_webm = \<lparr>file_name = ''talk.webm'', file_size = 2000, file_type = ''video/webm''\<rparr>"

definition env1 :: env where
  "env1 = env0\<lparr>env_url := ''blob:talk''\<rparr>"

definition probed_run :: "(env \<times> app_event) list" where
  "probed_run = [(env0, Upload (Change [clip_mp4])), (env0, ProbeLoaded ''blob:clip'' 60),
     (env0, Upload ClickAnalyze)]"

definition app_analyzing_probed :: app_state where
  "app_analyzing_probed = app_analyzing\<lparr>blobStore := [], probes := [],
     app_originalDuration := 60\<rparr>"

definition app_review_probed :: app_state where
  "app_review_probed = app_review\<lparr>blobStore := [], probes := [], app_originalDuration := 60,
     reviewSrc := False\<rparr>"

definition stale_run :: "(env \<times> app_event) list" where
  "stale_run = [(env0, Upload (Change [clip_mp4])), (env1, Upload (Change [talk_webm])),
     (env1, ProbeLoaded ''blob:talk'' 30), (env1, ProbeLoaded ''blob:clip'' 60),
     (env1, Upload ClickAnalyze)]"

lemma step_probe:
  "app_step env0 (ProbeLoaded ''blob:clip'' 60) app_selected
     = Inr (app_selected\<lparr>blobStore := [], probes := [], app_originalDuration := 60\<rparr>)"
  by (simp add: app_step_def probe_loadedmetadata_def revokeObjectURL_def mount_def
      app_selected_def init_app_def)

lemma step_analyze_probed:
  "app_step env0 (Upload ClickAnalyze)
       (app_selected\<lparr>blobStore := [], probes := [], app_originalDuration := 60\<rparr>)
     = Inr app_analyzing_probed"
  by (simp add: app_step_def upload_dispatch_def init_app_def clickAnalyze_def
      handleStartAnalysis_def mockDuration_def mount_def app_examples init_upload_def
      app_analyzing_probed_def)

lemma run_probed: "app_run probed_run init_app = Inr app_analyzing_probed"
  by (simp add: probed_run_def step_select step_probe step_analyze_probed)

lemma enabled_probed: "app_enabled_run probed_run init_app"
  by (simp add: probed_run_def step_select step_probe step_analyze_probed)
    (simp add: app_examples init_app_def init_upload_def)

lemma reachable_analyzing_probed: "app_reachable app_analyzing_probed"
  using app_reachable.init enabled_probed run_probed by (rule app_reachable_run)

lemma step_resolved_probed:
  "app_step env0 (AnalysisResolved half_rng) app_analyzing_probed = Inr app_review_probed"
proof -
  have "filter (keepCut init_config) (map hallelujah [0..<6]) = map hallelujah [0..<6]"
    by (simp add: filter_map o_def keepCut_def init_config_def hallelujah_def)
  then show ?thesis
    by (simp add: app_step_def handleStartAnalysis_resolved_def analyzeVideoMock_half mount_def
        app_examples init_app_def env0_def app_analyzing_probed_def app_review_probed_def)
qed

definition app_stale :: app_state where
  "app_stale = init_app\<lparr>phase := analyzing, app_file := Some talk_webm, fileUrl := ''blob:talk'',
     app_originalDuration := 60, uploadPhase := None,
     analysis := Some \<lparr>a_duration = 60, a_config = init_config\<rparr>,
     fileEffect := Some ''blob:talk''\<rparr>"

lemma step_select_again:
  "app_step env1 (Upload (Change [talk_webm])) app_selected
     = Inr (app_selected\<lparr>app_file := Some talk_webm, fileUrl := ''blob:talk'',
         uploadPhase := Some (init_upload\<lparr>selectedFile := Some talk_webm\<rparr>),
         blobStore := [''blob:talk''], probes := [''blob:clip'', ''blob:talk''],
         fileEffect := Some ''blob:talk''\<rparr>)"
  by (simp add: app_step_def upload_dispatch_def init_app_def handleChange_def
      validateAndSetFile_def talk_webm_def startsWith_def selectFile_def object_url_defs
      mount_def env0_def env1_def app_selected_def init_upload_def)

lemma run_stale: "app_run stale_run init_app = Inr app_stale"
  by (simp add: stale_run_def step_select step_select_again)
    (simp add: app_step_def probe_loadedmetadata_def revokeObjectURL_def upload_dispatch_def
      clickAnalyze_def handleStartAnalysis_def mockDuration_def mount_def app_selected_def
      init_app_def init_upload_def app_stale_def)

lemma enabled_stale: "app_enabled_run stale_run init_app"
  by (simp add: stale_run_def step_select step_select_again)
    (simp add: app_step_def probe_loadedmetadata_def revokeObjectURL_def mount_def
      app_selected_def init_app_def init_upload_def)

section \<open>Properties\<close>

text \<open>C10: Object URLs are released. In every reachable state at most one object URL
  resolves, and it is the one stored in \<open>fileUrl\<close>; when no file is selected none resolves;
  selecting another file leaves exactly the new URL, and the reset leaves none.\<close>

theorem object_urls_released:
  assumes "app_reachable s"
  shows "set (blobStore s) \<subseteq> {fileUrl s}
    \<and> (app_file s = None \<longrightarrow> blobStore s = [])
    \<and> blobStore (selectFile url f s) = [url]
    \<and> blobStore (handleReset s) = []"
proof -
  note sub = url_invD(1) [OF app_reachable_store(1) [OF assms]]
    and eff = url_invD(2) [OF app_reachable_store(1) [OF assms]]
    and none = url_invD(3) [OF app_reachable_store(1) [OF assms]]
  from sub eff have "set (blobStore s) \<subseteq> {fileUrl s}" by (cases "fileEffect s") auto
  moreover from sub none have "blobStore s = []" if "app_file s = None" using that by simp
  moreover from sub have "blobStore (selectFile url f s) = [url]"
    by (simp add: selectFile_def blobStore_file_effect)
  moreover from sub have "blobStore (handleReset s) = []"
    by (simp add: handleReset_def blobStore_file_effect)
  ultimately show ?thesis by simp
qed

theorem object_urls_released_witness:
  "app_reachable app_processing \<and> blobStore app_processing = [fileUrl app_processing]
   \<and> blobStore (handleReset app_processing) = []"
  using object_urls_released [OF reachable_processing] reachable_processing
  by (simp add: app_examples init_app_def)

text \<open>C16: The probe revokes the URL of the player. The URL in \<open>fileUrl\<close> resolves only
  while the probe of the file is pending. When the metadata of the probe has arrived before
  the analysis ends, the player of the review is created with a URL that no longer
  resolves; such a player never receives metadata, so the review keeps the duration 0.\<close>

theorem probe_revokes_player_source:
  assumes "app_reachable s"
  shows "(fileUrl s \<in> set (blobStore s) \<longrightarrow> fileUrl s \<in> set (probes s))
    \<and> (\<forall>r. reviewPhase s = Some r \<and> \<not> reviewSrc s \<longrightarrow>
          duration r = 0 \<and> (\<forall>d. \<not> app_enabled (Review (LoadedMetadata d)) s))
    \<and> (\<forall>ev rnd s'. analysis s \<noteq> None \<and> fileUrl s \<notin> set (probes s)
          \<and> app_step ev (AnalysisResolved rnd) s = Inr s' \<longrightarrow>
          reviewPhase s' \<noteq> None \<and> \<not> reviewSrc s')"
proof (intro conjI allI impI)
  show live: "fileUrl s \<in> set (probes s)" if "fileUrl s \<in> set (blobStore s)"
    using that by (rule url_invD(4) [OF app_reachable_store(1) [OF assms]])
  fix ev rnd s'
  assume a: "analysis s \<noteq> None \<and> fileUrl s \<notin> set (probes s)
    \<and> app_step ev (AnalysisResolved rnd) s = Inr s'"
  from app_reachable_app_inv [OF assms] a have "reviewPhase s = None"
    by (auto simp: app_inv_def mounted_def app_core_iff)
  with a live show "reviewPhase s' \<noteq> None" and "\<not> reviewSrc s'"
    by (auto simp: app_step_def handleStartAnalysis_resolved_def mount_def Let_def)
next
  fix r
  assume r: "reviewPhase s = Some r \<and> \<not> reviewSrc s"
  with app_reachable_store(2) [OF assms] obtain v
    where v: "videoRef r = Some v" "v_duration v = None"
    by (auto simp: dead_player_iff)
  from app_reachable_app_inv [OF assms] r have "review_inv r"
    by (simp add: app_inv_def child_ok_iff)
  from review_invD(4) [OF this v(1)] v(2) show "duration r = 0"
    by (simp add: known_duration_def)
  from r show "\<not> app_enabled (Review (LoadedMetadata d)) s" for d by simp
qed

theorem probe_revokes_player_source_witness:
  "app_reachable app_analyzing_probed
   \<and> app_step env0 (AnalysisResolved half_rng) app_analyzing_probed = Inr app_review_probed
   \<and> reviewPhase app_review_probed \<noteq> None \<and> \<not> reviewSrc app_review_probed"
  using probe_revokes_player_source [OF reachable_analyzing_probed] reachable_analyzing_probed
    step_resolved_probed
  by (simp add: app_review_probed_def app_review_def)

text \<open>C38: The duration can be that of another file. The probe of a file that has been
  replaced still stores its duration: in the run that selects one file, then another, and
  receives the metadata of the second probe before that of the first, the analysis of the
  second file is given the duration of the first, and no URL resolves any more. Likewise
  the reset keeps the duration, so an analysis of the next file that starts before its
  metadata arrives is given the duration of the previous one.\<close>

theorem duration_of_another_file:
  "app_enabled_run stale_run init_app \<and> app_run stale_run init_app = Inr app_stale
   \<and> app_reachable app_stale
   \<and> app_file app_stale = Some talk_webm
   \<and> analysis app_stale = Some \<lparr>a_duration = 60, a_config = init_config\<rparr>
   \<and> blobStore app_stale = []
   \<and> app_originalDuration (handleReset s) = app_originalDuration s
   \<and> analysis (handleStartAnalysis (selectFile url f (handleReset s)))
       = Some \<lparr>a_duration = mockDuration s, a_config = config s\<rparr>"
proof -
  from app_reachable.init enabled_stale run_stale have "app_reachable app_stale"
    by (rule app_reachable_run)
  with enabled_stale run_stale show ?thesis
    by (simp add: app_stale_def init_app_def handleReset_def selectFile_def
        handleStartAnalysis_def mockDuration_def)
qed

end
