(* ===== verification/Spec2Isabelle.thy ===== *)
theory Spec2Isabelle
  imports CC_Prelude CC_Types Skip_Policy Mapper Media Review_Phase Review_Modes Review_Runs Metrics
    Review_View Gemini_Service Upload_Phase Upload_View Process_Phase Process_View App App_View
    App_Runs Object_Urls
begin

text \<open>
  \<^bold>\<open>ClarityCut: a verification development.\<close>

  ClarityCut is a browser application (React, TypeScript) in which a user uploads a video,
  lets a mock analysis propose ``cut'' intervals, reviews them on a timeline (accepting or
  rejecting each one, scrubbing, previewing a single cut) and finally watches the edited
  result, played with the accepted intervals skipped. The application shell (\<open>App\<close>) owns
  the phase of the workflow and the shared state; it renders one child per phase: the
  upload form, the review component, the render simulation with the result player. The
  part with the most behaviour is the review component: it owns the play-head and
  arbitrates between autonomous playback, scrubbing and bounded preview, applying the
  skip policy on every animation frame.

  \<^bold>\<open>Parts of the program and the theories that model them.\<close>

  \<^item> \<open>CC_Prelude\<close>: JavaScript numbers (finite doubles as \<open>real\<close>, the non-finite results of
    a division as constructors of \<open>jsnum\<close>), \<open>%\<close>, \<open>toFixed\<close>, integer-to-string, \<open>padStart\<close>,
    \<open>trim\<close>, \<open>startsWith\<close>, \<open>toUpperCase\<close>, array indexing, the clamp idiom, lemmas on \<open>find\<close>
    and \<open>reduce\<close>, random draws as a sequence \<open>rng\<close>, the generic convergence lemma
    \<open>iterate_settles\<close>; the collections \<open>cc_defs\<close>, \<open>cc_frame\<close>, \<open>cc_inv\<close>.
  \<^item> \<open>CC_Types\<close> models \<^verbatim>\<open>src/types.ts\<close>: \<open>Phase\<close>, \<open>CutType\<close>, \<open>OutputFormat\<close>,
    \<open>OutputQuality\<close> as datatypes, \<open>CutEvent\<close>, \<open>VideoConfig\<close>, \<open>PhraseList\<close>,
    \<open>ProcessingMetrics\<close> as records; \<open>wf_cut\<close> and \<open>wf_cuts\<close> state the constraints the
    comments give.
  \<^item> \<open>Skip_Policy\<close> models the four \<open>cuts.find(...)\<close> queries of \<open>checkTime\<close> and
    \<open>handleScrubMove\<close> in \<^verbatim>\<open>src/components/ReviewPhase.tsx\<close> (\<open>currentCut\<close>, \<open>upcomingCut\<close>,
    \<open>currentPreviewCut\<close>, \<open>cutAtTime\<close>) and the forced jump (\<open>skip_jump\<close>). \<open>skip_settle\<close>
    iterates the jump; \<open>evaluate\<close> and \<open>spec_settle\<close> are the latest-end rule of the
    specification. Lemmas: what each query returns; every jump is forward and decreases
    \<open>pending\<close>; the settled position is unique, so both rules reach it.
  \<^item> \<open>Mapper\<close> models the pointer-to-time computation of \<open>handleScrubMove\<close> and of the hover
    handler, the time-to-percent computation of play-head, progress fill and cut markers,
    and \<open>formatTime\<close> / \<open>formatTimeExact\<close>. Lemmas: range of the scrub time, round trip,
    the non-finite results of the unguarded divisions.
  \<^item> \<open>Media\<close> models the \<open>HTMLVideoElement\<close> behind \<open>videoRef\<close>: not code of the repository,
    modelled from the media source interface of the specification. \<open>video_ok\<close> (position
    within the media) is kept by every operation.
  \<^item> \<open>Review_Phase\<close> models the \<open>ReviewPhase\<close> component: \<open>review_state\<close> is its \<open>useState\<close>
    and \<open>useRef\<close> cells and its \<open>cuts\<close> prop; \<open>checkTime\<close>, \<open>previewCut\<close>, \<open>skip\<close>,
    \<open>handleScrubMove\<close>, \<open>handleScrubStart\<close>, \<open>handleScrubEnd\<close>, \<open>toggleCutStatus\<close> and the
    inline handlers of the markup are one definition each. \<open>step\<close> dispatches an \<open>event\<close>;
    \<open>run\<close> runs a list of events and stops at the first error; \<open>reachable\<close> is the set of
    states of all enabled runs. Lemmas: the branches of the tick (\<open>checkTime_cases\<close>), the
    invariant \<open>review_inv\<close> and its preservation by every handler, the behaviour of every
    command, the only error.
  \<^item> \<open>Review_Modes\<close>: the four playback modes of the specification as the abstraction
    \<open>mode_of\<close>, the abstract machine \<open>mode_step\<close>, and the refinement of \<open>step\<close> and \<open>run\<close>.
  \<^item> \<open>Review_Runs\<close>: successive ticks implement \<open>skip_settle\<close>; concrete runs on which the
    component leaves the behaviour the specification describes.
  \<^item> \<open>Metrics\<close> models \<open>calculateMetrics\<close> of \<^verbatim>\<open>src/unnamed/part_000\<close> (the \<open>App\<close> component)
    and \<open>stats\<close> of the review component.
  \<^item> \<open>Review_View\<close> models what \<open>ReviewPhase\<close> draws: the waveform (\<open>waveformBars\<close>, its loop
    as \<open>waveform_loop\<close>), \<open>getCutColor\<close>, \<open>getCutBadgeStyles\<close>, and every expression of the
    returned markup that depends on the state (header line, overlay badges, timeline with
    markers, play-heads and tooltip, time display, cut list), collected by \<open>render\<close>; each
    button is a constructor with the event it raises. Lemmas: bounds of the bars, agreement
    of the colour tables, geometry of the markers, the invariant \<open>active_ok\<close> (the
    highlighted id is an id of the list) and its preservation by every event.
  \<^item> \<open>Gemini_Service\<close> models \<^verbatim>\<open>src/services/geminiService.ts\<close>: \<open>analyzeVideoMock\<close> (the
    loop as \<open>mock_loop\<close>, its body as \<open>mock_cut\<close>, the branches on the type roll as
    \<open>classify\<close>) with the draws of \<open>Math.random()\<close> as an argument, and
    \<open>generateEditingReport\<close> with the remote model as an argument. Lemmas: the range of
    every generated cut, the ids, the sorting; the counts of the report.
  \<^item> \<open>Upload_Phase\<close> models \<^verbatim>\<open>src/components/UploadPhase.tsx\<close>: \<open>upload_state\<close>, the handlers
    \<open>handleDrag\<close>, \<open>validateAndSetFile\<close>, \<open>handleDrop\<close>, \<open>handleChange\<close>, \<open>toggleSetting\<close>,
    \<open>addCustomPhrase\<close>, \<open>removeCustomPhrase\<close>, \<open>handleLoadList\<close>, \<open>saveCurrentList\<close> and the
    inline ones; \<open>upload_step\<close> dispatches an \<open>upload_event\<close> and returns the calls of the
    parent's callbacks as \<open>upload_effect\<close>s. Lemmas: the validity \<open>upload_inv\<close> of the form
    and of what it hands over.
  \<^item> \<open>Upload_View\<close> models what \<open>UploadPhase\<close> draws: file card, toggle cards with the
    slider, the select of saved lists, the phrase input with its chips, the naming
    controls, the export selects and the \<open>Analyze\<close> button, collected by \<open>upload_render\<close>.
    \<open>offered\<close> reads off the view which events the drawn controls can raise. Lemmas: it
    agrees with \<open>upload_enabled\<close>; the toggles show the configuration.
  \<^item> \<open>Process_Phase\<close> models \<^verbatim>\<open>src/components/ProcessPhase.tsx\<close>, a file that holds three
    successive revisions of the component: the progress simulation of the first and of
    the latest revision, \<open>getStageInfo\<close>, the report effect, the skip loop of the result
    player (\<open>activeCut\<close>, \<open>result_jump\<close>, \<open>pp_checkTime\<close>), \<open>handlePlayPreview\<close>,
    \<open>handleDownload\<close> and the metrics grid. Lemmas: bounds and completion of the progress,
    convergence of the skip loop, the invariant \<open>process_inv\<close>.
  \<^item> \<open>Process_View\<close> models what \<open>ProcessPhase\<close> draws in its latest revision: the rendering
    screen and the result screen as the function \<open>process_render\<close>. Lemmas: which screen
    is drawn, the stages appear in order, the report replaces its placeholder.
  \<^item> \<open>App\<close> models the component \<open>App\<close> of \<^verbatim>\<open>src/unnamed/part_000\<close>: \<open>app_state\<close> with the
    state of the rendered child, \<open>handleStartAnalysis\<close> (split at its \<open>await\<close>), \<open>keepCut\<close>
    (the filter by configuration), \<open>handleConfirmCuts\<close>, \<open>handleReset\<close>, \<open>handleSaveList\<close>,
    \<open>handleDeleteList\<close>, the conditional rendering \<open>mount\<close>, and the effect that depends on
    \<open>file\<close> (\<open>file_effect\<close> with its cleanup \<open>file_cleanup\<close>, the handler
    \<open>probe_loadedmetadata\<close> of the detached video element that reads the duration);
    \<open>app_step\<close> composes the steps of the three children with the handlers of the shell.
    Lemmas: the invariant \<open>app_inv\<close> and its preservation by every event.
  \<^item> \<open>App_View\<close> models what \<open>App\<close> draws: the header label and the screen of the current
    phase (\<open>app_render\<close>), which is the view of the rendered child with the properties the
    shell hands to it.
  \<^item> \<open>App_Runs\<close>: the shell embeds its children (the state of a rendered child is a state
    the child reaches on its own: \<open>reachable\<close> of \<open>Review_Phase\<close>, \<open>process_reachable\<close> of
    \<open>Process_Phase\<close>), so the theorems on the children hold inside the application; the
    phase each event leads to; the run from the review to the completed result.
  \<^item> \<open>Object_Urls\<close>: the object URLs that the file effect creates and revokes. Lemmas: the
    invariant \<open>url_inv\<close> of the store and its preservation by every event; a player whose
    URL did not resolve never learns the duration (\<open>dead_player\<close>); the runs in which the
    probe has revoked the URL of the player, and in which the probe of a replaced file
    sets the duration.
  \<^item> This theory holds the properties that span components.

  \<^bold>\<open>Modelling decisions.\<close>

  \<^item> Numbers are mathematical reals: the rounding of doubles is not modelled. The only
    non-finite values the modelled code can produce come from divisions by the timeline
    width and by the duration; they are kept (\<open>js_div\<close>), and the assignment of a non-finite
    time to the media element is the error \<open>TypeError\<close> of \<open>handleScrubMove\<close>. After an
    error the component is not modelled further: \<open>run\<close> stops.
  \<^item> A handler is atomic and runs on the state of the latest render; React's batching of
    state updates within a handler is not visible. What is asynchronous in the browser is
    a separate event: the media element's \<open>play\<close> and \<open>pause\<close> events (which only set
    \<open>isPlaying\<close>), the resolution of the \<open>play()\<close> promise of \<open>previewCut\<close>, the arrival of
    the metadata, and the passing of playback time (\<open>Advance\<close>). Whether \<open>play()\<close> is
    granted is a parameter of the event that calls it.
  \<^item> \<open>enabled\<close> states the only assumptions on the environment: time advances by a
    non-negative amount, the metadata arrives once with a non-negative duration, and a
    previewed cut is one of the list. User commands are enabled in every state, also those
    that a pointer cannot issue during a drag; the invariant and the refinement hold for
    this larger set of runs.
  \<^item> In the shell a pending analysis may resolve or be rejected (\<open>AnalysisResolved\<close>,
    \<open>AnalysisRejected\<close>): the mock service of the repository never rejects, the \<open>catch\<close>
    block of \<open>handleStartAnalysis\<close> is there for a service that does.
  \<^item> \<^verbatim>\<open>ProcessPhase.tsx\<close> holds three revisions of the component. The model is the third one,
    and the progress effect of the first where it differs (suffix \<open>_v1\<close>); the second
    revision combines the two and has no definition of its own. \<open>App\<close> renders the
    component with the four properties of the first revision (\<open>metrics\<close>, \<open>cuts\<close>, \<open>config\<close>,
    \<open>onReset\<close>); the third revision also reads \<open>fileUrl\<close> and \<open>file\<close>, which are then
    undefined: \<open>process_props\<close> gives them as \<open>None\<close>.
  \<^item> A child component has state only while it is rendered: its state is an \<open>option\<close>
    field of \<open>app_state\<close>, created by \<open>mount\<close> when its phase begins and discarded when it
    ends. A callback that a child calls on its parent is a value (\<open>upload_effect\<close>) that
    the parent applies after the child's handler.
  \<^item> Object URLs are kept in an explicit store: \<open>blobStore\<close> lists the URLs that resolve,
    \<open>createObjectURL\<close> adds one and \<open>revokeObjectURL\<close> removes it (the two operations of
    the platform, not code of the repository). The URL that \<open>createObjectURL\<close> returns is
    chosen by the environment; the theorems do not need it to be fresh. \<open>probes\<close> lists
    the detached video elements whose metadata has not arrived; such an element has read
    its URL when it was created, so its metadata can arrive after the URL was revoked. A
    player resolves its URL when it is created: \<open>reviewSrc\<close> records the outcome for the
    player of the review, and only a player whose URL resolved receives metadata. The
    other events of a player without a source are not restricted, which allows more runs
    than a browser does.
  \<^item> What the environment chooses is an argument: the draws of \<open>Math.random()\<close> (a function
    from the index of the draw to its value, \<open>unit_rng\<close> when all values are in \<open>[0, 1)\<close>),
    the clock \<open>Date.now()\<close>, the object URL, the rectangle of the timeline, the answer of
    the remote model. Strings are lists of 8-bit characters.
  \<^item> A view is a function of the state: what a component draws is computed from the
    state of the latest render, and a click on a drawn button is the event that
    \<open>button_event\<close> or \<open>item_event\<close> names. The overlay badges read \<open>previewEndTimeRef\<close>, a
    cell whose change alone causes no render; the model draws from the current value.
    The height of a waveform bar uses \<open>Math.sin\<close>, modelled by \<^const>\<open>sin\<close>: the bars are
    bounded by proof, not evaluated.
  \<^item> No fuel is used: \<open>skip_settle\<close>, \<open>skip_count\<close> and \<open>spec_settle\<close> are total functions
    whose termination is proved with the measure \<open>pending\<close>, the number of accepted cuts
    that end after the position; the result player's loop is bounded in the same way by
    \<open>result_pending\<close> through \<open>iterate_settles\<close>; the progress simulation completes within
    100 timer ticks because every increment is at least 1.

  \<^bold>\<open>What the theorems show.\<close> The skip policy converges within as many jumps as there are
  accepted cuts and reaches the same position as the latest-end rule of the specification
  (\<open>Skip_Policy\<close>, \<open>Review_Runs\<close>); the mapper stays within the duration and is inverse to the
  play-head offset (\<open>Mapper\<close>); every reachable state satisfies \<open>review_inv\<close>; scrubbing
  pre-empts playback and preview, a preview is bounded and never skips, a tick in normal
  playback jumps to the end of the first accepted cut that contains the position
  (\<open>Review_Phase\<close>); the component refines the abstract mode machine (\<open>Review_Modes\<close>); the
  metrics are the sums the specification defines (\<open>Metrics\<close>), which exceed what playback
  skips by the overlap of the cuts (this theory). The mock analysis returns
  well-formed, sorted cuts within the video when the video lasts five seconds or more
  (\<open>Gemini_Service\<close>); the upload form hands over only valid files and phrase lists
  (\<open>Upload_Phase\<close>); the render simulation completes and the result player's skip loop
  converges (\<open>Process_Phase\<close>); every reachable state of the application satisfies
  \<open>app_inv\<close>, and the review receives exactly the cuts the configuration asks for (\<open>App\<close>);
  the highlighted cut is always a cut of the list, drawn as one active marker and one
  active list item (\<open>Review_View\<close>); the upload form offers exactly the enabled events
  (\<open>Upload_View\<close>); the children run inside the application as they run alone, and the
  result screen reports the numbers the review announced, and the phases follow one another
  in the order upload, analysis, review, render (\<open>App_Runs\<close>); at most the object
  URL of the selected file resolves, and none after a reset (\<open>Object_Urls\<close>).
  The divergences that the model exhibits are theorems or lemmas as well, stated for all
  inputs they concern: the first-match selection, the previews before the metadata and
  beyond the duration that are carried out, the overlap of two cuts that the metrics count
  twice, the cuts before 0 for short videos, the metrics and the report when the duration
  is unknown, the rejected cuts in the report, the tolerance of the result player, the
  skipping badge raised by the look-ahead highlight, the URL of the review player that the
  probe has revoked, the duration of a replaced file; and as lemmas the unguarded
  divisions, the mode changes the transition table omits, the silence of exactly the
  threshold that the filter keeps, the overlaps that sorting leaves, the download that
  the shell never enables.

  \<^bold>\<open>Not modelled.\<close> The static markup and the class names that do not depend on the state;
  the wording of the prompt and the network call of the report generator; the \<open>Button\<close>
  component and the icon library, which are not among the sources; React's batching of
  several updates within one handler and the moment at which a render happens; the
  rounding of floating-point arithmetic.
\<close>

section \<open>Accepting a cut and the metrics\<close>

lemma accepted_length_toggle:
  assumes "wf_cuts cs" and "c \<in> set cs"
  shows "accepted_length (toggleCutStatus (cut_id c) st cs)
     = accepted_length cs
       - (if is_accepted c then cut_length c else 0)
       + (if st = accepted then cut_length c else 0)"
  using assms
proof (induction cs)
  case Nil
  then show ?case by simp
next
  case (Cons a cs)
  show ?case
  proof (cases "a = c")
    case True
    with Cons.prems have "cut_id c \<notin> cut_id ` set cs" by simp
    then have "toggleCutStatus (cut_id c) st cs = cs" by (rule toggleCutStatus_absent)
    with True show ?thesis by simp
  next
    case False
    with Cons.prems have c: "c \<in> set cs" and "cut_id a \<noteq> cut_id c" by auto
    with Cons.IH Cons.prems show ?thesis by simp
  qed
qed

lemma accepted_count_toggle:
  assumes "wf_cuts cs" and "c \<in> set cs"
  shows "int (length (filter is_accepted (toggleCutStatus (cut_id c) st cs)))
     = int (length (filter is_accepted cs))
       - (if is_accepted c then 1 else 0) + (if st = accepted then 1 else 0)"
  using assms
proof (induction cs)
  case Nil
  then show ?case by simp
next
  case (Cons a cs)
  show ?case
  proof (cases "a = c")
    case True
    with Cons.prems have "cut_id c \<notin> cut_id ` set cs" by simp
    then have "toggleCutStatus (cut_id c) st cs = cs" by (rule toggleCutStatus_absent)
    with True show ?thesis by simp
  next
    case False
    with Cons.prems have c: "c \<in> set cs" and "cut_id a \<noteq> cut_id c" by auto
    with Cons.IH Cons.prems show ?thesis
      by (cases "is_accepted a"; cases "is_accepted c"; cases "st = accepted") simp_all
  qed
qed

text \<open>C29: The metrics follow the review. In a well-formed cut list (distinct ids),
  accepting a rejected cut adds exactly its length to the time saved and one to the number
  of cuts; rejecting an accepted cut removes them again; the original duration is never
  affected.\<close>

theorem metrics_follow_toggle:
  assumes "wf_cuts cs" and "c \<in> set cs"
  shows "(status c = rejected \<longrightarrow>
            timeSaved (calculateMetrics (toggleCutStatus (cut_id c) accepted cs) od)
              = timeSaved (calculateMetrics cs od) + (cut_end c - start c)
          \<and> cutsCount (calculateMetrics (toggleCutStatus (cut_id c) accepted cs) od)
              = cutsCount (calculateMetrics cs od) + 1)
       \<and> (status c = accepted \<longrightarrow>
            timeSaved (calculateMetrics (toggleCutStatus (cut_id c) rejected cs) od)
              = timeSaved (calculateMetrics cs od) - (cut_end c - start c)
          \<and> cutsCount (calculateMetrics (toggleCutStatus (cut_id c) rejected cs) od) + 1
              = cutsCount (calculateMetrics cs od))
       \<and> originalDuration (calculateMetrics (toggleCutStatus (cut_id c) st cs) od) = od"
  using accepted_length_toggle [OF assms, of accepted] accepted_length_toggle [OF assms, of rejected]
    accepted_count_toggle [OF assms, of accepted] accepted_count_toggle [OF assms, of rejected]
  by (auto simp: is_accepted_def cut_length_def)

theorem metrics_follow_toggle_witness:
  "timeSaved (calculateMetrics (toggleCutStatus ''cut-2'' accepted spec_cuts) 60) = 3.5
   \<and> cutsCount (calculateMetrics (toggleCutStatus ''cut-2'' accepted spec_cuts) 60) = 3"
proof -
  let ?c = "\<lparr>cut_id = ''cut-2'', cut_type = cliche, word = Some ''Literally'', start = 20,
      cut_end = 21, confidence = 0.9, status = rejected\<rparr>"
  have "wf_cuts spec_cuts" "?c \<in> set spec_cuts"
    by (simp_all add: spec_cuts_def wf_cut_def)
  from metrics_follow_toggle [OF this, of 60] show ?thesis
    by (simp add: spec_cuts_def is_accepted_def cut_length_def)
qed

section \<open>The report and the metrics\<close>

lemma sum_all_gt_accepted:
  assumes "c \<in> set cs" and "status c = rejected" and "start c < cut_end c"
    and "\<forall>c\<in>set cs. start c \<le> cut_end c"
  shows "accepted_length cs < sum_list (map cut_length cs)"
  using assms
proof (induction cs)
  case Nil
  then show ?case by simp
next
  case (Cons a cs)
  have le: "accepted_length cs \<le> sum_list (map cut_length cs)"
    unfolding accepted_length_def using Cons.prems(4)
    by (intro sum_list_filter_le) (simp add: cut_length_def)
  show ?case
  proof (cases "a = c")
    case True
    with Cons.prems le show ?thesis by (simp add: is_accepted_def cut_length_fun)
  next
    case False
    with Cons.prems Cons.IH have "accepted_length cs < sum_list (map cut_length cs)" by simp
    with Cons.prems(4) show ?thesis by (simp add: cut_length_fun)
  qed
qed

lemma accepted_count_lt:
  "c \<in> set cs \<Longrightarrow> status c = rejected \<Longrightarrow> length (filter is_accepted cs) < length cs"
  by (rule length_filter_less [of c]) (simp_all add: is_accepted_def)

definition one_rejected :: app_state where
  "one_rejected = app_processing\<lparr>app_cuts := [(hallelujah 0)\<lparr>status := rejected\<rparr>, hallelujah 1],
     app_originalDuration := 60\<rparr>"

text \<open>C32: The report counts what the user rejected. The result view passes all cuts to
  the report generator, the metrics count the accepted ones only: as soon as one cut of
  positive length is rejected, the five counts of the report add up to more than the
  number of cuts made, and the share the fallback report prints is larger than the share
  of the time saved.\<close>

theorem report_counts_rejected_cuts:
  assumes "c \<in> set (app_cuts s)" and "status c = rejected" and "start c < cut_end c"
    and "\<forall>c\<in>set (app_cuts s). start c \<le> cut_end c" and "0 < app_originalDuration s"
  shows "cutsCount (app_metrics s)
      < count_type filler (app_cuts s) + count_type cliche (app_cuts s)
        + count_type silence (app_cuts s) + count_type repetition (app_cuts s)
        + count_type stutter (app_cuts s)
    \<and> (\<exists>p. concise_percent (app_cuts s) (originalDuration (app_metrics s)) = Finite p
           \<and> timeSaved (app_metrics s) / originalDuration (app_metrics s) * 100 < p)"
proof
  from accepted_count_lt [OF assms(1,2)] show "cutsCount (app_metrics s)
      < count_type filler (app_cuts s) + count_type cliche (app_cuts s)
        + count_type silence (app_cuts s) + count_type repetition (app_cuts s)
        + count_type stutter (app_cuts s)"
    by (simp add: count_type_total app_metrics_def)
  from sum_all_gt_accepted [OF assms(1-4)] assms(5)
  show "\<exists>p. concise_percent (app_cuts s) (originalDuration (app_metrics s)) = Finite p
           \<and> timeSaved (app_metrics s) / originalDuration (app_metrics s) * 100 < p"
    by (simp add: concise_percent_Finite app_metrics_def divide_strict_right_mono)
qed

theorem report_counts_rejected_cuts_witness:
  "cutsCount (app_metrics one_rejected) = 1
   \<and> count_type cliche (app_cuts one_rejected) = 2
   \<and> concise_percent (app_cuts one_rejected) (originalDuration (app_metrics one_rejected)) = Finite 4
   \<and> timeSaved (app_metrics one_rejected) / originalDuration (app_metrics one_rejected) * 100 = 2"
proof -
  have "cutsCount (app_metrics one_rejected)
      < count_type filler (app_cuts one_rejected) + count_type cliche (app_cuts one_rejected)
        + count_type silence (app_cuts one_rejected) + count_type repetition (app_cuts one_rejected)
        + count_type stutter (app_cuts one_rejected)"
    using report_counts_rejected_cuts [of "(hallelujah 0)\<lparr>status := rejected\<rparr>" one_rejected]
    by (simp add: one_rejected_def hallelujah_def)
  then show ?thesis
    by (simp add: one_rejected_def hallelujah_def app_metrics_def count_type_def
        concise_percent_def is_accepted_def cut_length_def)
qed

text \<open>C39: Overlapping cuts are counted twice. For an accepted cut and a second cut that
  starts inside it and ends no earlier, the time saved that the metrics report is the time
  that playback from the start of the first cut skips, plus the length of the overlap when
  the second cut is accepted as well; the reported final duration is shorter than what is
  played by the same amount.\<close>

theorem overlap_counted_twice:
  assumes "status c1 = accepted" and "start c1 < cut_end c1"
    and "start c1 \<le> start c2" and "start c2 < cut_end c1" and "cut_end c1 \<le> cut_end c2"
  shows "timeSaved (calculateMetrics [c1, c2] d)
      = (skip_settle [c1, c2] (start c1) - start c1)
        + (if status c2 = accepted then cut_end c1 - start c2 else 0)
    \<and> finalDuration (calculateMetrics [c1, c2] d)
      = d - (skip_settle [c1, c2] (start c1) - start c1)
        - (if status c2 = accepted then cut_end c1 - start c2 else 0)"
proof -
  from assms have c1: "currentCut [c1, c2] (start c1) = Some c1"
    by (simp add: currentCut_Cons is_accepted_def contains_def)
  have settle: "skip_settle [c1, c2] (start c1)
      = (if status c2 = accepted then cut_end c2 else cut_end c1)"
  proof (cases "status c2 = accepted \<and> cut_end c1 < cut_end c2")
    case True
    with assms have "currentCut [c1, c2] (cut_end c1) = Some c2"
      "currentCut [c1, c2] (cut_end c2) = None"
      by (simp_all add: currentCut_Cons is_accepted_def contains_def currentCut_def)
    with c1 True show ?thesis by simp
  next
    case False
    with assms have "currentCut [c1, c2] (cut_end c1) = None"
      by (auto simp: currentCut_Cons is_accepted_def contains_def currentCut_def)
    with c1 False assms(5) show ?thesis by auto
  qed
  from assms(1) show ?thesis
    by (simp add: settle is_accepted_def cut_length_def)
qed

theorem overlap_counted_twice_witness:
  "timeSaved (calculateMetrics [cut_5_8, cut_6_12] 100) = 9
   \<and> skip_settle [cut_5_8, cut_6_12] (start cut_5_8) - start cut_5_8 = 7"
  using overlap_counted_twice [of cut_5_8 cut_6_12 100]
  by (simp add: example_cuts is_accepted_def cut_length_def)


end
